theory Spec2Isabelle
  imports Complex_Main "HOL-Library.AList" "HOL-Library.Log_Nat"
begin

section \<open>JavaScript values used by the controllers\<close>

text \<open>
  A string-valued property that may be \<^verbatim>\<open>undefined\<close> or \<^verbatim>\<open>null\<close> is a
  \<open>string option\<close>. JavaScript treats \<^verbatim>\<open>undefined\<close>, \<^verbatim>\<open>null\<close> and the empty string as
  falsy, every other string as truthy. Strings are ASCII.
\<close>

definition truthy :: "string option \<Rightarrow> bool" where
  "truthy s = (case s of None \<Rightarrow> False | Some t \<Rightarrow> t \<noteq> [])"

text \<open>\<^verbatim>\<open>a || b\<close> on two optional strings.\<close>

definition js_or :: "string option \<Rightarrow> string option \<Rightarrow> string option" where
  "js_or a b = (if truthy a then a else b)"

definition toLowerCase_char :: "char \<Rightarrow> char" where
  "toLowerCase_char c =
     (case map_of (zip ''ABCDEFGHIJKLMNOPQRSTUVWXYZ'' ''abcdefghijklmnopqrstuvwxyz'') c of
        None \<Rightarrow> c | Some l \<Rightarrow> l)"

definition toLowerCase :: "string \<Rightarrow> string" where
  "toLowerCase s = map toLowerCase_char s"

definition toUpperCase_char :: "char \<Rightarrow> char" where
  "toUpperCase_char c =
     (case map_of (zip ''abcdefghijklmnopqrstuvwxyz'' ''ABCDEFGHIJKLMNOPQRSTUVWXYZ'') c of
        None \<Rightarrow> c | Some u \<Rightarrow> u)"

definition toUpperCase :: "string \<Rightarrow> string" where
  "toUpperCase s = map toUpperCase_char s"

section \<open>JavaScript numbers\<close>

text \<open>
  A Number is an IEEE 754 double: a finite value, an infinity or \<^verbatim>\<open>NaN\<close>. A finite
  double is given by its exact value, a rational; \<open>Finite r\<close> is meant for an \<open>r\<close> that
  is a double, as a whole number below \<open>2^53\<close> or 0.125 is. The Number that a decimal
  \<open>d\<close> of the source, of a request or of the store denotes is \<open>Number_value d\<close> below:
  0.18 is \<open>Number_value (18 / 100)\<close>, not \<open>Finite (18 / 100)\<close>. The two zeros are one
  value: the code below divides by the literal \<^verbatim>\<open>100\<close> only and never reads the sign of a
  zero.
\<close>

datatype number = Finite rat | PosInfinity | NegInfinity | NaN

text \<open>The binary exponent of a positive rational \<open>a\<close>: the \<open>e\<close> with \<open>2^e \<le> a < 2^(e+1)\<close>.\<close>

definition exponent :: "rat \<Rightarrow> int" where
  "exponent a =
     (case quotient_of a of (p, q) \<Rightarrow>
        let e = bitlen p - bitlen q in if 2 powi e \<le> a then e else e - 1)"

text \<open>The nearest integer, a tie going to the even one.\<close>

definition round_even :: "rat \<Rightarrow> int" where
  "round_even z =
     (let f = \<lfloor>z\<rfloor>; d = z - of_int f
      in if d < 1 / 2 then f else if 1 / 2 < d then f + 1 else if even f then f else f + 1)"

text \<open>
  The Number value of a rational: the nearest double (53 significant bits, exponents
  from -1022, subnormals below), a tie going to the even significand, and an infinity
  when the rounded magnitude \<open>m\<close> reaches \<open>2^1024\<close>, that is, when its exponent reaches
  1024. It is the value of a decimal literal, of \<^verbatim>\<open>Number(string)\<close> on a decimal
  string, and of every arithmetic operation applied to the exact result.
\<close>

definition Number_value :: "rat \<Rightarrow> number" where
  "Number_value x =
     (if x = 0 then Finite 0
      else let a = \<bar>x\<bar>;
               q = 2 powi (max (exponent a) (- 1022) - 52);
               m = of_int (round_even (a / q)) * q
           in if 1024 \<le> exponent m then (if 0 < x then PosInfinity else NegInfinity)
              else Finite (sgn x * m))"

fun js_neg :: "number \<Rightarrow> number" where
  "js_neg (Finite x) = Finite (- x)"
| "js_neg PosInfinity = NegInfinity"
| "js_neg NegInfinity = PosInfinity"
| "js_neg NaN = NaN"

text \<open>\<^verbatim>\<open>a + b\<close>, \<^verbatim>\<open>a - b\<close>, \<^verbatim>\<open>a * b\<close> and \<^verbatim>\<open>a / b\<close> on Numbers (a zero divisor is read as \<^verbatim>\<open>+0\<close>).\<close>

fun js_add :: "number \<Rightarrow> number \<Rightarrow> number" where
  "js_add (Finite x) (Finite y) = Number_value (x + y)"
| "js_add NaN b = NaN"
| "js_add a NaN = NaN"
| "js_add PosInfinity NegInfinity = NaN"
| "js_add NegInfinity PosInfinity = NaN"
| "js_add PosInfinity b = PosInfinity"
| "js_add a PosInfinity = PosInfinity"
| "js_add NegInfinity b = NegInfinity"
| "js_add a NegInfinity = NegInfinity"

definition js_sub :: "number \<Rightarrow> number \<Rightarrow> number" where
  "js_sub a b = js_add a (js_neg b)"

fun js_mul :: "number \<Rightarrow> number \<Rightarrow> number" where
  "js_mul (Finite x) (Finite y) = Number_value (x * y)"
| "js_mul NaN b = NaN"
| "js_mul a NaN = NaN"
| "js_mul (Finite x) PosInfinity =
     (if x = 0 then NaN else if 0 < x then PosInfinity else NegInfinity)"
| "js_mul (Finite x) NegInfinity =
     (if x = 0 then NaN else if 0 < x then NegInfinity else PosInfinity)"
| "js_mul PosInfinity (Finite y) =
     (if y = 0 then NaN else if 0 < y then PosInfinity else NegInfinity)"
| "js_mul NegInfinity (Finite y) =
     (if y = 0 then NaN else if 0 < y then NegInfinity else PosInfinity)"
| "js_mul PosInfinity PosInfinity = PosInfinity"
| "js_mul PosInfinity NegInfinity = NegInfinity"
| "js_mul NegInfinity PosInfinity = NegInfinity"
| "js_mul NegInfinity NegInfinity = PosInfinity"

fun js_div :: "number \<Rightarrow> number \<Rightarrow> number" where
  "js_div (Finite x) (Finite y) =
     (if y = 0 then (if x = 0 then NaN else if 0 < x then PosInfinity else NegInfinity)
      else Number_value (x / y))"
| "js_div NaN b = NaN"
| "js_div a NaN = NaN"
| "js_div (Finite x) PosInfinity = Finite 0"
| "js_div (Finite x) NegInfinity = Finite 0"
| "js_div PosInfinity (Finite y) = (if 0 \<le> y then PosInfinity else NegInfinity)"
| "js_div NegInfinity (Finite y) = (if 0 \<le> y then NegInfinity else PosInfinity)"
| "js_div PosInfinity PosInfinity = NaN"
| "js_div PosInfinity NegInfinity = NaN"
| "js_div NegInfinity PosInfinity = NaN"
| "js_div NegInfinity NegInfinity = NaN"

text \<open>\<^verbatim>\<open>a <= b\<close> and \<^verbatim>\<open>a < b\<close> on Numbers; \<^verbatim>\<open>a >= b\<close> is \<open>js_le b a\<close>, \<^verbatim>\<open>a > b\<close> is \<open>js_lt b a\<close>.\<close>

fun js_le :: "number \<Rightarrow> number \<Rightarrow> bool" where
  "js_le (Finite x) (Finite y) = (x \<le> y)"
| "js_le NaN b = False"
| "js_le a NaN = False"
| "js_le NegInfinity b = True"
| "js_le a PosInfinity = True"
| "js_le (Finite x) NegInfinity = False"
| "js_le PosInfinity (Finite y) = False"
| "js_le PosInfinity NegInfinity = False"

fun js_lt :: "number \<Rightarrow> number \<Rightarrow> bool" where
  "js_lt (Finite x) (Finite y) = (x < y)"
| "js_lt NaN b = False"
| "js_lt a NaN = False"
| "js_lt a NegInfinity = False"
| "js_lt PosInfinity b = False"
| "js_lt (Finite x) PosInfinity = True"
| "js_lt NegInfinity (Finite y) = True"
| "js_lt NegInfinity PosInfinity = True"

fun Math_min :: "number \<Rightarrow> number \<Rightarrow> number" where
  "Math_min (Finite x) (Finite y) = Finite (min x y)"
| "Math_min NaN b = NaN"
| "Math_min a NaN = NaN"
| "Math_min NegInfinity b = NegInfinity"
| "Math_min a NegInfinity = NegInfinity"
| "Math_min PosInfinity b = b"
| "Math_min a PosInfinity = a"

fun Math_max :: "number \<Rightarrow> number \<Rightarrow> number" where
  "Math_max (Finite x) (Finite y) = Finite (max x y)"
| "Math_max NaN b = NaN"
| "Math_max a NaN = NaN"
| "Math_max PosInfinity b = PosInfinity"
| "Math_max a PosInfinity = PosInfinity"
| "Math_max NegInfinity b = b"
| "Math_max a NegInfinity = a"

text \<open>A Number is falsy when it is zero or \<^verbatim>\<open>NaN\<close>; \<^verbatim>\<open>a || b\<close> on two Numbers.\<close>

definition truthy_number :: "number \<Rightarrow> bool" where
  "truthy_number a = (a \<noteq> Finite 0 \<and> a \<noteq> NaN)"

definition js_or_number :: "number \<Rightarrow> number \<Rightarrow> number" where
  "js_or_number a b = (if truthy_number a then a else b)"

text \<open>
  \<^verbatim>\<open>Number(x.toFixed(2))\<close>. \<^verbatim>\<open>toFixed\<close> takes the integer \<open>n\<close> for which \<open>n / 100\<close> is
  nearest to the exact magnitude of \<open>x\<close>, the larger one on a tie, and prints it with
  two decimals and the sign of \<open>x\<close>; \<^verbatim>\<open>Number\<close> reads the decimal as the nearest double.
  From \<^verbatim>\<open>1e21\<close> on, and for an infinity and \<^verbatim>\<open>NaN\<close>, \<^verbatim>\<open>toFixed\<close> prints the number itself:
  the round trip is the identity there, as is the first line on a double that large.
\<close>

fun toFixed2 :: "number \<Rightarrow> number" where
  "toFixed2 (Finite x) =
     (let n = \<lfloor>\<bar>x\<bar> * 100 + 1 / 2\<rfloor>
      in if x < 0 then js_neg (Number_value (of_int n / 100)) else Number_value (of_int n / 100))"
| "toFixed2 a = a"

text \<open>A whole quantity as a Number.\<close>

definition Number_of_int :: "int \<Rightarrow> number" where
  "Number_of_int q = Number_value (of_int q)"

section \<open>The Order aggregate (models/order.model.js)\<close>

datatype order_status =
  Pending | Confirmed | Processing | Shipped | Delivered | Cancelled | Returned | Refunded

datatype payment_status = PaymentPending | PaymentPaid | PaymentFailed | PaymentRefunded

text \<open>
  \<^verbatim>\<open>paymentSchema\<close>. Every field may be absent. The controllers read the sub-document
  with \<^verbatim>\<open>order.payment?.f\<close> and replace a missing one by \<^verbatim>\<open>{}\<close> before the first
  write, so a missing sub-document is the record with every field \<open>None\<close>.
  \<^verbatim>\<open>amount\<close> is a whole number of minor currency units; the schema's \<^verbatim>\<open>min: 0\<close> and the
  payment provider both exclude negative amounts, so it is a \<open>nat\<close>, and
  \<^verbatim>\<open>Number.isFinite(amount)\<close> holds exactly when the field is present.
\<close>

record payment_doc =
  p_method :: "string option"
  p_status :: "payment_status option"
  p_transactionId :: "string option"
  p_intentId :: "string option"
  p_amount :: "nat option"
  p_currency :: "string option"
  p_receiptUrl :: "string option"
  p_failureReason :: "string option"

record refund_doc =
  r_amount :: "nat option"
  r_reason :: "string option"
  r_date :: "nat option"

datatype ship_method = Standard | Express | Unlisted

text \<open>
  \<^verbatim>\<open>shippingSchema\<close>, with the address snapshot kept as one value. \<open>Unlisted\<close> stands for
  any requested method string other than \<^verbatim>\<open>'standard'\<close> and \<^verbatim>\<open>'express'\<close> that is not a
  property of a rate-table entry either.
\<close>

record address_doc =
  line1 :: "string option"
  line2 :: "string option"
  city :: "string option"
  state :: "string option"
  postalCode :: "string option"
  country :: "string option"

record shipping_doc =
  s_address :: address_doc
  s_method :: ship_method
  s_estimatedDays :: "string option"
  s_courier :: "string option"
  s_trackingNumber :: "string option"
  s_status :: "string option"

text \<open>\<^verbatim>\<open>orderItemSchema\<close>: the line-item snapshot. Money is a Number.\<close>

record order_item =
  oi_product :: string
  oi_sku :: "string option"
  oi_name :: "string option"
  oi_qty :: int
  oi_image :: "string option"
  oi_price :: number

record order =
  user :: string
  orderItems :: "order_item list"
  status :: order_status
  itemsPrice :: number
  shippingPrice :: number
  taxPrice :: number
  discountAmount :: number
  coupon :: "string option"
  totalPrice :: number
  payment :: payment_doc
  shipping :: shipping_doc
  refund :: refund_doc
  isPaid :: bool
  paidAt :: "nat option"
  isDelivered :: bool
  deliveredAt :: "nat option"

text \<open>
  The Order collection, in insertion order, keyed by the document id.
  \<^verbatim>\<open>Order.findById\<close> is \<open>map_of\<close>, \<^verbatim>\<open>order.save()\<close> of a loaded document is
  \<open>AList.update\<close>.
\<close>

type_synonym order_store = "(string \<times> order) list"

section \<open>Products and coupons (models/product.model.js, models/coupon.model.js)\<close>

text \<open>The fields of a product that order placement reads or writes.\<close>

record product =
  prod_name :: "string option"
  prod_sku :: "string option"
  prod_price :: number
  prod_images :: "string list"
  enabled :: bool
  isDeleted :: bool
  countInStock :: int

text \<open>The Product collection, keyed by the canonical string of the document id.\<close>

type_synonym product_store = "string \<rightharpoonup> product"

datatype discount_type = Percentage | Fixed

record coupon_usage =
  cu_user :: string
  cu_order :: "string option"
  cu_discountApplied :: number

record coupon_doc =
  c_id :: string
  discountType :: discount_type
  discountValue :: number
  minOrderAmount :: number
  maxDiscountAmount :: "number option"
  usageLimit :: "nat option"
  usageLimitPerUser :: nat
  usedCount :: nat
  validFrom :: nat
  validUntil :: nat
  allowedUsers :: "string list"
  firstOrderOnly :: bool
  isActive :: bool
  usedBy :: "coupon_usage list"

text \<open>The Coupon collection, keyed by the unique, upper-case \<^verbatim>\<open>code\<close>.\<close>

type_synonym coupon_store = "string \<rightharpoonup> coupon_doc"

section \<open>The webhook ledger (models/webhookEvent.model.js)\<close>

record webhook_event =
  we_provider :: string
  we_eventId :: string
  we_type :: string
  we_orderId :: "string option"
  we_receivedAt :: nat
  we_lastSeenAt :: "nat option"
  we_attempts :: nat
  we_processedAt :: "nat option"
  we_lastError :: "string option"

text \<open>The unique index on \<^verbatim>\<open>(provider, eventId)\<close> makes the collection a map on that key.\<close>

type_synonym event_store = "string \<times> string \<rightharpoonup> webhook_event"

record db =
  orders :: order_store
  webhookEvents :: event_store
  products :: product_store
  coupons :: coupon_store

text \<open>
  The store can reject an operation. Each field names one awaited store call of
  \<^verbatim>\<open>webhook.controller.js\<close> and holds the message of the error it rejects with, if it does.
\<close>

record db_faults =
  findOrder_rejects :: "string option"
  saveOrder_rejects :: "string option"
  upsertEvent_rejects :: "string option"
  setLastError_rejects :: "string option"
  setProcessed_rejects :: "string option"

definition no_faults :: db_faults where
  "no_faults = \<lparr>findOrder_rejects = None, saveOrder_rejects = None, upsertEvent_rejects = None,
     setLastError_rejects = None, setProcessed_rejects = None\<rparr>"

section \<open>Payment provider events\<close>

text \<open>
  \<^verbatim>\<open>event.data.object\<close>: a payment intent or a charge. The handlers read it by property
  name only, so one record carries every property any of them reads;
  \<open>charges_data0\<close> is \<^verbatim>\<open>charges?.data?.[0]\<close>.
\<close>

record charge_ref =
  ch_id :: "string option"
  ch_receipt_url :: "string option"

record stripe_object =
  obj_id :: "string option"
  metadata_orderId :: "string option"
  amount_received :: "nat option"
  currency :: "string option"
  charges_data0 :: "charge_ref option"
  payment_method_types0 :: "string option"
  last_payment_error_message :: "string option"
  payment_intent :: "string option"
  amount_refunded :: "nat option"
  refunds_data0_reason :: "string option"

record stripe_event =
  ev_id :: "string option"
  ev_type :: "string option"
  ev_data_object :: stripe_object

section \<open>controllers/webhook.controller.js\<close>

definition findById :: "db_faults \<Rightarrow> string \<Rightarrow> order_store \<Rightarrow> string + order option" where
  "findById flt orderId os =
     (case findOrder_rejects flt of Some e \<Rightarrow> Inl e | None \<Rightarrow> Inr (map_of os orderId))"

definition save :: "db_faults \<Rightarrow> string \<Rightarrow> order \<Rightarrow> order_store \<Rightarrow> string + order_store" where
  "save flt orderId ord os =
     (case saveOrder_rejects flt of Some e \<Rightarrow> Inl e | None \<Rightarrow> Inr (AList.update orderId ord os))"

definition amount_checked :: "order \<Rightarrow> stripe_object \<Rightarrow> bool" where
  "amount_checked ord paymentIntent =
     (case p_amount (payment ord) of None \<Rightarrow> False
      | Some expectedAmount \<Rightarrow> expectedAmount > 0 \<and> amount_received paymentIntent \<noteq> None)"

definition currency_checked :: "order \<Rightarrow> stripe_object \<Rightarrow> bool" where
  "currency_checked ord paymentIntent =
     (truthy (p_currency (payment ord)) \<and> truthy (currency paymentIntent))"

text \<open>
  The two guards of \<^verbatim>\<open>markOrderPaid\<close>: a comparison is made only when its
  precondition holds, and the order fails it when the compared values differ.
\<close>

definition amount_mismatch :: "order \<Rightarrow> stripe_object \<Rightarrow> bool" where
  "amount_mismatch ord paymentIntent =
     (amount_checked ord paymentIntent
      \<and> amount_received paymentIntent \<noteq> p_amount (payment ord))"

definition currency_mismatch :: "order \<Rightarrow> stripe_object \<Rightarrow> bool" where
  "currency_mismatch ord paymentIntent =
     (currency_checked ord paymentIntent
      \<and> map_option toLowerCase (currency paymentIntent)
          \<noteq> map_option toLowerCase (p_currency (payment ord)))"

definition payment_failed :: "string \<Rightarrow> order \<Rightarrow> order" where
  "payment_failed reason ord =
     ord\<lparr>payment := (payment ord)\<lparr>p_status := Some PaymentFailed, p_failureReason := Some reason\<rparr>\<rparr>"

definition order_paid :: "nat \<Rightarrow> stripe_object \<Rightarrow> order \<Rightarrow> order" where
  "order_paid now paymentIntent ord =
     (let charge_id = (case charges_data0 paymentIntent of None \<Rightarrow> None | Some c \<Rightarrow> ch_id c);
          receipt = (case charges_data0 paymentIntent of None \<Rightarrow> None | Some c \<Rightarrow> ch_receipt_url c)
      in ord\<lparr>payment := (payment ord)\<lparr>
               p_status := Some PaymentPaid,
               p_intentId := obj_id paymentIntent,
               p_transactionId := js_or charge_id (obj_id paymentIntent),
               p_currency := currency paymentIntent,
               p_amount := amount_received paymentIntent,
               p_method := js_or (payment_method_types0 paymentIntent)
                                 (js_or (p_method (payment ord)) (Some ''card'')),
               p_receiptUrl := js_or receipt (p_receiptUrl (payment ord)),
               p_failureReason := None\<rparr>,
             isPaid := True,
             paidAt := Some now,
             status := (if status ord = Pending then Confirmed else status ord)\<rparr>)"

definition markOrderPaid ::
  "db_faults \<Rightarrow> nat \<Rightarrow> stripe_object \<Rightarrow> order_store \<Rightarrow> string + order_store" where
  "markOrderPaid flt now paymentIntent os =
     (case metadata_orderId paymentIntent of
        None \<Rightarrow> Inr os
      | Some orderId \<Rightarrow>
          if orderId = [] then Inr os
          else case findById flt orderId os of
            Inl e \<Rightarrow> Inl e
          | Inr None \<Rightarrow> Inr os
          | Inr (Some ord) \<Rightarrow>
              if status ord = Cancelled \<or> status ord = Refunded then Inr os
              else if isPaid ord \<or> p_status (payment ord) = Some PaymentPaid then Inr os
              else if amount_mismatch ord paymentIntent
                then save flt orderId (payment_failed ''Payment amount mismatch'' ord) os
              else if currency_mismatch ord paymentIntent
                then save flt orderId (payment_failed ''Payment currency mismatch'' ord) os
              else save flt orderId (order_paid now paymentIntent ord) os)"

text \<open>
  The guard of \<^verbatim>\<open>markOrderFailed\<close> (a late failure for a settled or refunded order is
  ignored) and the order it saves otherwise.
\<close>

definition ignores_failure :: "order \<Rightarrow> bool" where
  "ignores_failure ord =
     (isPaid ord \<or> p_status (payment ord) = Some PaymentPaid
      \<or> p_status (payment ord) = Some PaymentRefunded \<or> status ord = Refunded)"

definition failure_recorded :: "stripe_object \<Rightarrow> order \<Rightarrow> order" where
  "failure_recorded paymentIntent ord =
     ord\<lparr>payment := (payment ord)\<lparr>
           p_status := Some PaymentFailed,
           p_intentId := obj_id paymentIntent,
           p_failureReason :=
             js_or (last_payment_error_message paymentIntent) (Some ''Payment failed'')\<rparr>,
         isPaid := False\<rparr>"

definition markOrderFailed ::
  "db_faults \<Rightarrow> stripe_object \<Rightarrow> order_store \<Rightarrow> string + order_store" where
  "markOrderFailed flt paymentIntent os =
     (case metadata_orderId paymentIntent of
        None \<Rightarrow> Inr os
      | Some orderId \<Rightarrow>
          if orderId = [] then Inr os
          else case findById flt orderId os of
            Inl e \<Rightarrow> Inl e
          | Inr None \<Rightarrow> Inr os
          | Inr (Some ord) \<Rightarrow>
              if ignores_failure ord then Inr os
              else save flt orderId (failure_recorded paymentIntent ord) os)"

text \<open>
  \<^verbatim>\<open>Order.findOne({ 'payment.intentId': intentId })\<close>: the first order, in collection
  order, bound to the intent.
\<close>

definition findOneByIntent ::
  "db_faults \<Rightarrow> string \<Rightarrow> order_store \<Rightarrow> string + (string \<times> order) option" where
  "findOneByIntent flt intentId os =
     (case findOrder_rejects flt of
        Some e \<Rightarrow> Inl e
      | None \<Rightarrow> Inr (find (\<lambda>(k, ord). p_intentId (payment ord) = Some intentId) os))"

definition order_refunded :: "nat \<Rightarrow> stripe_object \<Rightarrow> order \<Rightarrow> order" where
  "order_refunded now charge ord =
     ord\<lparr>payment := (payment ord)\<lparr>
           p_status := Some PaymentRefunded,
           p_transactionId := js_or (obj_id charge) (p_transactionId (payment ord))\<rparr>,
         refund := (refund ord)\<lparr>
           r_amount := amount_refunded charge,
           r_reason := js_or (refunds_data0_reason charge) (r_reason (refund ord)),
           r_date := Some now\<rparr>,
         status := Refunded,
         isPaid := False\<rparr>"

definition markOrderRefunded ::
  "db_faults \<Rightarrow> nat \<Rightarrow> stripe_object \<Rightarrow> order_store \<Rightarrow> string + order_store" where
  "markOrderRefunded flt now charge os =
     (case payment_intent charge of
        None \<Rightarrow> Inr os
      | Some intentId \<Rightarrow>
          if intentId = [] then Inr os
          else case findOneByIntent flt intentId os of
            Inl e \<Rightarrow> Inl e
          | Inr None \<Rightarrow> Inr os
          | Inr (Some (orderId, ord)) \<Rightarrow>
              if p_status (payment ord) = Some PaymentRefunded \<or> status ord = Refunded then Inr os
              else save flt orderId (order_refunded now charge ord) os)"

text \<open>The \<^verbatim>\<open>switch (event.type)\<close> of \<^verbatim>\<open>handleStripeWebhook\<close>.\<close>

definition dispatch ::
  "db_faults \<Rightarrow> nat \<Rightarrow> stripe_event \<Rightarrow> order_store \<Rightarrow> string + order_store" where
  "dispatch flt now event os =
     (if ev_type event = Some ''payment_intent.succeeded''
        then markOrderPaid flt now (ev_data_object event) os
      else if ev_type event = Some ''payment_intent.payment_failed''
        then markOrderFailed flt (ev_data_object event) os
      else if ev_type event = Some ''charge.refunded''
        then markOrderRefunded flt now (ev_data_object event) os
      else Inr os)"

text \<open>
  The HTTP reply: a status code with a text body, a JSON \<^verbatim>\<open>{message}\<close> body, the
  acknowledgment \<^verbatim>\<open>{received: true}\<close>, whose flag is the \<^verbatim>\<open>duplicate\<close> property,
  \<^verbatim>\<open>{message, order}\<close>, or the created order document.
\<close>

datatype reply =
  Text string | Message string | Received bool | MessageOrder string order | Created order

record response =
  code :: nat
  body :: reply

record config =
  STRIPE_SECRET_KEY :: string
  STRIPE_WEBHOOK_SECRET :: string

record request =
  stripe_signature :: "string option"
  raw_body :: string

text \<open>
  \<^verbatim>\<open>WebhookEvent.findOneAndUpdate(..., { upsert: true, new: true })\<close>: insert with the
  schema defaults and \<^verbatim>\<open>$inc\<close> on the default \<^verbatim>\<open>attempts: 0\<close>, or update in place.
\<close>

definition upsertEvent ::
  "nat \<Rightarrow> string \<Rightarrow> string \<Rightarrow> string \<Rightarrow> string option \<Rightarrow> event_store \<Rightarrow> webhook_event" where
  "upsertEvent now provider eventId eventType orderId es =
     (case es (provider, eventId) of
        None \<Rightarrow>
          \<lparr>we_provider = provider, we_eventId = eventId, we_type = eventType,
           we_orderId = orderId, we_receivedAt = now, we_lastSeenAt = Some now,
           we_attempts = 1, we_processedAt = None, we_lastError = None\<rparr>
      | Some r \<Rightarrow>
          r\<lparr>we_type := eventType, we_orderId := orderId, we_lastSeenAt := Some now,
            we_attempts := we_attempts r + 1\<rparr>)"

text \<open>\<^verbatim>\<open>WebhookEvent.updateOne({ provider, eventId }, { $set: ... })\<close>, without upsert.\<close>

definition updateEvent ::
  "string \<times> string \<Rightarrow> (webhook_event \<Rightarrow> webhook_event) \<Rightarrow> event_store \<Rightarrow> event_store" where
  "updateEvent key f es = (case es key of None \<Rightarrow> es | Some r \<Rightarrow> es(key \<mapsto> f r))"

text \<open>\<^verbatim>\<open>String(err?.message || err || 'Handler failure')\<close> for an \<^verbatim>\<open>Error\<close> with that message.\<close>

definition error_text :: "string \<Rightarrow> string" where
  "error_text msg = (if msg \<noteq> [] then msg else ''Error'')"

text \<open>
  The locals \<^verbatim>\<open>eventType\<close> and \<^verbatim>\<open>orderId\<close> of \<^verbatim>\<open>handleStripeWebhook\<close>:
  \<^verbatim>\<open>event?.type ? String(event.type) : 'unknown'\<close> and the order reference of the
  event's metadata, \<^verbatim>\<open>undefined\<close> when it is falsy.
\<close>

definition eventType :: "stripe_event \<Rightarrow> string" where
  "eventType event =
     (case ev_type event of None \<Rightarrow> ''unknown'' | Some t \<Rightarrow> if t = [] then ''unknown'' else t)"

definition eventOrderId :: "stripe_event \<Rightarrow> string option" where
  "eventOrderId event =
     (if truthy (metadata_orderId (ev_data_object event))
      then metadata_orderId (ev_data_object event) else None)"

text \<open>
  \<^verbatim>\<open>handleStripeWebhook\<close>. The provider SDK's \<^verbatim>\<open>constructEvent\<close> is a parameter: it
  returns the verified event or throws. The result is the reply, or \<open>Inl\<close> the error
  that leaves the handler for the application's error middleware, and the store. The
  final \<^verbatim>\<open>$set\<close> of \<^verbatim>\<open>lastError: undefined\<close> is read as clearing the field.
\<close>

definition handleStripeWebhook ::
  "config \<Rightarrow> (string \<Rightarrow> string \<Rightarrow> string \<Rightarrow> string + stripe_event) \<Rightarrow> db_faults \<Rightarrow> nat
     \<Rightarrow> request \<Rightarrow> db \<Rightarrow> (string + response) \<times> db" where
  "handleStripeWebhook env constructEvent flt now req d =
     (if STRIPE_SECRET_KEY env = [] \<or> STRIPE_WEBHOOK_SECRET env = []
        then (Inr \<lparr>code = 503, body = Message ''Stripe webhook not configured''\<rparr>, d)
      else case stripe_signature req of
        None \<Rightarrow> (Inr \<lparr>code = 400, body = Text ''Missing Stripe-Signature header''\<rparr>, d)
      | Some signature \<Rightarrow>
        if signature = []
          then (Inr \<lparr>code = 400, body = Text ''Missing Stripe-Signature header''\<rparr>, d)
        else case constructEvent (raw_body req) signature (STRIPE_WEBHOOK_SECRET env) of
          Inl msg \<Rightarrow> (Inr \<lparr>code = 400, body = Text (''Webhook Error: '' @ msg)\<rparr>, d)
        | Inr event \<Rightarrow>
          let provider = ''stripe'';
              eventId = (case ev_id event of None \<Rightarrow> [] | Some i \<Rightarrow> i)
          in if eventId = []
            then (Inr \<lparr>code = 400, body = Text ''Webhook Error: Missing event id''\<rparr>, d)
          else
            case upsertEvent_rejects flt of
              Some e \<Rightarrow> (Inr \<lparr>code = 500, body = Text ''Failed to process event''\<rparr>, d)
            | None \<Rightarrow>
              let eventRecord = upsertEvent now provider eventId (eventType event)
                                  (eventOrderId event) (webhookEvents d);
                  d1 = d\<lparr>webhookEvents := (webhookEvents d)((provider, eventId) \<mapsto> eventRecord)\<rparr>
              in if we_processedAt eventRecord \<noteq> None
                then (Inr \<lparr>code = 200, body = Received True\<rparr>, d1)
              else case dispatch flt now event (orders d1) of
                Inl err \<Rightarrow>
                  (Inr \<lparr>code = 500, body = Text ''Failed to process event''\<rparr>,
                   case setLastError_rejects flt of
                     Some e \<Rightarrow> d1
                   | None \<Rightarrow> d1\<lparr>webhookEvents := updateEvent (provider, eventId)
                       (\<lambda>r. r\<lparr>we_lastError := Some (error_text err)\<rparr>) (webhookEvents d1)\<rparr>)
              | Inr os \<Rightarrow>
                  (case setProcessed_rejects flt of
                     Some e \<Rightarrow> (Inl e, d1\<lparr>orders := os\<rparr>)
                   | None \<Rightarrow>
                       (Inr \<lparr>code = 200, body = Received False\<rparr>,
                        d1\<lparr>orders := os,
                           webhookEvents := updateEvent (provider, eventId)
                             (\<lambda>r. r\<lparr>we_processedAt := Some now, we_lastError := None\<rparr>)
                             (webhookEvents d1)\<rparr>)))"

section \<open>controllers/admin.controller.js\<close>

text \<open>
  The body of \<^verbatim>\<open>PUT /admin/orders/:id/status\<close>. The route validator admits exactly the
  eight order statuses for \<^verbatim>\<open>status\<close>.
\<close>

record status_update =
  su_status :: order_status
  su_shippingStatus :: "string option"
  su_trackingNumber :: "string option"
  su_courier :: "string option"

definition updateOrderStatus ::
  "db_faults \<Rightarrow> nat \<Rightarrow> string \<Rightarrow> status_update \<Rightarrow> order_store
     \<Rightarrow> (string + response) \<times> order_store" where
  "updateOrderStatus flt now orderId upd os =
     (case findById flt orderId os of
        Inl e \<Rightarrow> (Inl e, os)
      | Inr None \<Rightarrow> (Inr \<lparr>code = 404, body = Message ''Order not found''\<rparr>, os)
      | Inr (Some ord) \<Rightarrow>
          let sh0 = shipping ord;
              sh1 = (case su_shippingStatus upd of None \<Rightarrow> sh0 | Some v \<Rightarrow> sh0\<lparr>s_status := Some v\<rparr>);
              sh2 = (case su_trackingNumber upd of None \<Rightarrow> sh1
                     | Some v \<Rightarrow> sh1\<lparr>s_trackingNumber := Some v\<rparr>);
              sh3 = (case su_courier upd of None \<Rightarrow> sh2 | Some v \<Rightarrow> sh2\<lparr>s_courier := Some v\<rparr>);
              ord1 = ord\<lparr>status := su_status upd, shipping := sh3\<rparr>;
              ord2 = (if su_status upd = Delivered
                      then ord1\<lparr>isDelivered := True,
                                deliveredAt := (case deliveredAt ord of None \<Rightarrow> Some now
                                                | Some t \<Rightarrow> Some t)\<rparr>
                      else ord1)
          in case save flt orderId ord2 os of
               Inl e \<Rightarrow> (Inl e, os)
             | Inr os' \<Rightarrow> (Inr \<lparr>code = 200, body = MessageOrder ''Order updated'' ord2\<rparr>, os'))"

section \<open>utils/shipping.utils.js\<close>

record rate =
  rate_price :: number
  rate_days :: string

record region_rates =
  standard :: rate
  express :: rate
  free_threshold :: "number option"

definition SHIPPING_RATES :: "string \<rightharpoonup> region_rates" where
  "SHIPPING_RATES = map_of
     [(''UG'', \<lparr>standard = \<lparr>rate_price = Finite 5, rate_days = ''3-5''\<rparr>,
               express = \<lparr>rate_price = Finite 12, rate_days = ''1-2''\<rparr>,
               free_threshold = Some (Finite 50)\<rparr>),
      (''KE'', \<lparr>standard = \<lparr>rate_price = Finite 15, rate_days = ''5-7''\<rparr>,
               express = \<lparr>rate_price = Finite 30, rate_days = ''2-3''\<rparr>, free_threshold = None\<rparr>),
      (''TZ'', \<lparr>standard = \<lparr>rate_price = Finite 15, rate_days = ''5-7''\<rparr>,
               express = \<lparr>rate_price = Finite 30, rate_days = ''2-3''\<rparr>, free_threshold = None\<rparr>),
      (''RW'', \<lparr>standard = \<lparr>rate_price = Finite 12, rate_days = ''4-6''\<rparr>,
               express = \<lparr>rate_price = Finite 25, rate_days = ''2-3''\<rparr>, free_threshold = None\<rparr>),
      (''SS'', \<lparr>standard = \<lparr>rate_price = Finite 18, rate_days = ''7-10''\<rparr>,
               express = \<lparr>rate_price = Finite 35, rate_days = ''3-4''\<rparr>, free_threshold = None\<rparr>),
      (''AFRICA'', \<lparr>standard = \<lparr>rate_price = Finite 25, rate_days = ''10-14''\<rparr>,
               express = \<lparr>rate_price = Finite 50, rate_days = ''5-7''\<rparr>, free_threshold = None\<rparr>),
      (''EU'', \<lparr>standard = \<lparr>rate_price = Finite 35, rate_days = ''14-21''\<rparr>,
               express = \<lparr>rate_price = Finite 70, rate_days = ''7-10''\<rparr>, free_threshold = None\<rparr>),
      (''US'', \<lparr>standard = \<lparr>rate_price = Finite 40, rate_days = ''14-21''\<rparr>,
               express = \<lparr>rate_price = Finite 80, rate_days = ''7-10''\<rparr>, free_threshold = None\<rparr>),
      (''DEFAULT'', \<lparr>standard = \<lparr>rate_price = Finite 45, rate_days = ''21-30''\<rparr>,
               express = \<lparr>rate_price = Finite 90, rate_days = ''10-14''\<rparr>, free_threshold = None\<rparr>)]"

definition AFRICAN_COUNTRIES :: "string list" where
  "AFRICAN_COUNTRIES =
     [''DZ'', ''AO'', ''BJ'', ''BW'', ''BF'', ''BI'', ''CV'', ''CM'', ''CF'', ''TD'', ''KM'', ''CG'', ''CD'',
      ''DJ'', ''EG'', ''GQ'', ''ER'', ''SZ'', ''ET'', ''GA'', ''GM'', ''GH'', ''GN'', ''GW'', ''CI'', ''LS'',
      ''LR'', ''LY'', ''MG'', ''MW'', ''ML'', ''MR'', ''MU'', ''MA'', ''MZ'', ''NA'', ''NE'', ''NG'', ''RE'',
      ''SC'', ''SL'', ''SO'', ''ZA'', ''SD'', ''TG'', ''TN'', ''UG'', ''ZM'', ''ZW'', ''KE'', ''TZ'', ''RW'', ''SS'']"

definition EU_COUNTRIES :: "string list" where
  "EU_COUNTRIES =
     [''AT'', ''BE'', ''BG'', ''HR'', ''CY'', ''CZ'', ''DK'', ''EE'', ''FI'', ''FR'', ''DE'', ''GR'', ''HU'',
      ''IE'', ''IT'', ''LV'', ''LT'', ''LU'', ''MT'', ''NL'', ''PL'', ''PT'', ''RO'', ''SK'', ''SI'', ''ES'', ''SE'']"

text \<open>The tax rates are the Numbers that the literals \<^verbatim>\<open>0.18\<close> and \<^verbatim>\<open>0.16\<close> denote.\<close>

definition TAX_RATES :: "string \<rightharpoonup> number" where
  "TAX_RATES = map_of
     [(''UG'', Number_value (18 / 100)), (''KE'', Number_value (16 / 100)),
      (''TZ'', Number_value (18 / 100)), (''RW'', Number_value (18 / 100)),
      (''DEFAULT'', Finite 0)]"

definition getShippingRegion :: "string \<Rightarrow> string" where
  "getShippingRegion countryCode =
     (let code = toUpperCase countryCode
      in if SHIPPING_RATES code \<noteq> None then code
         else if code \<in> set EU_COUNTRIES then ''EU''
         else if code = ''US'' \<or> code = ''CA'' then ''US''
         else if code \<in> set AFRICAN_COUNTRIES then ''AFRICA''
         else ''DEFAULT'')"

record shipping_calc =
  cost :: number
  sc_method :: ship_method
  estimatedDays :: string
  isFree :: bool

definition default_rates :: region_rates where
  "default_rates = \<lparr>standard = \<lparr>rate_price = Finite 45, rate_days = ''21-30''\<rparr>,
     express = \<lparr>rate_price = Finite 90, rate_days = ''10-14''\<rparr>, free_threshold = None\<rparr>"

definition calculateShipping ::
  "string \<Rightarrow> number \<Rightarrow> ship_method \<Rightarrow> number \<Rightarrow> number \<Rightarrow> shipping_calc" where
  "calculateShipping countryCode orderTotal method itemCount totalWeight =
     (let region = getShippingRegion countryCode;
          rates = (case SHIPPING_RATES region of Some r \<Rightarrow> r | None \<Rightarrow> default_rates);
          shippingMethod = (if method = Express then express rates else standard rates)
      in if region = ''UG''
            \<and> (case free_threshold rates of None \<Rightarrow> False
                | Some t \<Rightarrow> truthy_number t \<and> js_le t orderTotal)
            \<and> method = Standard
         then \<lparr>cost = Finite 0, sc_method = Standard, estimatedDays = rate_days shippingMethod,
               isFree = True\<rparr>
         else
           let cost0 = rate_price shippingMethod;
               cost1 = (if js_lt (Finite 5) totalWeight
                        then js_add cost0 (js_mul (js_sub totalWeight (Finite 5)) (Finite 2))
                        else cost0);
               cost2 = (if js_lt (Finite 10) itemCount
                        then js_add cost1 (js_mul (js_sub itemCount (Finite 10)) (Finite (1 / 2)))
                        else cost1)
           in \<lparr>cost = toFixed2 cost2, sc_method = method,
                estimatedDays = rate_days shippingMethod, isFree = False\<rparr>)"

record tax_calc =
  tax_rate :: number
  amount :: number

definition calculateTax :: "string \<Rightarrow> number \<Rightarrow> tax_calc" where
  "calculateTax countryCode subtotal =
     (let code = toUpperCase countryCode;
          r = (case TAX_RATES code of Some v \<Rightarrow> v | None \<Rightarrow> Finite 0)
      in \<lparr>tax_rate = r, amount = toFixed2 (js_mul subtotal r)\<rparr>)"

text \<open>
  \<^verbatim>\<open>calculateOrderTotals\<close>, the utility that clamps the coupon discount to the items
  subtotal. An item is the pair of \<^verbatim>\<open>Number(item.price)\<close> and \<^verbatim>\<open>Number(item.qty)\<close>; the
  two \<^verbatim>\<open>reduce\<close> calls add from the left, starting at 0.
\<close>

record order_totals =
  ot_itemsPrice :: number
  ot_shippingPrice :: number
  ot_taxPrice :: number
  ot_discount :: number
  ot_totalPrice :: number
  ot_itemCount :: number

definition calculateOrderTotals ::
  "(number \<times> number) list \<Rightarrow> string \<Rightarrow> ship_method \<Rightarrow> number \<Rightarrow> order_totals" where
  "calculateOrderTotals items countryCode shippingMethod couponDiscount =
     (let itemsPrice = foldl (\<lambda>sum (price, q).
              js_add sum (js_mul (js_or_number price (Finite 0)) (js_or_number q (Finite 1))))
            (Finite 0) items;
          itemCount = foldl (\<lambda>sum (price, q). js_add sum (js_or_number q (Finite 1)))
            (Finite 0) items;
          shipping = calculateShipping countryCode itemsPrice shippingMethod itemCount (Finite 0);
          tax = calculateTax countryCode itemsPrice;
          discount = Math_min couponDiscount itemsPrice;
          totalPrice = js_sub (js_add (js_add itemsPrice (cost shipping)) (amount tax)) discount
      in \<lparr>ot_itemsPrice = toFixed2 itemsPrice, ot_shippingPrice = cost shipping,
           ot_taxPrice = amount tax, ot_discount = toFixed2 discount,
           ot_totalPrice = toFixed2 totalPrice, ot_itemCount = itemCount\<rparr>)"

section \<open>Coupon methods (models/coupon.model.js) and \<^verbatim>\<open>applyCouponToOrder\<close>\<close>

definition isValid :: "nat \<Rightarrow> coupon_doc \<Rightarrow> bool" where
  "isValid now c =
     (isActive c \<and> validFrom c \<le> now \<and> now \<le> validUntil c
      \<and> (case usageLimit c of None \<Rightarrow> True | Some l \<Rightarrow> usedCount c < l))"

definition calculateDiscount :: "nat \<Rightarrow> coupon_doc \<Rightarrow> number \<Rightarrow> number" where
  "calculateDiscount now c orderTotal =
     (if \<not> isValid now c then Finite 0
      else if js_lt orderTotal (minOrderAmount c) then Finite 0
      else toFixed2
        (case discountType c of
           Percentage \<Rightarrow>
             (let discount = js_div (js_mul orderTotal (discountValue c)) (Finite 100)
              in case maxDiscountAmount c of
                   None \<Rightarrow> discount
                 | Some m \<Rightarrow> if truthy_number m \<and> js_lt m discount then m else discount)
         | Fixed \<Rightarrow> Math_min (discountValue c) orderTotal))"

definition canBeUsedBy :: "nat \<Rightarrow> coupon_doc \<Rightarrow> string \<Rightarrow> bool \<Rightarrow> bool" where
  "canBeUsedBy now c userId isFirstOrder =
     (if \<not> isValid now c then False
      else if firstOrderOnly c \<and> \<not> isFirstOrder then False
      else if allowedUsers c \<noteq> [] \<and> userId \<notin> set (allowedUsers c) then False
      else if length (filter (\<lambda>u. cu_user u = userId) (usedBy c)) \<ge> usageLimitPerUser c then False
      else True)"

definition findValidByCode :: "nat \<Rightarrow> string \<Rightarrow> coupon_store \<Rightarrow> coupon_doc option" where
  "findValidByCode now couponCode cs =
     (case cs (toUpperCase couponCode) of
        None \<Rightarrow> None
      | Some c \<Rightarrow>
          if isActive c \<and> validFrom c \<le> now \<and> now \<le> validUntil c
             \<and> (case usageLimit c of None \<Rightarrow> True | Some l \<Rightarrow> usedCount c < l)
          then Some c else None)"

record coupon_result =
  discount :: number
  applied :: bool
  couponId :: "string option"

definition applyCouponToOrder ::
  "nat \<Rightarrow> string option \<Rightarrow> string \<Rightarrow> string option \<Rightarrow> number \<Rightarrow> db \<Rightarrow> coupon_result \<times> db" where
  "applyCouponToOrder now couponCode userId orderId orderTotal d =
     (let not_applied = \<lparr>discount = Finite 0, applied = False, couponId = None\<rparr>
      in case couponCode of
        None \<Rightarrow> (not_applied, d)
      | Some cc \<Rightarrow>
          if cc = [] then (not_applied, d)
          else case findValidByCode now cc (coupons d) of
            None \<Rightarrow> (not_applied, d)
          | Some c \<Rightarrow>
              let orderCount = length (filter (\<lambda>(k, ord). user ord = userId \<and> Some k \<noteq> orderId)
                                        (orders d));
                  isFirstOrder = (orderCount = 0)
              in if \<not> canBeUsedBy now c userId isFirstOrder then (not_applied, d)
                 else
                   let dsc = calculateDiscount now c orderTotal;
                       c' = c\<lparr>usedBy := usedBy c @ [\<lparr>cu_user = userId, cu_order = orderId,
                                                       cu_discountApplied = dsc\<rparr>],
                              usedCount := usedCount c + 1\<rparr>
                   in (\<lparr>discount = dsc, applied = True, couponId = Some (c_id c)\<rparr>,
                       d\<lparr>coupons := (coupons d)(toUpperCase cc \<mapsto> c')\<rparr>))"

section \<open>Order placement (\<^verbatim>\<open>addOrderItems\<close>, controllers/order.controller.js)\<close>

text \<open>
  A request item as the client sends it, and the \<^verbatim>\<open>{ productId, qty }\<close> pairs that
  \<^verbatim>\<open>normalizeOrderItems\<close> keeps. The route validator admits whole quantities only.
\<close>

record raw_item =
  ri_productId :: "string option"
  ri_product :: "string option"
  ri_qty :: "int option"
  ri_quantity :: "int option"

record norm_item =
  productId :: string
  qty :: int

definition normalize_item :: "raw_item \<Rightarrow> norm_item option" where
  "normalize_item it =
     (let q = (case ri_qty it of Some v \<Rightarrow> v
               | None \<Rightarrow> (case ri_quantity it of Some v \<Rightarrow> v | None \<Rightarrow> 0))
      in case js_or (ri_productId it) (ri_product it) of
           None \<Rightarrow> None
         | Some pid \<Rightarrow> if pid \<noteq> [] \<and> q > 0 then Some \<lparr>productId = pid, qty = q\<rparr> else None)"

definition normalizeOrderItems :: "raw_item list \<Rightarrow> norm_item list" where
  "normalizeOrderItems items = List.map_filter normalize_item items"

text \<open>
  The request body and the authenticated user. \<open>req_shippingAddress\<close> holds the request's
  \<^verbatim>\<open>address\<close> in \<open>line1\<close>.
\<close>

record order_request =
  req_user_id :: string
  req_orderItems :: "raw_item list"
  req_shippingAddress :: address_doc
  req_paymentMethod :: "string option"
  req_shippingMethod :: "ship_method option"
  req_couponCode :: "string option"

text \<open>
  What the request finds around it: the clock, the id the store gives the new order,
  the error with which the store rejects \<^verbatim>\<open>order.save()\<close> (if it does), and
  \<open>objectIdString\<close>, the string form (\<^verbatim>\<open>_id.toString()\<close>) of the ObjectId to which the
  driver casts a product reference of the request.
\<close>

record order_env =
  clock :: nat
  newOrderId :: string
  orderSave_rejects :: "string option"
  objectIdString :: "string \<Rightarrow> string"

text \<open>
  The errors thrown during order placement: the three the controller raises itself, and
  a rejection by the store or the schema validator, whose message is none of the
  controller's.
\<close>

datatype thrown = No_order_items | Insufficient_stock | Products_unavailable | Rejected string

text \<open>
  \<^verbatim>\<open>Product.updateOne({ _id, enabled: true, isDeleted: { $ne: true }, countInStock: { $gte: qty } },
  { $inc: { countInStock: -qty } })\<close>: \<open>None\<close> when no document was modified.
\<close>

definition decrementStock :: "order_env \<Rightarrow> norm_item \<Rightarrow> product_store \<Rightarrow> product_store option" where
  "decrementStock env it ps =
     (let k = objectIdString env (productId it)
      in case ps k of
           None \<Rightarrow> None
         | Some p \<Rightarrow>
             if enabled p \<and> \<not> isDeleted p \<and> countInStock p \<ge> qty it
             then Some (ps(k \<mapsto> p\<lparr>countInStock := countInStock p - qty it\<rparr>))
             else None)"

text \<open>\<^verbatim>\<open>Product.updateOne({ _id: d.productId }, { $inc: { countInStock: d.qty } })\<close>.\<close>

definition incrementStock :: "order_env \<Rightarrow> norm_item \<Rightarrow> product_store \<Rightarrow> product_store" where
  "incrementStock env d ps =
     (let k = objectIdString env (productId d)
      in case ps k of
           None \<Rightarrow> ps
         | Some p \<Rightarrow> ps(k \<mapsto> p\<lparr>countInStock := countInStock p + qty d\<rparr>))"

text \<open>
  The decrement loop of the transactional path: \<open>None\<close> is the throw of
  \<^verbatim>\<open>'Insufficient stock for one or more items'\<close>.
\<close>

fun reserve_transaction :: "order_env \<Rightarrow> norm_item list \<Rightarrow> product_store \<Rightarrow> product_store option" where
  "reserve_transaction env [] ps = Some ps"
| "reserve_transaction env (it # its) ps =
     (case decrementStock env it ps of
        None \<Rightarrow> None
      | Some ps' \<Rightarrow> reserve_transaction env its ps')"

text \<open>
  The decrement loop of the fallback path, which records every decrement made in
  \<^verbatim>\<open>decremented\<close>; the flag is false when an item could not be reserved.
\<close>

fun reserve_fallback ::
  "order_env \<Rightarrow> norm_item list \<Rightarrow> product_store \<Rightarrow> norm_item list
     \<Rightarrow> bool \<times> product_store \<times> norm_item list" where
  "reserve_fallback env [] ps decremented = (True, ps, decremented)"
| "reserve_fallback env (it # its) ps decremented =
     (case decrementStock env it ps of
        None \<Rightarrow> (False, ps, decremented)
      | Some ps' \<Rightarrow> reserve_fallback env its ps' (decremented @ [it]))"

text \<open>The compensating rollback: one increment for each entry of \<^verbatim>\<open>decremented\<close>.\<close>

definition compensate :: "order_env \<Rightarrow> norm_item list \<Rightarrow> product_store \<Rightarrow> product_store" where
  "compensate env decremented ps = fold (incrementStock env) decremented ps"

text \<open>
  \<^verbatim>\<open>byId\<close>: the products found for the requested ids, keyed by \<^verbatim>\<open>p._id.toString()\<close>.
\<close>

definition byId :: "order_env \<Rightarrow> norm_item list \<Rightarrow> product_store \<Rightarrow> product_store" where
  "byId env normalized ps =
     (\<lambda>k. if k \<in> set (map (\<lambda>it. objectIdString env (productId it)) normalized) then ps k else None)"

text \<open>
  The snapshot loop; \<open>None\<close> is the throw of \<^verbatim>\<open>'One or more products are unavailable'\<close>.
  The unit price is \<^verbatim>\<open>Number(product.price) || 0\<close>.
\<close>

fun computeItems :: "product_store \<Rightarrow> norm_item list \<Rightarrow> order_item list option" where
  "computeItems byid [] = Some []"
| "computeItems byid (it # its) =
     (case byid (productId it) of
        None \<Rightarrow> None
      | Some p \<Rightarrow>
          (case computeItems byid its of
             None \<Rightarrow> None
           | Some cs \<Rightarrow>
               Some (\<lparr>oi_product = productId it, oi_sku = prod_sku p, oi_name = prod_name p,
                      oi_qty = qty it,
                      oi_image = (case prod_images p of [] \<Rightarrow> None | i # _ \<Rightarrow> Some i),
                      oi_price = js_or_number (prod_price p) (Finite 0)\<rparr> # cs)))"

text \<open>
  From the computed items to the \<^verbatim>\<open>new Order({...})\<close> document: items price
  (\<^verbatim>\<open>itemsPrice += unitPrice * it.qty\<close>, from 0, in item order), item count, shipping, tax,
  coupon and total. The two paths of the controller carry the same text here. The
  coupon is applied as the source applies it, with \<^verbatim>\<open>null\<close> for the order id.
\<close>

definition buildOrder :: "order_env \<Rightarrow> order_request \<Rightarrow> order_item list \<Rightarrow> db \<Rightarrow> order \<times> db" where
  "buildOrder env req computedItems d =
     (let items_price = foldl (\<lambda>sum c. js_add sum (js_mul (oi_price c) (Number_of_int (oi_qty c))))
                           (Finite 0) computedItems;
          shippingMethod = (case req_shippingMethod req of None \<Rightarrow> Standard | Some m \<Rightarrow> m);
          countryCode = (case country (req_shippingAddress req) of
                           None \<Rightarrow> ''UG'' | Some c \<Rightarrow> if c = [] then ''UG'' else c);
          shippingCalc = calculateShipping countryCode items_price shippingMethod
                           (foldl (\<lambda>sum c. js_add sum (Number_of_int (oi_qty c))) (Finite 0)
                              computedItems)
                           (Finite 0);
          taxCalc = calculateTax countryCode items_price;
          (couponResult, d') =
             (if truthy (req_couponCode req)
              then applyCouponToOrder (clock env) (req_couponCode req) (req_user_id req) None
                     items_price d
              else (\<lparr>discount = Finite 0, applied = False, couponId = None\<rparr>, d));
          discount_amount = (if applied couponResult then discount couponResult else Finite 0);
          appliedCoupon = (if applied couponResult then couponId couponResult else None)
      in (\<lparr>user = req_user_id req,
           orderItems = computedItems,
           status = Pending,
           itemsPrice = items_price,
           shippingPrice = cost shippingCalc,
           taxPrice = amount taxCalc,
           discountAmount = discount_amount,
           coupon = appliedCoupon,
           totalPrice = toFixed2 (js_sub (js_add (js_add items_price (cost shippingCalc))
                                                 (amount taxCalc)) discount_amount),
           payment = \<lparr>p_method = js_or (req_paymentMethod req) (Some ''card''),
                      p_status = Some PaymentPending, p_transactionId = None, p_intentId = None,
                      p_amount = None, p_currency = Some ''usd'', p_receiptUrl = None,
                      p_failureReason = None\<rparr>,
           shipping = \<lparr>s_address = req_shippingAddress req, s_method = shippingMethod,
                       s_estimatedDays = Some (estimatedDays shippingCalc), s_courier = None,
                       s_trackingNumber = None, s_status = Some ''pending''\<rparr>,
           refund = \<lparr>r_amount = None, r_reason = None, r_date = None\<rparr>,
           isPaid = False, paidAt = None, isDelivered = False, deliveredAt = None\<rparr>, d'))"

text \<open>
  The validators of \<^verbatim>\<open>orderSchema\<close> that a new order can fail: \<^verbatim>\<open>required\<close> and
  \<^verbatim>\<open>min\<close> on the item and pricing paths, and the \<^verbatim>\<open>enum\<close> of the shipping method.
  \<^verbatim>\<open>min: 0\<close> admits a Number \<open>v\<close> with \<^verbatim>\<open>v >= 0\<close>; \<^verbatim>\<open>NaN\<close> is not admitted.
\<close>

definition order_valid :: "order \<Rightarrow> bool" where
  "order_valid ord =
     (list_all (\<lambda>it. truthy (oi_name it) \<and> oi_qty it \<ge> 1 \<and> js_le (Finite 0) (oi_price it))
        (orderItems ord)
      \<and> js_le (Finite 0) (itemsPrice ord) \<and> js_le (Finite 0) (shippingPrice ord)
      \<and> js_le (Finite 0) (taxPrice ord) \<and> js_le (Finite 0) (discountAmount ord)
      \<and> js_le (Finite 0) (totalPrice ord)
      \<and> s_method (shipping ord) \<noteq> Unlisted)"

text \<open>\<^verbatim>\<open>order.save()\<close> of a new document.\<close>

definition saveNewOrder :: "order_env \<Rightarrow> order \<Rightarrow> order_store \<Rightarrow> thrown + order_store" where
  "saveNewOrder env ord os =
     (if \<not> order_valid ord then Inl (Rejected ''Order validation failed'')
      else case orderSave_rejects env of
             Some m \<Rightarrow> Inl (Rejected m)
           | None \<Rightarrow> Inr (os @ [(newOrderId env, ord)]))"

text \<open>
  The result of the request: the reply, or \<open>Inl\<close> the status code set on the response
  when the error leaves the handler (200 when none was set) together with the error.
\<close>

type_synonym order_result = "(nat \<times> thrown + response) \<times> db"

text \<open>
  The transactional path. Writes made through the session (the stock decrements and
  the new order) are discarded by \<^verbatim>\<open>abortTransaction\<close>; \<^verbatim>\<open>coupon.save()\<close> inside
  \<^verbatim>\<open>applyCouponToOrder\<close> is not given the session, so it is kept. The \<^verbatim>\<open>catch\<close> block
  chooses the status code from the error.
\<close>

definition transaction_body :: "order_env \<Rightarrow> order_request \<Rightarrow> norm_item list \<Rightarrow> db \<Rightarrow> thrown \<times> db + order \<times> db" where
  "transaction_body env req normalized d =
     (case reserve_transaction env normalized (products d) of
        None \<Rightarrow> Inl (Insufficient_stock, d)
      | Some ps \<Rightarrow>
          let d1 = d\<lparr>products := ps\<rparr>
          in case computeItems (byId env normalized (products d1)) normalized of
               None \<Rightarrow> Inl (Products_unavailable, d1)
             | Some computedItems \<Rightarrow>
                 (case buildOrder env req computedItems d1 of
                    (ord, d2) \<Rightarrow>
                      (case saveNewOrder env ord (orders d2) of
                         Inl err \<Rightarrow> Inl (err, d2)
                       | Inr os \<Rightarrow> Inr (ord, d2\<lparr>orders := os\<rparr>))))"

definition addOrderItems_transaction :: "order_env \<Rightarrow> order_request \<Rightarrow> norm_item list \<Rightarrow> db \<Rightarrow> order_result" where
  "addOrderItems_transaction env req normalized d =
     (case transaction_body env req normalized d of
        Inr (createdOrder, d') \<Rightarrow> (Inr \<lparr>code = 201, body = Created createdOrder\<rparr>, d')
      | Inl (err, d') \<Rightarrow>
          (Inl ((case err of Insufficient_stock \<Rightarrow> 409 | Products_unavailable \<Rightarrow> 400 | _ \<Rightarrow> 200),
                err),
           d\<lparr>coupons := coupons d'\<rparr>))"

text \<open>
  The fallback path: the status code is set where the error is thrown, and the
  \<^verbatim>\<open>catch\<close> block compensates every recorded decrement before rethrowing.
\<close>

definition addOrderItems_fallback :: "order_env \<Rightarrow> order_request \<Rightarrow> norm_item list \<Rightarrow> db \<Rightarrow> order_result" where
  "addOrderItems_fallback env req normalized d =
     (case reserve_fallback env normalized (products d) [] of
        (False, ps, decremented) \<Rightarrow>
          (Inl (409, Insufficient_stock), d\<lparr>products := compensate env decremented ps\<rparr>)
      | (True, ps, decremented) \<Rightarrow>
          let d1 = d\<lparr>products := ps\<rparr>
          in case computeItems (byId env normalized (products d1)) normalized of
               None \<Rightarrow>
                 (Inl (400, Products_unavailable),
                  d1\<lparr>products := compensate env decremented (products d1)\<rparr>)
             | Some computedItems \<Rightarrow>
                 (case buildOrder env req computedItems d1 of
                    (ord, d2) \<Rightarrow>
                      (case saveNewOrder env ord (orders d2) of
                         Inl err \<Rightarrow>
                           (Inl (200, err),
                            d2\<lparr>products := compensate env decremented (products d2)\<rparr>)
                       | Inr os \<Rightarrow>
                           (Inr \<lparr>code = 201, body = Created ord\<rparr>, d2\<lparr>orders := os\<rparr>))))"

text \<open>\<open>useTransaction\<close> is the answer of \<^verbatim>\<open>canUseTransactions()\<close> for this request.\<close>

definition addOrderItems :: "bool \<Rightarrow> order_env \<Rightarrow> order_request \<Rightarrow> db \<Rightarrow> order_result" where
  "addOrderItems useTransaction env req d =
     (let normalized = normalizeOrderItems (req_orderItems req)
      in if normalized = [] then (Inl (400, No_order_items), d)
         else if useTransaction then addOrderItems_transaction env req normalized d
         else addOrderItems_fallback env req normalized d)"

text \<open>
  The status the application's error middleware answers with:
  \<^verbatim>\<open>res.statusCode >= 400 ? res.statusCode : 500\<close>.
\<close>

definition http_status :: "nat \<times> thrown + response \<Rightarrow> nat" where
  "http_status r = (case r of Inl (sc, err) \<Rightarrow> (if sc \<ge> 400 then sc else 500) | Inr rsp \<Rightarrow> code rsp)"

section \<open>Concurrent order placement\<close>

text \<open>
  Requests run in parallel on one store. Each awaited \<^verbatim>\<open>Product.updateOne\<close> of a request
  is one atomic step of the store (per-document atomicity), a committed transaction is
  one atomic step, and between two steps of one request any steps of other requests may
  run. An attempt is a request on the fallback or the transactional path:
  \<open>at_todo\<close> are the items its decrement loop has not reached, \<open>at_held\<close> the decrements
  it has made and not compensated (\<^verbatim>\<open>decremented\<close>), \<open>at_phase\<close> where it stands.
\<close>

datatype phase = Reserving | Compensating | Placed | Failed

record attempt =
  at_todo :: "norm_item list"
  at_held :: "norm_item list"
  at_phase :: phase

definition new_attempt :: "order_request \<Rightarrow> attempt" where
  "new_attempt req =
     \<lparr>at_todo = normalizeOrderItems (req_orderItems req), at_held = [], at_phase = Reserving\<rparr>"

text \<open>
  What the scheduler lets happen next, for the attempt with the given index:
  \<open>Decrement\<close>, one turn of the fallback decrement loop, which on a failed guard enters
  the \<^verbatim>\<open>catch\<close> block; \<open>Place\<close>, the steps after the loop succeeding (the order is
  saved), or, with \<open>False\<close>, a throw at any point of the \<^verbatim>\<open>try\<close> block; \<open>Compensate\<close>, one compensating increment, for the held entry
  with the given position (\<^verbatim>\<open>Promise.all\<close> fixes no order); \<open>Finish\<close>, the rethrow once
  nothing is held; \<open>Transaction\<close>, the whole transactional path in one step, committing
  when every decrement succeeds and the rest does not throw, aborting otherwise. An
  event that is not enabled changes nothing.
\<close>

datatype event =
  Decrement nat | Place nat bool | Compensate nat nat | Finish nat | Transaction nat bool

fun step :: "order_env \<Rightarrow> event \<Rightarrow> product_store \<times> attempt list \<Rightarrow> product_store \<times> attempt list" where
  "step env (Decrement i) (ps, ats) =
     (if i < length ats \<and> at_phase (ats ! i) = Reserving
      then (case at_todo (ats ! i) of
              [] \<Rightarrow> (ps, ats)
            | it # its \<Rightarrow>
                (case decrementStock env it ps of
                   None \<Rightarrow> (ps, ats[i := (ats ! i)\<lparr>at_phase := Compensating\<rparr>])
                 | Some ps' \<Rightarrow>
                     (ps', ats[i := (ats ! i)\<lparr>at_todo := its,
                                              at_held := at_held (ats ! i) @ [it]\<rparr>])))
      else (ps, ats))"
| "step env (Place i ok) (ps, ats) =
     (if i < length ats \<and> at_phase (ats ! i) = Reserving
         \<and> (if ok then at_todo (ats ! i) = [] else True)
      then (ps, ats[i := (ats ! i)\<lparr>at_phase := (if ok then Placed else Compensating)\<rparr>])
      else (ps, ats))"
| "step env (Compensate i j) (ps, ats) =
     (if i < length ats \<and> at_phase (ats ! i) = Compensating \<and> j < length (at_held (ats ! i))
      then (incrementStock env (at_held (ats ! i) ! j) ps,
            ats[i := (ats ! i)\<lparr>at_held := take j (at_held (ats ! i))
                                             @ drop (Suc j) (at_held (ats ! i))\<rparr>])
      else (ps, ats))"
| "step env (Finish i) (ps, ats) =
     (if i < length ats \<and> at_phase (ats ! i) = Compensating \<and> at_held (ats ! i) = []
      then (ps, ats[i := (ats ! i)\<lparr>at_phase := Failed\<rparr>])
      else (ps, ats))"
| "step env (Transaction i ok) (ps, ats) =
     (if i < length ats \<and> at_phase (ats ! i) = Reserving \<and> at_held (ats ! i) = []
      then (case reserve_transaction env (at_todo (ats ! i)) ps of
              None \<Rightarrow> (ps, ats[i := (ats ! i)\<lparr>at_phase := Failed\<rparr>])
            | Some ps' \<Rightarrow>
                if ok
                then (ps', ats[i := \<lparr>at_todo = [], at_held = at_todo (ats ! i), at_phase = Placed\<rparr>])
                else (ps, ats[i := (ats ! i)\<lparr>at_phase := Failed\<rparr>]))
      else (ps, ats))"

text \<open>A schedule is any list of events: any interleaving of the attempts.\<close>

definition run :: "order_env \<Rightarrow> event list \<Rightarrow> product_store \<times> attempt list \<Rightarrow> product_store \<times> attempt list" where
  "run env schedule s = fold (step env) schedule s"

text \<open>
  The quantity of product \<open>k\<close> in a list of decrements; what all attempts hold of it;
  what the attempts whose order was placed hold of it; and the stock counter.
\<close>

definition held_qty :: "order_env \<Rightarrow> string \<Rightarrow> norm_item list \<Rightarrow> int" where
  "held_qty env k its =
     sum_list (map qty (filter (\<lambda>it. objectIdString env (productId it) = k) its))"

definition reserved :: "order_env \<Rightarrow> string \<Rightarrow> attempt list \<Rightarrow> int" where
  "reserved env k ats = sum_list (map (\<lambda>a. held_qty env k (at_held a)) ats)"

definition placed :: "order_env \<Rightarrow> string \<Rightarrow> attempt list \<Rightarrow> int" where
  "placed env k ats =
     sum_list (map (\<lambda>a. if at_phase a = Placed then held_qty env k (at_held a) else 0) ats)"

definition stock :: "product_store \<Rightarrow> string \<Rightarrow> int option" where
  "stock ps k = map_option countInStock (ps k)"

section \<open>Vocabulary of the properties\<close>

text \<open>An order that \<^verbatim>\<open>markOrderPaid\<close> does not skip: not cancelled, not refunded, not yet paid.\<close>

definition accepts_payment :: "order \<Rightarrow> bool" where
  "accepts_payment ord =
     (status ord \<noteq> Cancelled \<and> status ord \<noteq> Refunded \<and> \<not> isPaid ord
      \<and> p_status (payment ord) \<noteq> Some PaymentPaid)"

text \<open>The order stored under an id once a webhook handler has returned.\<close>

definition order_after :: "string + order_store \<Rightarrow> string \<Rightarrow> order option" where
  "order_after r orderId = (case r of Inl e \<Rightarrow> None | Inr os \<Rightarrow> map_of os orderId)"

text \<open>
  The request passes configuration and signature checks and the provider SDK returns
  \<open>event\<close> for it.
\<close>

definition verified ::
  "config \<Rightarrow> (string \<Rightarrow> string \<Rightarrow> string \<Rightarrow> string + stripe_event) \<Rightarrow> request \<Rightarrow> stripe_event
     \<Rightarrow> bool" where
  "verified env constructEvent req event =
     (STRIPE_SECRET_KEY env \<noteq> [] \<and> STRIPE_WEBHOOK_SECRET env \<noteq> []
      \<and> (case stripe_signature req of
            None \<Rightarrow> False
          | Some sg \<Rightarrow> sg \<noteq> []
              \<and> constructEvent (raw_body req) sg (STRIPE_WEBHOOK_SECRET env) = Inr event))"

text \<open>No ledger record of the event carries \<^verbatim>\<open>processedAt\<close>.\<close>

definition unprocessed :: "event_store \<Rightarrow> string \<times> string \<Rightarrow> bool" where
  "unprocessed es key = (case es key of None \<Rightarrow> True | Some r \<Rightarrow> we_processedAt r = None)"

text \<open>The order document of a \<^verbatim>\<open>201\<close> reply.\<close>

definition created_order :: "order_result \<Rightarrow> order option" where
  "created_order r =
     (case fst r of
        Inl e \<Rightarrow> None
      | Inr rsp \<Rightarrow> (case body rsp of Created ord \<Rightarrow> Some ord | _ \<Rightarrow> None))"

text \<open>
  The total as the data model states it, computed on the persisted fields as the
  controller adds them: the sum less the discount, clamped at zero.
\<close>

definition stated_total :: "order \<Rightarrow> number" where
  "stated_total ord =
     Math_max (Finite 0)
       (js_sub (js_add (js_add (itemsPrice ord) (shippingPrice ord)) (taxPrice ord))
          (discountAmount ord))"

text \<open>
  The exact value of a finite Number; a Number that is finite and at most \<open>b\<close> in
  magnitude; and the stated total in exact arithmetic on the persisted fields.
\<close>

definition amount_of :: "number \<Rightarrow> rat" where
  "amount_of a = (case a of Finite r \<Rightarrow> r | _ \<Rightarrow> 0)"

definition amount_within :: "rat \<Rightarrow> number \<Rightarrow> bool" where
  "amount_within b a = (case a of Finite r \<Rightarrow> abs r \<le> b | _ \<Rightarrow> False)"

definition exact_total :: "order \<Rightarrow> rat" where
  "exact_total ord =
     max 0 (amount_of (itemsPrice ord) + amount_of (shippingPrice ord) + amount_of (taxPrice ord)
            - amount_of (discountAmount ord))"

text \<open>Every quantity an attempt carries is positive.\<close>

definition positive :: "attempt list \<Rightarrow> bool" where
  "positive ats = (\<forall>a \<in> set ats. \<forall>it \<in> set (at_todo a) \<union> set (at_held a). 0 < qty it)"

text \<open>
  The invariant of product \<open>k\<close> with initial stock \<open>n\<close>: the counter is not negative,
  and counter and held quantities add up to \<open>n\<close>.
\<close>

definition stock_invariant :: "order_env \<Rightarrow> string \<Rightarrow> int \<Rightarrow> product_store \<times> attempt list \<Rightarrow> bool" where
  "stock_invariant env k n s = (case s of (ps, ats) \<Rightarrow>
      positive ats \<and> (\<exists>c. stock ps k = Some c \<and> 0 \<le> c \<and> c + reserved env k ats = n))"

section \<open>Concrete inputs\<close>

definition ex_address :: "string \<Rightarrow> address_doc" where
  "ex_address c = \<lparr>line1 = Some ''123 Main'', line2 = None, city = Some ''Kampala'', state = None,
     postalCode = Some ''00000'', country = Some c\<rparr>"

text \<open>An unpaid order in a given status, with a given recorded amount and currency.\<close>

definition ex_order :: "order_status \<Rightarrow> nat option \<Rightarrow> string option \<Rightarrow> order" where
  "ex_order st amt cur =
     \<lparr>user = ''u1'', orderItems = [], status = st, itemsPrice = Finite 10,
      shippingPrice = Finite 5, taxPrice = Finite 0, discountAmount = Finite 0, coupon = None,
      totalPrice = Finite 15,
      payment = \<lparr>p_method = Some ''card'', p_status = Some PaymentPending,
        p_transactionId = None, p_intentId = Some ''pi_1'', p_amount = amt, p_currency = cur,
        p_receiptUrl = None, p_failureReason = None\<rparr>,
      shipping = \<lparr>s_address = ex_address ''UG'', s_method = Standard,
        s_estimatedDays = Some ''3-5'', s_courier = None, s_trackingNumber = None,
        s_status = Some ''pending''\<rparr>,
      refund = \<lparr>r_amount = None, r_reason = None, r_date = None\<rparr>,
      isPaid = False, paidAt = None, isDelivered = False, deliveredAt = None\<rparr>"

text \<open>A payment intent for order \<open>o1\<close> with a given settled amount and currency.\<close>

definition ex_intent :: "nat option \<Rightarrow> string option \<Rightarrow> stripe_object" where
  "ex_intent amt cur =
     \<lparr>obj_id = Some ''pi_1'', metadata_orderId = Some ''o1'', amount_received = amt,
      currency = cur, charges_data0 = Some \<lparr>ch_id = Some ''ch_1'', ch_receipt_url = None\<rparr>,
      payment_method_types0 = Some ''card'', last_payment_error_message = None,
      payment_intent = None, amount_refunded = None, refunds_data0_reason = None\<rparr>"

text \<open>
  A configured endpoint, a signed request, and a provider SDK that verifies it as the
  event \<open>evt_1\<close>: payment succeeded for order \<open>o1\<close>, 1500 settled in \<^verbatim>\<open>usd\<close>.
\<close>

definition ex_config :: config where
  "ex_config = \<lparr>STRIPE_SECRET_KEY = ''sk_test'', STRIPE_WEBHOOK_SECRET = ''whsec''\<rparr>"

definition ex_webhook_request :: request where
  "ex_webhook_request = \<lparr>stripe_signature = Some ''sig_mock'', raw_body = ''{}''\<rparr>"

definition ex_event :: stripe_event where
  "ex_event = \<lparr>ev_id = Some ''evt_1'', ev_type = Some ''payment_intent.succeeded'',
     ev_data_object = ex_intent (Some 1500) (Some ''usd'')\<rparr>"

definition ex_constructEvent :: "string \<Rightarrow> string \<Rightarrow> string \<Rightarrow> string + stripe_event" where
  "ex_constructEvent payload sg secret = Inr ex_event"

definition ex_webhook_db :: db where
  "ex_webhook_db = \<lparr>orders = [(''o1'', ex_order Pending (Some 1500) (Some ''usd''))],
     webhookEvents = Map.empty, products = Map.empty, coupons = Map.empty\<rparr>"

text \<open>A store that rejects writes to orders and to the ledger's \<^verbatim>\<open>lastError\<close>.\<close>

definition ex_store_down :: db_faults where
  "ex_store_down = \<lparr>findOrder_rejects = None, saveOrder_rejects = Some ''store unavailable'',
     upsertEvent_rejects = None, setLastError_rejects = Some ''store unavailable'',
     setProcessed_rejects = None\<rparr>"

text \<open>A store that rejects writes to orders only.\<close>

definition ex_orders_down :: db_faults where
  "ex_orders_down = \<lparr>findOrder_rejects = None, saveOrder_rejects = Some ''store unavailable'',
     upsertEvent_rejects = None, setLastError_rejects = None, setProcessed_rejects = None\<rparr>"

text \<open>A ledger that already holds \<open>evt_1\<close> as processed.\<close>

definition ex_processed_db :: db where
  "ex_processed_db = \<lparr>orders = [(''o1'', ex_order Confirmed (Some 1500) (Some ''usd''))],
     webhookEvents = [(''stripe'', ''evt_1'') \<mapsto>
       \<lparr>we_provider = ''stripe'', we_eventId = ''evt_1'', we_type = ''payment_intent.succeeded'',
        we_orderId = Some ''o1'', we_receivedAt = 5, we_lastSeenAt = Some 5, we_attempts = 1,
        we_processedAt = Some 5, we_lastError = None\<rparr>],
     products = Map.empty, coupons = Map.empty\<rparr>"

text \<open>
  A shop with two products, \<open>ab\<close> at a given decimal price and stock and \<open>cd\<close> with one
  in stock, and two active percentage coupons, \<^verbatim>\<open>SAVE10\<close> of 10 and \<^verbatim>\<open>TWICE\<close> of 200; a
  request of user \<open>u1\<close>; the order that the request for one \<open>ab\<close> at 6.1055, shipped
  within Uganda with the coupon \<^verbatim>\<open>TWICE\<close>, creates.
\<close>

definition ex_env :: order_env where
  "ex_env = \<lparr>clock = 100, newOrderId = ''o9'', orderSave_rejects = None,
     objectIdString = toLowerCase\<rparr>"

definition ex_product :: "rat \<Rightarrow> int \<Rightarrow> product" where
  "ex_product pr n = \<lparr>prod_name = Some ''Mug'', prod_sku = None, prod_price = Number_value pr,
     prod_images = [], enabled = True, isDeleted = False, countInStock = n\<rparr>"

definition ex_coupon :: coupon_doc where
  "ex_coupon = \<lparr>c_id = ''c1'', discountType = Percentage, discountValue = Finite 10,
     minOrderAmount = Finite 0,
     maxDiscountAmount = None, usageLimit = None, usageLimitPerUser = 1, usedCount = 0,
     validFrom = 0, validUntil = 1000, allowedUsers = [], firstOrderOnly = False,
     isActive = True, usedBy = []\<rparr>"

definition ex_shop :: "rat \<Rightarrow> int \<Rightarrow> db" where
  "ex_shop pr n = \<lparr>orders = [], webhookEvents = Map.empty,
     products = [''ab'' \<mapsto> ex_product pr n, ''cd'' \<mapsto> ex_product 3 1],
     coupons = [''SAVE10'' \<mapsto> ex_coupon,
                ''TWICE'' \<mapsto> ex_coupon\<lparr>c_id := ''c2'', discountValue := Finite 200\<rparr>]\<rparr>"

definition ex_item :: "string \<Rightarrow> int \<Rightarrow> raw_item" where
  "ex_item pid q = \<lparr>ri_productId = Some pid, ri_product = None, ri_qty = Some q, ri_quantity = None\<rparr>"

definition ex_order_request ::
  "raw_item list \<Rightarrow> string \<Rightarrow> ship_method option \<Rightarrow> string option \<Rightarrow> order_request" where
  "ex_order_request its c m cc = \<lparr>req_user_id = ''u1'', req_orderItems = its,
     req_shippingAddress = ex_address c, req_paymentMethod = Some ''card'',
     req_shippingMethod = m, req_couponCode = cc\<rparr>"

definition ex_placed_order :: order where
  "ex_placed_order =
     \<lparr>user = ''u1'',
      orderItems = [\<lparr>oi_product = ''ab'', oi_sku = None, oi_name = Some ''Mug'', oi_qty = 1,
                     oi_image = None, oi_price = Number_value (12211 / 2000)\<rparr>],
      status = Pending, itemsPrice = Number_value (12211 / 2000), shippingPrice = Finite 5,
      taxPrice = Number_value (11 / 10), discountAmount = Number_value (1221 / 100),
      coupon = Some ''c2'', totalPrice = Finite 0,
      payment = \<lparr>p_method = Some ''card'', p_status = Some PaymentPending,
        p_transactionId = None, p_intentId = None, p_amount = None, p_currency = Some ''usd'',
        p_receiptUrl = None, p_failureReason = None\<rparr>,
      shipping = \<lparr>s_address = ex_address ''UG'', s_method = Standard,
        s_estimatedDays = Some ''3-5'', s_courier = None, s_trackingNumber = None,
        s_status = Some ''pending''\<rparr>,
      refund = \<lparr>r_amount = None, r_reason = None, r_date = None\<rparr>,
      isPaid = False, paidAt = None, isDelivered = False, deliveredAt = None\<rparr>"

text \<open>The order that the request for one \<open>ab\<close> at 0.125, shipped within Uganda, creates.\<close>

definition ex_rounded_order :: order where
  "ex_rounded_order =
     \<lparr>user = ''u1'',
      orderItems = [\<lparr>oi_product = ''ab'', oi_sku = None, oi_name = Some ''Mug'', oi_qty = 1,
                     oi_image = None, oi_price = Finite (1 / 8)\<rparr>],
      status = Pending, itemsPrice = Finite (1 / 8), shippingPrice = Finite 5,
      taxPrice = Number_value (2 / 100), discountAmount = Finite 0,
      coupon = None, totalPrice = Number_value (514 / 100),
      payment = \<lparr>p_method = Some ''card'', p_status = Some PaymentPending,
        p_transactionId = None, p_intentId = None, p_amount = None, p_currency = Some ''usd'',
        p_receiptUrl = None, p_failureReason = None\<rparr>,
      shipping = \<lparr>s_address = ex_address ''UG'', s_method = Standard,
        s_estimatedDays = Some ''3-5'', s_courier = None, s_trackingNumber = None,
        s_status = Some ''pending''\<rparr>,
      refund = \<lparr>r_amount = None, r_reason = None, r_date = None\<rparr>,
      isPaid = False, paidAt = None, isDelivered = False, deliveredAt = None\<rparr>"

definition ex_status_update :: "order_status \<Rightarrow> status_update" where
  "ex_status_update st = \<lparr>su_status = st, su_shippingStatus = None, su_trackingNumber = None,
     su_courier = None\<rparr>"

text \<open>Two requests for the last \<open>ab\<close>, and two interleavings of them.\<close>

definition ex_last_item :: order_request where
  "ex_last_item = ex_order_request [ex_item ''ab'' 1] ''UG'' None None"

definition ex_schedule :: "event list" where
  "ex_schedule = [Decrement 0, Decrement 1, Place 0 True, Finish 1]"

definition ex_schedule_mixed :: "event list" where
  "ex_schedule_mixed = [Decrement 1, Transaction 0 True, Place 1 False, Compensate 1 0, Finish 1]"

section \<open>Payment mismatch (\<^verbatim>\<open>markOrderPaid\<close>)\<close>

lemma map_of_update_same: "map_of (AList.update k v al) k = Some v"
  by (simp add: update_conv')

text \<open>
  C1, as stated, fails on two inputs. A cancelled order that records 1000 receives an
  event that settled 2000: the handler leaves it untouched, so its payment status stays
  \<^verbatim>\<open>pending\<close> and is not set to \<^verbatim>\<open>failed\<close>. A pending order that records the amount 0
  receives an event that settled 500: the amounts differ, the guard
  \<^verbatim>\<open>expectedAmount > 0\<close> skips the comparison, and the order is marked paid.
\<close>

theorem mismatch_counterexample:
  "amount_received (ex_intent (Some 2000) (Some ''usd''))
     \<noteq> p_amount (payment (ex_order Cancelled (Some 1000) (Some ''usd'')))
   \<and> order_after (markOrderPaid no_faults 7 (ex_intent (Some 2000) (Some ''usd''))
        [(''o1'', ex_order Cancelled (Some 1000) (Some ''usd''))]) ''o1''
       = Some (ex_order Cancelled (Some 1000) (Some ''usd''))
   \<and> p_status (payment (ex_order Cancelled (Some 1000) (Some ''usd''))) = Some PaymentPending
   \<and> amount_received (ex_intent (Some 500) (Some ''usd''))
     \<noteq> p_amount (payment (ex_order Pending (Some 0) (Some ''usd'')))
   \<and> map_option isPaid (order_after (markOrderPaid no_faults 7 (ex_intent (Some 500) (Some ''usd''))
        [(''o1'', ex_order Pending (Some 0) (Some ''usd''))]) ''o1'') = Some True"
  by (simp add: markOrderPaid_def findById_def save_def no_faults_def ex_intent_def ex_order_def
        order_after_def amount_mismatch_def amount_checked_def currency_mismatch_def
        currency_checked_def truthy_def toLowerCase_def toLowerCase_char_def order_paid_def
        js_or_def)

text \<open>
  C1, amended. For an order that is found and accepts payment: when the order records a
  positive amount and the event carries a different \<^verbatim>\<open>amount_received\<close>, or when order
  and event both carry a currency and the two differ ignoring letter case, the order is
  not marked paid, whatever the store does: either the handler throws because the store
  rejected the read or the write, or the stored order has \<^verbatim>\<open>isPaid\<close> false, payment
  status \<^verbatim>\<open>failed\<close>, the failure reason naming the mismatch, and its status unchanged.
  An order that is cancelled, refunded or already paid is left as it is.
\<close>

theorem markOrderPaid_mismatch_never_paid:
  assumes "metadata_orderId paymentIntent = Some orderId" and "orderId \<noteq> []"
    and "map_of os orderId = Some ord"
  shows "(accepts_payment ord
           \<and> (amount_mismatch ord paymentIntent \<or> currency_mismatch ord paymentIntent) \<longrightarrow>
          (case markOrderPaid flt now paymentIntent os of
             Inl e \<Rightarrow> findOrder_rejects flt = Some e \<or> saveOrder_rejects flt = Some e
           | Inr os' \<Rightarrow>
              (case map_of os' orderId of
                 None \<Rightarrow> False
               | Some ord' \<Rightarrow>
                   \<not> isPaid ord' \<and> p_status (payment ord') = Some PaymentFailed
                   \<and> p_failureReason (payment ord') =
                       Some (if amount_mismatch ord paymentIntent then ''Payment amount mismatch''
                             else ''Payment currency mismatch'')
                   \<and> status ord' = status ord)))
       \<and> (\<not> accepts_payment ord \<and> findOrder_rejects flt = None \<longrightarrow>
            markOrderPaid flt now paymentIntent os = Inr os)"
  using assms
  by (auto simp: markOrderPaid_def findById_def save_def accepts_payment_def payment_failed_def
        map_of_update_same split: option.splits sum.splits)

theorem markOrderPaid_mismatch_never_paid_witness:
  "accepts_payment (ex_order Pending (Some 1500) (Some ''usd''))
   \<and> amount_mismatch (ex_order Pending (Some 1500) (Some ''usd'')) (ex_intent (Some 2000) (Some ''usd''))
   \<and> map_option isPaid (order_after (markOrderPaid no_faults 7 (ex_intent (Some 2000) (Some ''usd''))
        [(''o1'', ex_order Pending (Some 1500) (Some ''usd''))]) ''o1'') = Some False
   \<and> map_option p_status (map_option payment
        (order_after (markOrderPaid no_faults 7 (ex_intent (Some 2000) (Some ''usd''))
           [(''o1'', ex_order Pending (Some 1500) (Some ''usd''))]) ''o1''))
       = Some (Some PaymentFailed)
   \<and> \<not> accepts_payment (ex_order Refunded (Some 1500) (Some ''usd''))
   \<and> markOrderPaid no_faults 7 (ex_intent (Some 2000) (Some ''usd''))
        [(''o1'', ex_order Refunded (Some 1500) (Some ''usd''))]
       = Inr [(''o1'', ex_order Refunded (Some 1500) (Some ''usd''))]"
proof -
  have a: "accepts_payment (ex_order Pending (Some 1500) (Some ''usd''))"
    by (simp add: accepts_payment_def ex_order_def)
  have m: "amount_mismatch (ex_order Pending (Some 1500) (Some ''usd''))
             (ex_intent (Some 2000) (Some ''usd''))"
    by (simp add: amount_mismatch_def amount_checked_def ex_order_def ex_intent_def)
  have r: "\<not> accepts_payment (ex_order Refunded (Some 1500) (Some ''usd''))"
    by (simp add: accepts_payment_def ex_order_def)
  have i: "metadata_orderId (ex_intent (Some 2000) (Some ''usd'')) = Some ''o1''"
    by (simp add: ex_intent_def)
  have f: "findOrder_rejects no_faults = None" "saveOrder_rejects no_faults = None"
    by (simp_all add: no_faults_def)
  from markOrderPaid_mismatch_never_paid
         [OF i, of "[(''o1'', ex_order Pending (Some 1500) (Some ''usd''))]"
            "ex_order Pending (Some 1500) (Some ''usd'')" no_faults 7] a m f
  have p: "map_option isPaid (order_after (markOrderPaid no_faults 7 (ex_intent (Some 2000) (Some ''usd''))
        [(''o1'', ex_order Pending (Some 1500) (Some ''usd''))]) ''o1'') = Some False
   \<and> map_option p_status (map_option payment
        (order_after (markOrderPaid no_faults 7 (ex_intent (Some 2000) (Some ''usd''))
           [(''o1'', ex_order Pending (Some 1500) (Some ''usd''))]) ''o1''))
       = Some (Some PaymentFailed)"
    by (auto simp: order_after_def split: sum.splits option.splits)
  from markOrderPaid_mismatch_never_paid
         [OF i, of "[(''o1'', ex_order Refunded (Some 1500) (Some ''usd''))]"
            "ex_order Refunded (Some 1500) (Some ''usd'')" no_faults 7]
  have "markOrderPaid no_faults 7 (ex_intent (Some 2000) (Some ''usd''))
        [(''o1'', ex_order Refunded (Some 1500) (Some ''usd''))]
       = Inr [(''o1'', ex_order Refunded (Some 1500) (Some ''usd''))]"
    using r f by simp
  with a m r p show ?thesis by simp
qed

text \<open>
  C10, as stated, fails: a pending order that records no amount but the currency
  \<^verbatim>\<open>usd\<close> receives an event that settled 2457 in \<^verbatim>\<open>eur\<close>. The amount precondition fails,
  yet the order is not marked paid: the currencies are still compared, and the payment
  fails on them.
\<close>

theorem guard_skipped_counterexample:
  "\<not> amount_checked (ex_order Pending None (Some ''usd'')) (ex_intent (Some 2457) (Some ''eur''))
   \<and> map_option isPaid (order_after (markOrderPaid no_faults 7 (ex_intent (Some 2457) (Some ''eur''))
        [(''o1'', ex_order Pending None (Some ''usd''))]) ''o1'') = Some False
   \<and> map_option p_failureReason (map_option payment
        (order_after (markOrderPaid no_faults 7 (ex_intent (Some 2457) (Some ''eur''))
           [(''o1'', ex_order Pending None (Some ''usd''))]) ''o1''))
       = Some (Some ''Payment currency mismatch'')"
  by (simp add: markOrderPaid_def findById_def save_def no_faults_def ex_intent_def ex_order_def
        order_after_def amount_mismatch_def amount_checked_def currency_mismatch_def
        currency_checked_def truthy_def toLowerCase_def toLowerCase_char_def payment_failed_def)

text \<open>
  C10, amended. The amount is compared only when the order records a positive amount
  and the event carries \<^verbatim>\<open>amount_received\<close>; the currency only when order and event both
  carry one. For an order that is found and accepts payment, with the store accepting
  the read and the write, the event marks the order paid exactly when no comparison that
  is made finds a difference; so when both preconditions fail the order is marked paid
  with no comparison at all. A paid order has payment status \<^verbatim>\<open>paid\<close>, takes the
  event's amount, and goes from \<^verbatim>\<open>pending\<close> to \<^verbatim>\<open>confirmed\<close>.
\<close>

theorem markOrderPaid_compares_under_guards:
  assumes "metadata_orderId paymentIntent = Some orderId" and "orderId \<noteq> []"
    and "map_of os orderId = Some ord" and "accepts_payment ord"
    and "findOrder_rejects flt = None" and "saveOrder_rejects flt = None"
  shows "case markOrderPaid flt now paymentIntent os of
           Inl e \<Rightarrow> False
         | Inr os' \<Rightarrow>
            (case map_of os' orderId of
               None \<Rightarrow> False
             | Some ord' \<Rightarrow>
                 isPaid ord' =
                   (\<not> (amount_checked ord paymentIntent
                        \<and> amount_received paymentIntent \<noteq> p_amount (payment ord))
                    \<and> \<not> (currency_checked ord paymentIntent
                        \<and> map_option toLowerCase (currency paymentIntent)
                            \<noteq> map_option toLowerCase (p_currency (payment ord))))
                 \<and> (\<not> amount_checked ord paymentIntent \<and> \<not> currency_checked ord paymentIntent
                      \<longrightarrow> isPaid ord')
                 \<and> (isPaid ord' \<longrightarrow>
                       p_status (payment ord') = Some PaymentPaid
                       \<and> p_amount (payment ord') = amount_received paymentIntent
                       \<and> paidAt ord' = Some now
                       \<and> status ord' = (if status ord = Pending then Confirmed else status ord)))"
  using assms
  by (auto simp: markOrderPaid_def findById_def save_def accepts_payment_def payment_failed_def
        order_paid_def Let_def amount_mismatch_def currency_mismatch_def
        map_of_update_same split: option.splits sum.splits)

theorem markOrderPaid_compares_under_guards_witness:
  "accepts_payment (ex_order Pending None None)
   \<and> \<not> amount_checked (ex_order Pending None None) (ex_intent (Some 2457) (Some ''usd''))
   \<and> \<not> currency_checked (ex_order Pending None None) (ex_intent (Some 2457) (Some ''usd''))
   \<and> map_option isPaid (order_after (markOrderPaid no_faults 7 (ex_intent (Some 2457) (Some ''usd''))
        [(''o1'', ex_order Pending None None)]) ''o1'') = Some True
   \<and> map_option status (order_after (markOrderPaid no_faults 7 (ex_intent (Some 2457) (Some ''usd''))
        [(''o1'', ex_order Pending None None)]) ''o1'') = Some Confirmed"
proof -
  have a: "accepts_payment (ex_order Pending None None)"
    by (simp add: accepts_payment_def ex_order_def)
  have c: "\<not> amount_checked (ex_order Pending None None) (ex_intent (Some 2457) (Some ''usd''))"
    "\<not> currency_checked (ex_order Pending None None) (ex_intent (Some 2457) (Some ''usd''))"
    by (simp_all add: amount_checked_def currency_checked_def truthy_def ex_order_def)
  have i: "metadata_orderId (ex_intent (Some 2457) (Some ''usd'')) = Some ''o1''"
    by (simp add: ex_intent_def)
  have f: "findOrder_rejects no_faults = None" "saveOrder_rejects no_faults = None"
    by (simp_all add: no_faults_def)
  have st: "status (ex_order Pending None None) = Pending" by (simp add: ex_order_def)
  from markOrderPaid_compares_under_guards
         [OF i _ _ a f, of "[(''o1'', ex_order Pending None None)]" 7] c st
  have "map_option isPaid (order_after (markOrderPaid no_faults 7 (ex_intent (Some 2457) (Some ''usd''))
        [(''o1'', ex_order Pending None None)]) ''o1'') = Some True
   \<and> map_option status (order_after (markOrderPaid no_faults 7 (ex_intent (Some 2457) (Some ''usd''))
        [(''o1'', ex_order Pending None None)]) ''o1'') = Some Confirmed"
    by (auto simp: order_after_def split: sum.splits option.splits)
  with a c show ?thesis by simp
qed

section \<open>Webhook idempotency (\<^verbatim>\<open>handleStripeWebhook\<close>)\<close>

lemma handle_upsert_rejected:
  assumes "verified env ce req event" "ev_id event = Some eventId" "eventId \<noteq> []"
    "upsertEvent_rejects flt = Some e"
  shows "handleStripeWebhook env ce flt now req d
           = (Inr \<lparr>code = 500, body = Text ''Failed to process event''\<rparr>, d)"
  using assms by (auto simp: handleStripeWebhook_def verified_def Let_def split: option.splits)

lemma handle_duplicate:
  assumes "verified env ce req event" "ev_id event = Some eventId" "eventId \<noteq> []"
    "upsertEvent_rejects flt = None"
    "webhookEvents d (''stripe'', eventId) = Some r" "we_processedAt r \<noteq> None"
  shows "handleStripeWebhook env ce flt now req d
           = (Inr \<lparr>code = 200, body = Received True\<rparr>,
              d\<lparr>webhookEvents := (webhookEvents d)((''stripe'', eventId) \<mapsto>
                   r\<lparr>we_type := eventType event, we_orderId := eventOrderId event,
                     we_lastSeenAt := Some now, we_attempts := we_attempts r + 1\<rparr>)\<rparr>)"
  using assms
  by (auto simp: handleStripeWebhook_def verified_def Let_def upsertEvent_def split: option.splits)

lemma handle_run:
  assumes "verified env ce req event" "ev_id event = Some eventId" "eventId \<noteq> []"
    "upsertEvent_rejects flt = None"
    "unprocessed (webhookEvents d) (''stripe'', eventId)"
  shows "handleStripeWebhook env ce flt now req d
           = (let rcd = upsertEvent now ''stripe'' eventId (eventType event) (eventOrderId event)
                          (webhookEvents d);
                  es = (webhookEvents d)((''stripe'', eventId) \<mapsto> rcd)
              in case dispatch flt now event (orders d) of
                   Inl err \<Rightarrow>
                     (Inr \<lparr>code = 500, body = Text ''Failed to process event''\<rparr>,
                      d\<lparr>webhookEvents :=
                          (case setLastError_rejects flt of
                             Some e \<Rightarrow> es
                           | None \<Rightarrow> es((''stripe'', eventId) \<mapsto>
                                         rcd\<lparr>we_lastError := Some (error_text err)\<rparr>))\<rparr>)
                 | Inr os \<Rightarrow>
                     (case setProcessed_rejects flt of
                        Some e \<Rightarrow> (Inl e, d\<lparr>orders := os, webhookEvents := es\<rparr>)
                      | None \<Rightarrow>
                          (Inr \<lparr>code = 200, body = Received False\<rparr>,
                           d\<lparr>orders := os,
                              webhookEvents := es((''stripe'', eventId) \<mapsto>
                                rcd\<lparr>we_processedAt := Some now, we_lastError := None\<rparr>)\<rparr>)))"
  using assms
  by (auto simp: handleStripeWebhook_def verified_def Let_def upsertEvent_def updateEvent_def
        unprocessed_def split: option.splits sum.splits)

lemma upsert_unprocessed:
  "unprocessed es (p, i) \<Longrightarrow> we_processedAt (upsertEvent now p i t oid es) = None"
  by (auto simp: unprocessed_def upsertEvent_def split: option.splits)

lemma upsert_attempts:
  "we_attempts (upsertEvent now p i t oid es)
     = (case es (p, i) of None \<Rightarrow> 1 | Some r \<Rightarrow> we_attempts r + 1)"
  by (auto simp: upsertEvent_def split: option.splits)

text \<open>
  The handlers are idempotent: run again on its own result, for the same event, a
  handler returns that result or throws.
\<close>

lemma update_update_same: "AList.update k v (AList.update k v al) = AList.update k v al"
  by (induction al) auto

lemma save_cases: "save flt k v os = Inr os' \<Longrightarrow> os' = AList.update k v os"
  by (auto simp: save_def split: option.splits)

lemma save_again:
  "save flt2 k v (AList.update k v os) = Inr (AList.update k v os)
   \<or> (\<exists>e. save flt2 k v (AList.update k v os) = Inl e)"
  by (cases "saveOrder_rejects flt2") (simp_all add: save_def update_update_same)

lemma markOrderPaid_unfound:
  "metadata_orderId paymentIntent = None \<or> metadata_orderId paymentIntent = Some []
     \<Longrightarrow> markOrderPaid flt now paymentIntent os = Inr os"
  by (auto simp: markOrderPaid_def)

lemma markOrderPaid_found:
  assumes "metadata_orderId paymentIntent = Some oid" "oid \<noteq> []"
  shows "markOrderPaid flt now paymentIntent os =
           (case findOrder_rejects flt of
              Some e \<Rightarrow> Inl e
            | None \<Rightarrow>
               (case map_of os oid of
                  None \<Rightarrow> Inr os
                | Some ord \<Rightarrow>
                    if \<not> accepts_payment ord then Inr os
                    else save flt oid
                      (if amount_mismatch ord paymentIntent
                         then payment_failed ''Payment amount mismatch'' ord
                       else if currency_mismatch ord paymentIntent
                         then payment_failed ''Payment currency mismatch'' ord
                       else order_paid now paymentIntent ord) os))"
  using assms
  by (simp add: markOrderPaid_def findById_def accepts_payment_def split: option.splits)

lemma payment_failed_accepts:
  "accepts_payment ord \<Longrightarrow> accepts_payment (payment_failed r ord)"
  by (simp add: payment_failed_def accepts_payment_def)

lemma payment_failed_facts:
  "amount_mismatch (payment_failed r ord) paymentIntent = amount_mismatch ord paymentIntent"
  "currency_mismatch (payment_failed r ord) paymentIntent = currency_mismatch ord paymentIntent"
  "payment_failed r (payment_failed r ord) = payment_failed r ord"
  by (simp_all add: payment_failed_def accepts_payment_def amount_mismatch_def
        amount_checked_def currency_mismatch_def currency_checked_def)

lemma order_paid_settled: "\<not> accepts_payment (order_paid now paymentIntent ord)"
  by (simp add: order_paid_def accepts_payment_def Let_def)

lemma markOrderPaid_idem:
  assumes "markOrderPaid flt now paymentIntent os = Inr os'"
  shows "markOrderPaid flt2 now2 paymentIntent os' = Inr os'
         \<or> (\<exists>e. markOrderPaid flt2 now2 paymentIntent os' = Inl e)"
proof (cases "metadata_orderId paymentIntent = None \<or> metadata_orderId paymentIntent = Some []")
  case True
  then show ?thesis by (simp add: markOrderPaid_unfound)
next
  case False
  then obtain oid where oid: "metadata_orderId paymentIntent = Some oid" "oid \<noteq> []" by auto
  note F = markOrderPaid_found[OF oid]
  show ?thesis
  proof (cases "findOrder_rejects flt2")
    case (Some e)
    then show ?thesis by (simp add: F)
  next
    case f2: None
    from assms have f1: "findOrder_rejects flt = None"
      by (auto simp: F split: option.splits)
    show ?thesis
    proof (cases "map_of os oid")
      case None
      with assms f1 have "os' = os" by (simp add: F)
      then show ?thesis using None f2 by (simp add: F)
    next
      case (Some ord)
      show ?thesis
      proof (cases "accepts_payment ord")
        case False
        with assms f1 Some have "os' = os" by (simp add: F)
        then show ?thesis using Some False f2 by (simp add: F)
      next
        case True
        define ord' where "ord' = (if amount_mismatch ord paymentIntent
                         then payment_failed ''Payment amount mismatch'' ord
                       else if currency_mismatch ord paymentIntent
                         then payment_failed ''Payment currency mismatch'' ord
                       else order_paid now paymentIntent ord)"
        from assms f1 Some True have "save flt oid ord' os = Inr os'"
          by (simp add: F ord'_def)
        then have os': "os' = AList.update oid ord' os" by (rule save_cases)
        have m: "map_of os' oid = Some ord'" by (simp add: os' map_of_update_same)
        show ?thesis
        proof (cases "amount_mismatch ord paymentIntent \<or> currency_mismatch ord paymentIntent")
          case False
          then have "\<not> accepts_payment ord'" by (simp add: ord'_def order_paid_settled)
          then show ?thesis using m f2 by (simp add: F)
        next
          case mm: True
          then have "markOrderPaid flt2 now2 paymentIntent os' = save flt2 oid ord' os'"
            using m f2 True by (auto simp: F ord'_def payment_failed_facts payment_failed_accepts)
          then show ?thesis using save_again[of flt2 oid ord' os] by (simp add: os')
        qed
      qed
    qed
  qed
qed


lemma markOrderFailed_unfound:
  "metadata_orderId paymentIntent = None \<or> metadata_orderId paymentIntent = Some []
     \<Longrightarrow> markOrderFailed flt paymentIntent os = Inr os"
  by (auto simp: markOrderFailed_def)

lemma markOrderFailed_found:
  assumes "metadata_orderId paymentIntent = Some oid" "oid \<noteq> []"
  shows "markOrderFailed flt paymentIntent os =
           (case findOrder_rejects flt of
              Some e \<Rightarrow> Inl e
            | None \<Rightarrow>
               (case map_of os oid of
                  None \<Rightarrow> Inr os
                | Some ord \<Rightarrow>
                    if ignores_failure ord then Inr os
                    else save flt oid (failure_recorded paymentIntent ord) os))"
  using assms
  by (simp add: markOrderFailed_def findById_def split: option.splits)

lemma failure_recorded_facts:
  "\<not> ignores_failure ord \<Longrightarrow> \<not> ignores_failure (failure_recorded paymentIntent ord)"
  "failure_recorded paymentIntent (failure_recorded paymentIntent ord)
     = failure_recorded paymentIntent ord"
  by (simp_all add: failure_recorded_def ignores_failure_def)

lemma markOrderFailed_idem:
  assumes "markOrderFailed flt paymentIntent os = Inr os'"
  shows "markOrderFailed flt2 paymentIntent os' = Inr os'
         \<or> (\<exists>e. markOrderFailed flt2 paymentIntent os' = Inl e)"
proof (cases "metadata_orderId paymentIntent = None \<or> metadata_orderId paymentIntent = Some []")
  case True
  then show ?thesis by (simp add: markOrderFailed_unfound)
next
  case False
  then obtain oid where oid: "metadata_orderId paymentIntent = Some oid" "oid \<noteq> []" by auto
  note F = markOrderFailed_found[OF oid]
  show ?thesis
  proof (cases "findOrder_rejects flt2")
    case (Some e)
    then show ?thesis by (simp add: F)
  next
    case f2: None
    from assms have f1: "findOrder_rejects flt = None"
      by (auto simp: F split: option.splits)
    show ?thesis
    proof (cases "map_of os oid")
      case None
      with assms f1 have "os' = os" by (simp add: F)
      then show ?thesis using None f2 by (simp add: F)
    next
      case (Some ord)
      show ?thesis
      proof (cases "ignores_failure ord")
        case True
        with assms f1 Some have "os' = os" by (simp add: F)
        then show ?thesis using Some True f2 by (simp add: F)
      next
        case False
        let ?ord' = "failure_recorded paymentIntent ord"
        from assms f1 Some False have "save flt oid ?ord' os = Inr os'" by (simp add: F)
        then have os': "os' = AList.update oid ?ord' os" by (rule save_cases)
        have m: "map_of os' oid = Some ?ord'" by (simp add: os' map_of_update_same)
        have "markOrderFailed flt2 paymentIntent os' = save flt2 oid ?ord' os'"
          using m f2 False by (simp add: F failure_recorded_facts)
        then show ?thesis using save_again[of flt2 oid ?ord' os] by (simp add: os')
      qed
    qed
  qed
qed

lemma find_update:
  assumes "find (\<lambda>(k, v). P v) os = Some (k, v)" and "P v'"
  shows "find (\<lambda>(k, v). P v) (AList.update k v' os) = Some (k, v')"
  using assms
  by (induction os) (auto split: if_splits)

lemma markOrderRefunded_idem:
  assumes "markOrderRefunded flt now charge os = Inr os'"
  shows "markOrderRefunded flt2 now2 charge os' = Inr os'
         \<or> (\<exists>e. markOrderRefunded flt2 now2 charge os' = Inl e)"
proof (cases "payment_intent charge = None \<or> payment_intent charge = Some []")
  case True
  then show ?thesis by (auto simp: markOrderRefunded_def)
next
  case False
  then obtain iid where iid: "payment_intent charge = Some iid" "iid \<noteq> []" by auto
  show ?thesis
  proof (cases "findOrder_rejects flt2")
    case (Some e)
    then show ?thesis by (simp add: markOrderRefunded_def iid findOneByIntent_def)
  next
    case f2: None
    from assms have f1: "findOrder_rejects flt = None"
      by (auto simp: markOrderRefunded_def iid findOneByIntent_def split: option.splits)
    let ?P = "\<lambda>ord. p_intentId (payment ord) = Some iid"
    show ?thesis
    proof (cases "find (\<lambda>(k, ord). ?P ord) os")
      case None
      with assms f1 have "os' = os" by (simp add: markOrderRefunded_def iid findOneByIntent_def)
      then show ?thesis using None f2 by (simp add: markOrderRefunded_def iid findOneByIntent_def)
    next
      case (Some ko)
      obtain k ord where ko: "ko = (k, ord)" by (cases ko)
      have P: "?P ord" using Some ko by (auto dest: find_Some_iff[THEN iffD1])
      show ?thesis
      proof (cases "p_status (payment ord) = Some PaymentRefunded \<or> status ord = Refunded")
        case True
        with assms f1 Some ko have "os' = os"
          by (simp add: markOrderRefunded_def iid findOneByIntent_def)
        then show ?thesis using Some ko True f2
          by (simp add: markOrderRefunded_def iid findOneByIntent_def)
      next
        case False
        define ord' where "ord' = order_refunded now charge ord"
        from assms f1 Some ko False have "save flt k ord' os = Inr os'"
          by (simp add: markOrderRefunded_def iid findOneByIntent_def ord'_def)
        then have os': "os' = AList.update k ord' os" by (rule save_cases)
        have P': "?P ord'" using P by (simp add: ord'_def order_refunded_def)
        have "find (\<lambda>(k, ord). ?P ord) os' = Some (k, ord')"
          unfolding os' using Some ko P' by (intro find_update) simp_all
        moreover have "status ord' = Refunded" by (simp add: ord'_def order_refunded_def)
        ultimately show ?thesis using f2
          by (simp add: markOrderRefunded_def iid findOneByIntent_def)
      qed
    qed
  qed
qed

lemma dispatch_idem:
  assumes "dispatch flt now event os = Inr os'"
  shows "dispatch flt2 now2 event os' = Inr os' \<or> (\<exists>e. dispatch flt2 now2 event os' = Inl e)"
  using assms markOrderPaid_idem markOrderFailed_idem markOrderRefunded_idem
  by (simp add: dispatch_def split: if_splits)

lemma unprocessed_or_not:
  "unprocessed es key \<or> (\<exists>r. es key = Some r \<and> we_processedAt r \<noteq> None)"
  by (auto simp: unprocessed_def split: option.splits)

lemma second_delivery_orders:
  assumes v: "verified env ce req event" and i: "ev_id event = Some eventId"
    and ne: "eventId \<noteq> []"
    and idem: "dispatch flt2 now2 event (orders d1) = Inr (orders d1)
               \<or> (\<exists>e. dispatch flt2 now2 event (orders d1) = Inl e)"
  shows "orders (snd (handleStripeWebhook env ce flt2 now2 req d1)) = orders d1"
proof (cases "upsertEvent_rejects flt2")
  case (Some e)
  show ?thesis by (simp add: handle_upsert_rejected[OF v i ne Some])
next
  case None
  from unprocessed_or_not[of "webhookEvents d1" "(''stripe'', eventId)"]
  show ?thesis
  proof
    assume u: "unprocessed (webhookEvents d1) (''stripe'', eventId)"
    from idem show ?thesis
      by (auto simp: handle_run[OF v i ne None u] Let_def split: option.splits)
  next
    assume "\<exists>r. webhookEvents d1 (''stripe'', eventId) = Some r \<and> we_processedAt r \<noteq> None"
    then obtain r where r: "webhookEvents d1 (''stripe'', eventId) = Some r"
      "we_processedAt r \<noteq> None" by blast
    show ?thesis by (simp add: handle_duplicate[OF v i ne None r])
  qed
qed

lemma handled_once:
  assumes v: "verified env ce req event" and i: "ev_id event = Some eventId"
    and ne: "eventId \<noteq> []"
    and up: "upsertEvent_rejects flt = None"
    and u: "unprocessed (webhookEvents d) (''stripe'', eventId)"
    and h: "dispatch flt now event (orders d) = Inr os"
  shows "orders (snd (handleStripeWebhook env ce flt now req d)) = os
         \<and> orders (snd (handleStripeWebhook env ce flt2 now2 req
               (snd (handleStripeWebhook env ce flt now req d)))) = os"
proof -
  let ?d1 = "snd (handleStripeWebhook env ce flt now req d)"
  have o1: "orders ?d1 = os"
    by (simp add: handle_run[OF v i ne up u] h Let_def split: option.splits)
  from dispatch_idem[OF h, of flt2 now2]
  have "dispatch flt2 now2 event (orders ?d1) = Inr (orders ?d1)
        \<or> (\<exists>e. dispatch flt2 now2 event (orders ?d1) = Inl e)"
    by (simp add: o1)
  from second_delivery_orders[OF v i ne this] o1 show ?thesis by simp
qed

text \<open>
  C2. For a verified event with an id: (1) the first delivery creates the ledger record
  with \<^verbatim>\<open>attempts = 1\<close> and runs the handler, whose result is the new Order collection;
  (2) once the record carries \<^verbatim>\<open>processedAt\<close>, a delivery leaves the Order collection
  and \<^verbatim>\<open>processedAt\<close> as they are: it is answered 200 with \<^verbatim>\<open>duplicate: true\<close> and counts
  one more attempt, or, when the store rejects the upsert, 500 with nothing changed;
  (3) two deliveries of a new event, the first one handled without error, leave the
  Order collection as the single handler run left it, the second being answered as a
  duplicate with \<^verbatim>\<open>attempts = 2\<close>; (4) whenever the handler has returned for a
  delivery, the Order collection is its result, and it still is after a second delivery,
  whatever the store does then and whether or not \<^verbatim>\<open>processedAt\<close> could be stamped.
\<close>

theorem duplicate_delivery_mutates_once:
  assumes v: "verified env ce req event" and i: "ev_id event = Some eventId"
    and ne: "eventId \<noteq> []"
  shows "(webhookEvents d (''stripe'', eventId) = None \<and> upsertEvent_rejects flt = None \<longrightarrow>
            (case handleStripeWebhook env ce flt now req d of (res, d') \<Rightarrow>
               map_option we_attempts (webhookEvents d' (''stripe'', eventId)) = Some 1
               \<and> orders d' = (case dispatch flt now event (orders d) of
                                Inl e \<Rightarrow> orders d | Inr os \<Rightarrow> os)))
       \<and> (\<not> unprocessed (webhookEvents d) (''stripe'', eventId) \<longrightarrow>
            (case handleStripeWebhook env ce flt now req d of (res, d') \<Rightarrow>
               orders d' = orders d
               \<and> map_option we_processedAt (webhookEvents d' (''stripe'', eventId))
                   = map_option we_processedAt (webhookEvents d (''stripe'', eventId))
               \<and> (case upsertEvent_rejects flt of
                     None \<Rightarrow> res = Inr \<lparr>code = 200, body = Received True\<rparr>
                       \<and> map_option we_attempts (webhookEvents d' (''stripe'', eventId))
                           = map_option Suc
                               (map_option we_attempts (webhookEvents d (''stripe'', eventId)))
                   | Some e \<Rightarrow>
                       res = Inr \<lparr>code = 500, body = Text ''Failed to process event''\<rparr>
                       \<and> d' = d)))
       \<and> (webhookEvents d (''stripe'', eventId) = None \<and> upsertEvent_rejects flt = None
            \<and> setProcessed_rejects flt = None \<and> upsertEvent_rejects flt2 = None \<longrightarrow>
            (case dispatch flt now event (orders d) of
               Inl e \<Rightarrow> True
             | Inr os \<Rightarrow>
                (case handleStripeWebhook env ce flt now req d of (res1, d1) \<Rightarrow>
                 case handleStripeWebhook env ce flt2 now2 req d1 of (res2, d2) \<Rightarrow>
                   res1 = Inr \<lparr>code = 200, body = Received False\<rparr>
                   \<and> res2 = Inr \<lparr>code = 200, body = Received True\<rparr>
                   \<and> orders d1 = os \<and> orders d2 = os
                   \<and> map_option we_attempts (webhookEvents d2 (''stripe'', eventId)) = Some 2)))
       \<and> (unprocessed (webhookEvents d) (''stripe'', eventId) \<and> upsertEvent_rejects flt = None \<longrightarrow>
            (case dispatch flt now event (orders d) of
               Inl e \<Rightarrow> True
             | Inr os \<Rightarrow>
                 orders (snd (handleStripeWebhook env ce flt now req d)) = os
                 \<and> orders (snd (handleStripeWebhook env ce flt3 now3 req
                       (snd (handleStripeWebhook env ce flt now req d)))) = os))"
proof (intro conjI impI)
  assume a: "unprocessed (webhookEvents d) (''stripe'', eventId) \<and> upsertEvent_rejects flt = None"
  show "case dispatch flt now event (orders d) of
               Inl e \<Rightarrow> True
             | Inr os \<Rightarrow>
                 orders (snd (handleStripeWebhook env ce flt now req d)) = os
                 \<and> orders (snd (handleStripeWebhook env ce flt3 now3 req
                       (snd (handleStripeWebhook env ce flt now req d)))) = os"
  proof (cases "dispatch flt now event (orders d)")
    case (Inl e)
    then show ?thesis by simp
  next
    case (Inr os)
    from a handled_once[OF v i ne _ _ Inr, of flt3 now3] show ?thesis by (simp add: Inr)
  qed
next
  assume a: "webhookEvents d (''stripe'', eventId) = None \<and> upsertEvent_rejects flt = None"
  then have u: "unprocessed (webhookEvents d) (''stripe'', eventId)"
    by (simp add: unprocessed_def)
  show "case handleStripeWebhook env ce flt now req d of (res, d') \<Rightarrow>
               map_option we_attempts (webhookEvents d' (''stripe'', eventId)) = Some 1
               \<and> orders d' = (case dispatch flt now event (orders d) of
                                Inl e \<Rightarrow> orders d | Inr os \<Rightarrow> os)"
    using a
    by (simp add: handle_run[OF v i ne _ u] Let_def upsert_attempts
          split: sum.splits option.splits)
next
  assume p: "\<not> unprocessed (webhookEvents d) (''stripe'', eventId)"
  then obtain r where r: "webhookEvents d (''stripe'', eventId) = Some r"
    "we_processedAt r \<noteq> None"
    by (auto simp: unprocessed_def split: option.splits)
  show "case handleStripeWebhook env ce flt now req d of (res, d') \<Rightarrow>
               orders d' = orders d
               \<and> map_option we_processedAt (webhookEvents d' (''stripe'', eventId))
                   = map_option we_processedAt (webhookEvents d (''stripe'', eventId))
               \<and> (case upsertEvent_rejects flt of
                     None \<Rightarrow> res = Inr \<lparr>code = 200, body = Received True\<rparr>
                       \<and> map_option we_attempts (webhookEvents d' (''stripe'', eventId))
                           = map_option Suc
                               (map_option we_attempts (webhookEvents d (''stripe'', eventId)))
                   | Some e \<Rightarrow>
                       res = Inr \<lparr>code = 500, body = Text ''Failed to process event''\<rparr>
                       \<and> d' = d)"
  proof (cases "upsertEvent_rejects flt")
    case None
    show ?thesis using r by (simp add: handle_duplicate[OF v i ne None r] None)
  next
    case (Some e)
    show ?thesis by (simp add: handle_upsert_rejected[OF v i ne Some] Some)
  qed
next
  assume a: "webhookEvents d (''stripe'', eventId) = None \<and> upsertEvent_rejects flt = None
            \<and> setProcessed_rejects flt = None \<and> upsertEvent_rejects flt2 = None"
  then have u: "unprocessed (webhookEvents d) (''stripe'', eventId)"
    by (simp add: unprocessed_def)
  show "case dispatch flt now event (orders d) of
               Inl e \<Rightarrow> True
             | Inr os \<Rightarrow>
                (case handleStripeWebhook env ce flt now req d of (res1, d1) \<Rightarrow>
                 case handleStripeWebhook env ce flt2 now2 req d1 of (res2, d2) \<Rightarrow>
                   res1 = Inr \<lparr>code = 200, body = Received False\<rparr>
                   \<and> res2 = Inr \<lparr>code = 200, body = Received True\<rparr>
                   \<and> orders d1 = os \<and> orders d2 = os
                   \<and> map_option we_attempts (webhookEvents d2 (''stripe'', eventId)) = Some 2)"
  proof (cases "dispatch flt now event (orders d)")
    case (Inl e)
    then show ?thesis by simp
  next
    case (Inr os)
    define rcd where
      "rcd = (upsertEvent now ''stripe'' eventId (eventType event) (eventOrderId event)
                (webhookEvents d))\<lparr>we_processedAt := Some now, we_lastError := None\<rparr>"
    define d1 where
      "d1 = d\<lparr>orders := os, webhookEvents := (webhookEvents d)((''stripe'', eventId) \<mapsto> rcd)\<rparr>"
    have h1: "handleStripeWebhook env ce flt now req d
                = (Inr \<lparr>code = 200, body = Received False\<rparr>, d1)"
      using a Inr by (simp add: handle_run[OF v i ne _ u] Let_def d1_def rcd_def)
    have r1: "webhookEvents d1 (''stripe'', eventId) = Some rcd" "we_processedAt rcd \<noteq> None"
      by (simp_all add: d1_def rcd_def)
    have att: "we_attempts rcd = 1" using a by (simp add: rcd_def upsert_attempts)
    have h2: "handleStripeWebhook env ce flt2 now2 req d1
                = (Inr \<lparr>code = 200, body = Received True\<rparr>,
                   d1\<lparr>webhookEvents := (webhookEvents d1)((''stripe'', eventId) \<mapsto>
                        rcd\<lparr>we_type := eventType event, we_orderId := eventOrderId event,
                            we_lastSeenAt := Some now2, we_attempts := we_attempts rcd + 1\<rparr>)\<rparr>)"
      using a by (intro handle_duplicate[OF v i ne _ r1]) simp
    show ?thesis by (simp add: Inr h1 h2 att) (simp add: d1_def)
  qed
qed

lemma ex_verified: "verified ex_config ex_constructEvent ex_webhook_request ex_event"
  by (simp add: verified_def ex_config_def ex_constructEvent_def ex_webhook_request_def)

lemma ex_dispatch:
  "dispatch no_faults now ex_event (orders ex_webhook_db)
     = Inr [(''o1'', order_paid now (ex_intent (Some 1500) (Some ''usd''))
                       (ex_order Pending (Some 1500) (Some ''usd'')))]"
  by (simp add: dispatch_def ex_event_def ex_webhook_db_def markOrderPaid_def findById_def
        save_def no_faults_def amount_mismatch_def currency_mismatch_def ex_intent_def
        ex_order_def amount_checked_def currency_checked_def truthy_def)

theorem duplicate_delivery_mutates_once_witness:
  "verified ex_config ex_constructEvent ex_webhook_request ex_event
   \<and> map_option we_attempts
       (webhookEvents (snd (handleStripeWebhook ex_config ex_constructEvent no_faults 7
          ex_webhook_request ex_webhook_db)) (''stripe'', ''evt_1'')) = Some 1
   \<and> fst (handleStripeWebhook ex_config ex_constructEvent no_faults 9 ex_webhook_request
        (snd (handleStripeWebhook ex_config ex_constructEvent no_faults 7
           ex_webhook_request ex_webhook_db)))
       = Inr \<lparr>code = 200, body = Received True\<rparr>
   \<and> orders (snd (handleStripeWebhook ex_config ex_constructEvent no_faults 9 ex_webhook_request
        (snd (handleStripeWebhook ex_config ex_constructEvent no_faults 7
           ex_webhook_request ex_webhook_db))))
       = [(''o1'', order_paid 7 (ex_intent (Some 1500) (Some ''usd''))
                       (ex_order Pending (Some 1500) (Some ''usd'')))]
   \<and> \<not> unprocessed (webhookEvents ex_processed_db) (''stripe'', ''evt_1'')
   \<and> fst (handleStripeWebhook ex_config ex_constructEvent no_faults 9 ex_webhook_request
        ex_processed_db) = Inr \<lparr>code = 200, body = Received True\<rparr>
   \<and> orders (snd (handleStripeWebhook ex_config ex_constructEvent no_faults 9 ex_webhook_request
        ex_processed_db)) = orders ex_processed_db"
proof -
  have i: "ev_id ex_event = Some ''evt_1''" by (simp add: ex_event_def)
  have ne: "''evt_1'' \<noteq> []" by simp
  note T = duplicate_delivery_mutates_once[OF ex_verified i ne]
  have n: "webhookEvents ex_webhook_db (''stripe'', ''evt_1'') = None"
    by (simp add: ex_webhook_db_def)
  have f: "upsertEvent_rejects no_faults = None" "setProcessed_rejects no_faults = None"
    by (simp_all add: no_faults_def)
  have p: "\<not> unprocessed (webhookEvents ex_processed_db) (''stripe'', ''evt_1'')"
    by (simp add: unprocessed_def ex_processed_db_def)
  from T[of ex_webhook_db no_faults 7 no_faults 9] n f ex_dispatch[of 7]
  have a: "map_option we_attempts
       (webhookEvents (snd (handleStripeWebhook ex_config ex_constructEvent no_faults 7
          ex_webhook_request ex_webhook_db)) (''stripe'', ''evt_1'')) = Some 1
   \<and> fst (handleStripeWebhook ex_config ex_constructEvent no_faults 9 ex_webhook_request
        (snd (handleStripeWebhook ex_config ex_constructEvent no_faults 7
           ex_webhook_request ex_webhook_db)))
       = Inr \<lparr>code = 200, body = Received True\<rparr>
   \<and> orders (snd (handleStripeWebhook ex_config ex_constructEvent no_faults 9 ex_webhook_request
        (snd (handleStripeWebhook ex_config ex_constructEvent no_faults 7
           ex_webhook_request ex_webhook_db))))
       = [(''o1'', order_paid 7 (ex_intent (Some 1500) (Some ''usd''))
                       (ex_order Pending (Some 1500) (Some ''usd'')))]"
    by (simp add: split_beta)
  from T[of ex_processed_db no_faults 9 no_faults 9] p f
  have b: "fst (handleStripeWebhook ex_config ex_constructEvent no_faults 9 ex_webhook_request
        ex_processed_db) = Inr \<lparr>code = 200, body = Received True\<rparr>
   \<and> orders (snd (handleStripeWebhook ex_config ex_constructEvent no_faults 9 ex_webhook_request
        ex_processed_db)) = orders ex_processed_db"
    by (simp add: split_beta)
  from a b p ex_verified show ?thesis by simp
qed

text \<open>
  C3, as stated, fails where it says that \<^verbatim>\<open>lastError\<close> is recorded: when the store
  rejects the order write (the handler throws) and also rejects the ledger write of
  \<^verbatim>\<open>lastError\<close>, the rejection is swallowed by the empty \<^verbatim>\<open>catch\<close>, the reply is 500 and
  the record carries no \<^verbatim>\<open>lastError\<close>.
\<close>

lemma ex_dispatch_down:
  "dispatch ex_orders_down now ex_event (orders ex_webhook_db) = Inl ''store unavailable''"
  "dispatch ex_store_down now ex_event (orders ex_webhook_db) = Inl ''store unavailable''"
  by (simp_all add: dispatch_def ex_event_def ex_webhook_db_def markOrderPaid_def findById_def
        save_def ex_orders_down_def ex_store_down_def amount_mismatch_def currency_mismatch_def ex_intent_def
        ex_order_def amount_checked_def currency_checked_def truthy_def)

theorem lastError_counterexample:
  "dispatch ex_store_down 7 ex_event (orders ex_webhook_db) = Inl ''store unavailable''
   \<and> fst (handleStripeWebhook ex_config ex_constructEvent ex_store_down 7 ex_webhook_request
        ex_webhook_db) = Inr \<lparr>code = 500, body = Text ''Failed to process event''\<rparr>
   \<and> map_option we_lastError
       (webhookEvents (snd (handleStripeWebhook ex_config ex_constructEvent ex_store_down 7
          ex_webhook_request ex_webhook_db)) (''stripe'', ''evt_1'')) = Some None"
proof -
  have i: "ev_id ex_event = Some ''evt_1''" by (simp add: ex_event_def)
  have u: "unprocessed (webhookEvents ex_webhook_db) (''stripe'', ''evt_1'')"
    by (simp add: unprocessed_def ex_webhook_db_def)
  have f: "upsertEvent_rejects ex_store_down = None"
    "setLastError_rejects ex_store_down = Some ''store unavailable''"
    by (simp_all add: ex_store_down_def)
  have n: "webhookEvents ex_webhook_db (''stripe'', ''evt_1'') = None"
    by (simp add: ex_webhook_db_def)
  show ?thesis
    by (simp add: handle_run[OF ex_verified i _ f(1) u] ex_dispatch_down f Let_def
          upsertEvent_def n)
qed

text \<open>
  C3, amended. For a verified event with an id whose ledger record is not yet processed
  and whose upsert the store accepts: if the handler throws, the reply is 500, the Order
  collection is unchanged, the record exists and stays without \<^verbatim>\<open>processedAt\<close>,
  \<^verbatim>\<open>lastError\<close> is recorded whenever the store accepts that write, and the event stays
  retryable: a later delivery whose handler returns is answered 200 (not as a
  duplicate), applies the handler's result and stamps \<^verbatim>\<open>processedAt\<close>. If the handler
  returns, its result is the Order collection, and \<^verbatim>\<open>processedAt\<close> is stamped when the
  store accepts that write; otherwise the error leaves the handler and the record stays
  unprocessed. So \<^verbatim>\<open>processedAt\<close> is stamped only after the handler has returned.
\<close>

theorem processedAt_only_after_handler:
  assumes v: "verified env ce req event" and i: "ev_id event = Some eventId" and ne: "eventId \<noteq> []"
    and up: "upsertEvent_rejects flt = None"
    and u: "unprocessed (webhookEvents d) (''stripe'', eventId)"
  shows "case handleStripeWebhook env ce flt now req d of (res, d') \<Rightarrow>
          (case dispatch flt now event (orders d) of
             Inl err \<Rightarrow>
               res = Inr \<lparr>code = 500, body = Text ''Failed to process event''\<rparr>
               \<and> orders d' = orders d
               \<and> unprocessed (webhookEvents d') (''stripe'', eventId)
               \<and> webhookEvents d' (''stripe'', eventId) \<noteq> None
               \<and> (setLastError_rejects flt = None \<longrightarrow>
                    map_option we_lastError (webhookEvents d' (''stripe'', eventId))
                      = Some (Some (error_text err)))
               \<and> (upsertEvent_rejects flt2 = None \<and> setProcessed_rejects flt2 = None \<longrightarrow>
                    (case dispatch flt2 now2 event (orders d') of
                       Inl err2 \<Rightarrow> True
                     | Inr os2 \<Rightarrow>
                        (case handleStripeWebhook env ce flt2 now2 req d' of (res2, d2) \<Rightarrow>
                           res2 = Inr \<lparr>code = 200, body = Received False\<rparr> \<and> orders d2 = os2
                           \<and> map_option we_processedAt (webhookEvents d2 (''stripe'', eventId))
                               = Some (Some now2))))
           | Inr os \<Rightarrow>
               orders d' = os
               \<and> (case setProcessed_rejects flt of
                     None \<Rightarrow> res = Inr \<lparr>code = 200, body = Received False\<rparr>
                       \<and> map_option we_processedAt (webhookEvents d' (''stripe'', eventId))
                           = Some (Some now)
                   | Some e \<Rightarrow> res = Inl e
                       \<and> unprocessed (webhookEvents d') (''stripe'', eventId)))"
proof (cases "dispatch flt now event (orders d)")
  case (Inr os)
  show ?thesis
    by (simp add: handle_run[OF v i ne up u] Inr Let_def unprocessed_def upsert_unprocessed[OF u]
          split: option.splits)
next
  case (Inl err)
  define rcd where "rcd = upsertEvent now ''stripe'' eventId (eventType event) (eventOrderId event)
                          (webhookEvents d)"
  define d' where "d' = d\<lparr>webhookEvents := (case setLastError_rejects flt of
      Some e \<Rightarrow> (webhookEvents d)((''stripe'', eventId) \<mapsto> rcd)
    | None \<Rightarrow> (webhookEvents d)((''stripe'', eventId) \<mapsto> rcd\<lparr>we_lastError := Some (error_text err)\<rparr>))\<rparr>"
  have h: "handleStripeWebhook env ce flt now req d
             = (Inr \<lparr>code = 500, body = Text ''Failed to process event''\<rparr>, d')"
    by (simp add: handle_run[OF v i ne up u] Inl Let_def d'_def rcd_def split: option.splits)
  have pr: "we_processedAt rcd = None" unfolding rcd_def by (rule upsert_unprocessed[OF u])
  have u': "unprocessed (webhookEvents d') (''stripe'', eventId)"
    by (simp add: d'_def unprocessed_def pr split: option.splits)
  have o': "orders d' = orders d" by (simp add: d'_def)
  have ex: "webhookEvents d' (''stripe'', eventId) \<noteq> None"
    by (simp add: d'_def split: option.splits)
  have le: "setLastError_rejects flt = None \<longrightarrow>
      map_option we_lastError (webhookEvents d' (''stripe'', eventId)) = Some (Some (error_text err))"
    by (simp add: d'_def)
  have retry: "upsertEvent_rejects flt2 = None \<and> setProcessed_rejects flt2 = None \<longrightarrow>
                    (case dispatch flt2 now2 event (orders d') of
                       Inl err2 \<Rightarrow> True
                     | Inr os2 \<Rightarrow>
                        (case handleStripeWebhook env ce flt2 now2 req d' of (res2, d2) \<Rightarrow>
                           res2 = Inr \<lparr>code = 200, body = Received False\<rparr> \<and> orders d2 = os2
                           \<and> map_option we_processedAt (webhookEvents d2 (''stripe'', eventId))
                               = Some (Some now2)))"
  proof (intro impI)
    assume a: "upsertEvent_rejects flt2 = None \<and> setProcessed_rejects flt2 = None"
    then have up2: "upsertEvent_rejects flt2 = None" by simp
    show "case dispatch flt2 now2 event (orders d') of
                       Inl err2 \<Rightarrow> True
                     | Inr os2 \<Rightarrow>
                        (case handleStripeWebhook env ce flt2 now2 req d' of (res2, d2) \<Rightarrow>
                           res2 = Inr \<lparr>code = 200, body = Received False\<rparr> \<and> orders d2 = os2
                           \<and> map_option we_processedAt (webhookEvents d2 (''stripe'', eventId))
                               = Some (Some now2))"
      using a by (simp add: handle_run[OF v i ne up2 u'] Let_def split: sum.splits)
  qed
  show ?thesis using u' o' ex le retry by (simp add: h Inl)
qed

theorem processedAt_only_after_handler_witness:
  "verified ex_config ex_constructEvent ex_webhook_request ex_event
   \<and> unprocessed (webhookEvents ex_webhook_db) (''stripe'', ''evt_1'')
   \<and> fst (handleStripeWebhook ex_config ex_constructEvent ex_orders_down 7 ex_webhook_request
        ex_webhook_db) = Inr \<lparr>code = 500, body = Text ''Failed to process event''\<rparr>
   \<and> unprocessed (webhookEvents (snd (handleStripeWebhook ex_config ex_constructEvent
        ex_orders_down 7 ex_webhook_request ex_webhook_db))) (''stripe'', ''evt_1'')
   \<and> map_option we_lastError
       (webhookEvents (snd (handleStripeWebhook ex_config ex_constructEvent ex_orders_down 7
          ex_webhook_request ex_webhook_db)) (''stripe'', ''evt_1''))
       = Some (Some ''store unavailable'')
   \<and> map_option we_processedAt
       (webhookEvents (snd (handleStripeWebhook ex_config ex_constructEvent no_faults 9
          ex_webhook_request
          (snd (handleStripeWebhook ex_config ex_constructEvent ex_orders_down 7
             ex_webhook_request ex_webhook_db)))) (''stripe'', ''evt_1''))
       = Some (Some 9)
   \<and> map_option we_processedAt
       (webhookEvents (snd (handleStripeWebhook ex_config ex_constructEvent no_faults 7
          ex_webhook_request ex_webhook_db)) (''stripe'', ''evt_1''))
       = Some (Some 7)"
proof -
  have i: "ev_id ex_event = Some ''evt_1''" by (simp add: ex_event_def)
  have ne: "''evt_1'' \<noteq> []" by simp
  have u: "unprocessed (webhookEvents ex_webhook_db) (''stripe'', ''evt_1'')"
    by (simp add: unprocessed_def ex_webhook_db_def)
  have f: "upsertEvent_rejects ex_orders_down = None" "setLastError_rejects ex_orders_down = None"
    "upsertEvent_rejects no_faults = None" "setProcessed_rejects no_faults = None"
    by (simp_all add: ex_orders_down_def no_faults_def)
  have e: "error_text ''store unavailable'' = ''store unavailable''"
    by (simp add: error_text_def)
  note T = processedAt_only_after_handler[OF ex_verified i ne f(1) u,
      where now = 7 and ?flt2.0 = no_faults and ?now2.0 = 9]
  have o: "orders (snd (handleStripeWebhook ex_config ex_constructEvent ex_orders_down 7
             ex_webhook_request ex_webhook_db)) = orders ex_webhook_db"
    using T ex_dispatch_down(1)[of 7] by (simp add: split_beta)
  from T ex_dispatch_down(1)[of 7] ex_dispatch[of 9] f e o
  have a: "fst (handleStripeWebhook ex_config ex_constructEvent ex_orders_down 7 ex_webhook_request
        ex_webhook_db) = Inr \<lparr>code = 500, body = Text ''Failed to process event''\<rparr>
   \<and> unprocessed (webhookEvents (snd (handleStripeWebhook ex_config ex_constructEvent
        ex_orders_down 7 ex_webhook_request ex_webhook_db))) (''stripe'', ''evt_1'')
   \<and> map_option we_lastError
       (webhookEvents (snd (handleStripeWebhook ex_config ex_constructEvent ex_orders_down 7
          ex_webhook_request ex_webhook_db)) (''stripe'', ''evt_1''))
       = Some (Some ''store unavailable'')
   \<and> map_option we_processedAt
       (webhookEvents (snd (handleStripeWebhook ex_config ex_constructEvent no_faults 9
          ex_webhook_request
          (snd (handleStripeWebhook ex_config ex_constructEvent ex_orders_down 7
             ex_webhook_request ex_webhook_db)))) (''stripe'', ''evt_1''))
       = Some (Some 9)"
    by (simp add: split_beta)
  from processedAt_only_after_handler[OF ex_verified i ne f(3) u,
      where now = 7 and ?flt2.0 = no_faults and ?now2.0 = 9]
    ex_dispatch[of 7] f
  have b: "map_option we_processedAt
       (webhookEvents (snd (handleStripeWebhook ex_config ex_constructEvent no_faults 7
          ex_webhook_request ex_webhook_db)) (''stripe'', ''evt_1''))
       = Some (Some 7)"
    by (simp add: split_beta)
  from a b u ex_verified show ?thesis by simp
qed

section \<open>Operator status updates (\<^verbatim>\<open>updateOrderStatus\<close>)\<close>

text \<open>
  C9, as stated, fails: a delivered order whose status an operator sets to
  \<^verbatim>\<open>processing\<close> is answered 200 \<^verbatim>\<open>Order updated\<close> and is stored as \<^verbatim>\<open>processing\<close>.
\<close>

theorem status_regression_counterexample:
  "status (ex_order Delivered None None) = Delivered
   \<and> fst (updateOrderStatus no_faults 7 ''o1'' (ex_status_update Processing)
        [(''o1'', ex_order Delivered None None)])
       = Inr \<lparr>code = 200, body = MessageOrder ''Order updated''
               ((ex_order Delivered None None)\<lparr>status := Processing\<rparr>)\<rparr>
   \<and> map_option status (map_of (snd (updateOrderStatus no_faults 7 ''o1''
        (ex_status_update Processing) [(''o1'', ex_order Delivered None None)])) ''o1'')
       = Some Processing"
  by (simp add: updateOrderStatus_def findById_def save_def no_faults_def ex_status_update_def
        ex_order_def Let_def)

text \<open>
  C9, amended. \<^verbatim>\<open>updateOrderStatus\<close> checks no progression: for an order that exists,
  with the store accepting the read and the write, any of the eight statuses is applied
  as requested, whatever the current status, and answered 200 \<^verbatim>\<open>Order updated\<close>;
  \<^verbatim>\<open>delivered\<close> also sets \<^verbatim>\<open>isDelivered\<close>.
\<close>

theorem updateOrderStatus_applies_any_status:
  assumes "map_of os orderId = Some ord"
    and "findOrder_rejects flt = None" and "saveOrder_rejects flt = None"
  shows "case updateOrderStatus flt now orderId upd os of
           (Inl e, os') \<Rightarrow> False
         | (Inr rsp, os') \<Rightarrow>
             code rsp = 200
             \<and> (case body rsp of MessageOrder m ord' \<Rightarrow> m = ''Order updated''
                    \<and> map_of os' orderId = Some ord' \<and> status ord' = su_status upd
                    \<and> (su_status upd = Delivered \<longrightarrow> isDelivered ord')
                 | _ \<Rightarrow> False)"
  using assms
  by (auto simp: updateOrderStatus_def findById_def save_def Let_def map_of_update_same
        split: option.splits)

theorem updateOrderStatus_applies_any_status_witness:
  "map_of [(''o1'', ex_order Shipped None None)] ''o1'' = Some (ex_order Shipped None None)
   \<and> map_option status (map_of (snd (updateOrderStatus no_faults 7 ''o1''
        (ex_status_update Delivered) [(''o1'', ex_order Shipped None None)])) ''o1'')
       = Some Delivered
   \<and> map_option isDelivered (map_of (snd (updateOrderStatus no_faults 7 ''o1''
        (ex_status_update Delivered) [(''o1'', ex_order Shipped None None)])) ''o1'')
       = Some True"
proof -
  have m: "map_of [(''o1'', ex_order Shipped None None)] ''o1'' = Some (ex_order Shipped None None)"
    by simp
  have f: "findOrder_rejects no_faults = None" "saveOrder_rejects no_faults = None"
    by (simp_all add: no_faults_def)
  have s: "su_status (ex_status_update Delivered) = Delivered"
    by (simp add: ex_status_update_def)
  from updateOrderStatus_applies_any_status[OF m f, where now = 7 and upd = "ex_status_update Delivered"] s
  have "map_option status (map_of (snd (updateOrderStatus no_faults 7 ''o1''
        (ex_status_update Delivered) [(''o1'', ex_order Shipped None None)])) ''o1'')
       = Some Delivered
   \<and> map_option isDelivered (map_of (snd (updateOrderStatus no_faults 7 ''o1''
        (ex_status_update Delivered) [(''o1'', ex_order Shipped None None)])) ''o1'')
       = Some True"
    by (auto simp: split_beta split: sum.splits reply.splits)
  with m show ?thesis by simp
qed

section \<open>Inventory reservation: compensation and the two paths\<close>

lemma incrementStock_decreased:
  assumes "ps k = Some p" and "ps1 = ps(k \<mapsto> p\<lparr>countInStock := countInStock p - q\<rparr>)"
  shows "\<exists>p'. incrementStock env x ps k = Some p'
            \<and> incrementStock env x ps1 = (incrementStock env x ps)(k \<mapsto> p'\<lparr>countInStock := countInStock p' - q\<rparr>)"
  using assms by (auto simp: incrementStock_def Let_def fun_upd_twist split: option.splits)

lemma fold_incrementStock_decreased:
  assumes "ps k = Some p" and "ps1 = ps(k \<mapsto> p\<lparr>countInStock := countInStock p - q\<rparr>)"
  shows "\<exists>p'. fold (incrementStock env) xs ps k = Some p'
            \<and> fold (incrementStock env) xs ps1
                = (fold (incrementStock env) xs ps)(k \<mapsto> p'\<lparr>countInStock := countInStock p' - q\<rparr>)"
  using assms
proof (induction xs arbitrary: ps ps1 p)
  case Nil
  then show ?case by simp
next
  case (Cons x xs)
  from incrementStock_decreased[OF Cons.prems, of env x]
  obtain p' where p': "incrementStock env x ps k = Some p'"
    "incrementStock env x ps1 = (incrementStock env x ps)(k \<mapsto> p'\<lparr>countInStock := countInStock p' - q\<rparr>)"
    by blast
  from Cons.IH[OF p'] show ?case by simp
qed

lemma compensate_undoes_decrement:
  assumes "decrementStock env it ps = Some ps1"
  shows "incrementStock env it (compensate env decremented ps1) = compensate env decremented ps"
proof -
  let ?k = "objectIdString env (productId it)"
  from assms obtain p where p: "ps ?k = Some p"
    and ps1: "ps1 = ps(?k \<mapsto> p\<lparr>countInStock := countInStock p - qty it\<rparr>)"
    by (auto simp: decrementStock_def Let_def split: option.splits if_splits)
  from fold_incrementStock_decreased[OF p ps1, of env decremented]
  obtain p' where p': "fold (incrementStock env) decremented ps ?k = Some p'"
    "fold (incrementStock env) decremented ps1
       = (fold (incrementStock env) decremented ps)(?k \<mapsto> p'\<lparr>countInStock := countInStock p' - qty it\<rparr>)"
    by blast
  have "(fold (incrementStock env) decremented ps)(?k \<mapsto> p') = fold (incrementStock env) decremented ps"
    using p'(1) by (simp add: map_upd_triv)
  then show ?thesis
    by (simp add: compensate_def incrementStock_def Let_def p')
qed

lemma reserve_fallback_compensate:
  "reserve_fallback env its ps decremented = (ok, ps', decremented')
     \<Longrightarrow> compensate env decremented' ps' = compensate env decremented ps"
proof (induction its arbitrary: ps decremented)
  case Nil
  then show ?case by simp
next
  case (Cons it its)
  show ?case
  proof (cases "decrementStock env it ps")
    case None
    with Cons.prems show ?thesis by simp
  next
    case (Some ps1)
    with Cons.prems have "reserve_fallback env its ps1 (decremented @ [it]) = (ok, ps', decremented')"
      by simp
    from Cons.IH[OF this]
    have "compensate env decremented' ps' = compensate env (decremented @ [it]) ps1" .
    also have "\<dots> = incrementStock env it (compensate env decremented ps1)"
      by (simp add: compensate_def)
    also have "\<dots> = compensate env decremented ps"
      by (rule compensate_undoes_decrement[OF Some])
    finally show ?thesis .
  qed
qed

lemma reserve_fallback_restores:
  "reserve_fallback env its ps [] = (ok, ps', decremented') \<Longrightarrow> compensate env decremented' ps' = ps"
  using reserve_fallback_compensate[of env its ps "[]" ok ps' decremented']
  by (simp add: compensate_def)

lemma reserve_fallback_transaction:
  "reserve_fallback env its ps decremented =
     (case reserve_transaction env its ps of
        None \<Rightarrow> (False, snd (reserve_fallback env its ps decremented))
      | Some ps' \<Rightarrow> (True, ps', decremented @ its))"
proof (induction its arbitrary: ps decremented)
  case Nil
  then show ?case by simp
next
  case (Cons it its)
  show ?case
  proof (cases "decrementStock env it ps")
    case None
    then show ?thesis by simp
  next
    case (Some ps1)
    show ?thesis using Cons.IH[of ps1 "decremented @ [it]"]
      by (simp add: Some split: option.splits)
  qed
qed

lemma buildOrder_keeps:
  "buildOrder env req cs d = (ord, d') \<Longrightarrow> d' = d\<lparr>coupons := coupons d'\<rparr>"
  by (auto simp: buildOrder_def Let_def applyCouponToOrder_def split: if_splits option.splits prod.splits)

lemma saveNewOrder_Inl: "saveNewOrder env ord os = Inl e \<Longrightarrow> \<exists>m. e = Rejected m"
  by (auto simp: saveNewOrder_def split: if_splits option.splits)

lemma transaction_fallback_equal:
  "addOrderItems_transaction env req normalized d = addOrderItems_fallback env req normalized d"
proof (cases "reserve_transaction env normalized (products d)")
  case None
  obtain ps' dec' where r: "reserve_fallback env normalized (products d) [] = (False, ps', dec')"
    using reserve_fallback_transaction[of env normalized "products d" "[]"] None
    by (cases "reserve_fallback env normalized (products d) []") auto
  have "compensate env dec' ps' = products d" by (rule reserve_fallback_restores[OF r])
  then show ?thesis
    by (simp add: addOrderItems_transaction_def transaction_body_def addOrderItems_fallback_def None r)
next
  case (Some ps)
  have r: "reserve_fallback env normalized (products d) [] = (True, ps, normalized)"
    using reserve_fallback_transaction[of env normalized "products d" "[]"] Some by simp
  have c: "compensate env normalized ps = products d" by (rule reserve_fallback_restores[OF r])
  show ?thesis
  proof (cases "computeItems (byId env normalized ps) normalized")
    case None
    show ?thesis
      by (simp add: addOrderItems_transaction_def transaction_body_def addOrderItems_fallback_def
            Some r None c)
  next
    case (Some cs)
    obtain ord d2 where b: "buildOrder env req cs (d\<lparr>products := ps\<rparr>) = (ord, d2)"
      by (cases "buildOrder env req cs (d\<lparr>products := ps\<rparr>)") auto
    have d2: "d2 = d\<lparr>products := ps, coupons := coupons d2\<rparr>"
      using buildOrder_keeps[OF b] by simp
    have e: "d2\<lparr>products := products d\<rparr> = d\<lparr>coupons := coupons d2\<rparr>"
      by (subst d2) simp
    have pd2: "products d2 = ps" by (subst d2) simp
    show ?thesis
    proof (cases "saveNewOrder env ord (orders d2)")
      case (Inl err)
      then obtain m where m: "err = Rejected m" by (auto dest: saveNewOrder_Inl)
      show ?thesis
        using e
        by (simp add: addOrderItems_transaction_def transaction_body_def addOrderItems_fallback_def
            \<open>reserve_transaction env normalized (products d) = Some ps\<close> r Some c b Inl m pd2)
    next
      case (Inr os)
      show ?thesis
        by (simp add: addOrderItems_transaction_def transaction_body_def addOrderItems_fallback_def
            \<open>reserve_transaction env normalized (products d) = Some ps\<close> r Some b Inr)
    qed
  qed
qed

lemma reserve_fallback_decremented:
  "reserve_fallback env its ps decremented = (ok, ps', decremented')
     \<Longrightarrow> \<exists>n \<le> length its. decremented' = decremented @ take n its
           \<and> reserve_transaction env (take n its) ps = Some ps'
           \<and> (ok \<longleftrightarrow> n = length its)
           \<and> (\<not> ok \<longrightarrow> decrementStock env (its ! n) ps' = None)"
proof (induction its arbitrary: ps decremented)
  case Nil
  then show ?case by auto
next
  case (Cons it its)
  show ?case
  proof (cases "decrementStock env it ps")
    case None
    with Cons.prems show ?thesis by (intro exI[of _ 0]) auto
  next
    case (Some ps1)
    with Cons.prems have "reserve_fallback env its ps1 (decremented @ [it]) = (ok, ps', decremented')"
      by simp
    from Cons.IH[OF this] obtain n where n: "n \<le> length its"
      "decremented' = (decremented @ [it]) @ take n its"
      "reserve_transaction env (take n its) ps1 = Some ps'" "ok \<longleftrightarrow> n = length its"
      "\<not> ok \<longrightarrow> decrementStock env (its ! n) ps' = None"
      by blast
    show ?thesis using n Some by (intro exI[of _ "Suc n"]) auto
  qed
qed

lemma buildOrder_products:
  "buildOrder env req cs d = (ord, d') \<Longrightarrow> products d' = products d \<and> orders d' = orders d"
  by (auto simp: buildOrder_def Let_def applyCouponToOrder_def split: if_splits option.splits prod.splits)

text \<open>
  C5. In the fallback path: (1) when the decrement loop ends, \<^verbatim>\<open>decremented\<close> is the
  list of all the items decremented so far, in order; the store is the one the loop
  started from with each of them decremented; the compensating increments, one for
  every entry, give back the store the loop started from; and the loop succeeded exactly
  when every item was decremented. (2) Whenever the path ends in an error, after a
  failed reservation or a failure of any later step, the Product and Order collections
  are as before the attempt. The error is the insufficient-stock error exactly when
  some item cannot be reserved; it is then signalled with status 409 and the whole store
  is unchanged. When the path succeeds, the Product collection is the one with every
  item decremented.
\<close>

theorem fallback_compensates_every_decrement:
  "(case reserve_fallback env normalized ps [] of
      (ok, ps', decremented) \<Rightarrow>
        decremented = take (length decremented) normalized
        \<and> reserve_transaction env decremented ps = Some ps'
        \<and> compensate env decremented ps' = ps
        \<and> (ok \<longleftrightarrow> decremented = normalized))
   \<and> (case addOrderItems_fallback env req normalized d of
        (Inl (sc, err), d') \<Rightarrow>
          products d' = products d \<and> orders d' = orders d
          \<and> (err = Insufficient_stock \<longrightarrow> sc = 409 \<and> d' = d)
          \<and> (err = Insufficient_stock \<longleftrightarrow> reserve_transaction env normalized (products d) = None)
      | (Inr rsp, d') \<Rightarrow>
          reserve_transaction env normalized (products d) = Some (products d'))"
proof (rule conjI)
  obtain ok ps' dec where r: "reserve_fallback env normalized ps [] = (ok, ps', dec)"
    by (cases "reserve_fallback env normalized ps []") auto
  from reserve_fallback_decremented[OF r] obtain n where n: "n \<le> length normalized"
    "dec = take n normalized" "reserve_transaction env (take n normalized) ps = Some ps'"
    "ok \<longleftrightarrow> n = length normalized" by auto
  have l: "length dec = n" using n by simp
  have "ok \<longleftrightarrow> dec = normalized"
    using n l by (metis order_refl take_all)
  then show "case reserve_fallback env normalized ps [] of
      (ok, ps', decremented) \<Rightarrow>
        decremented = take (length decremented) normalized
        \<and> reserve_transaction env decremented ps = Some ps'
        \<and> compensate env decremented ps' = ps
        \<and> (ok \<longleftrightarrow> decremented = normalized)"
    using n l reserve_fallback_restores[OF r] by (simp add: r)
next
  have eq: "addOrderItems_fallback env req normalized d = addOrderItems_transaction env req normalized d"
    by (simp add: transaction_fallback_equal)
  show "case addOrderItems_fallback env req normalized d of
        (Inl (sc, err), d') \<Rightarrow>
          products d' = products d \<and> orders d' = orders d
          \<and> (err = Insufficient_stock \<longrightarrow> sc = 409 \<and> d' = d)
          \<and> (err = Insufficient_stock \<longleftrightarrow> reserve_transaction env normalized (products d) = None)
      | (Inr rsp, d') \<Rightarrow>
          reserve_transaction env normalized (products d) = Some (products d')"
    unfolding eq
    by (auto simp: addOrderItems_transaction_def transaction_body_def Let_def
          dest: saveNewOrder_Inl buildOrder_products
          split: option.splits sum.splits prod.splits thrown.splits)
qed

theorem fallback_compensates_every_decrement_witness:
  "reserve_transaction ex_env [\<lparr>productId = ''ab'', qty = 2\<rparr>, \<lparr>productId = ''cd'', qty = 3\<rparr>]
       (products (ex_shop 10 5)) = None
   \<and> snd (snd (reserve_fallback ex_env
        [\<lparr>productId = ''ab'', qty = 2\<rparr>, \<lparr>productId = ''cd'', qty = 3\<rparr>] (products (ex_shop 10 5)) []))
       = [\<lparr>productId = ''ab'', qty = 2\<rparr>]
   \<and> map_option countInStock (fst (snd (reserve_fallback ex_env
        [\<lparr>productId = ''ab'', qty = 2\<rparr>, \<lparr>productId = ''cd'', qty = 3\<rparr>] (products (ex_shop 10 5)) []))
          ''ab'') = Some 3
   \<and> addOrderItems_fallback ex_env
         (ex_order_request [ex_item ''ab'' 2, ex_item ''cd'' 3] ''UG'' None None)
         [\<lparr>productId = ''ab'', qty = 2\<rparr>, \<lparr>productId = ''cd'', qty = 3\<rparr>] (ex_shop 10 5)
       = (Inl (409, Insufficient_stock), ex_shop 10 5)"
proof -
  let ?n = "[\<lparr>productId = ''ab'', qty = 2\<rparr>, \<lparr>productId = ''cd'', qty = 3\<rparr>]"
  let ?r = "ex_order_request [ex_item ''ab'' 2, ex_item ''cd'' 3] ''UG'' None None"
  have n: "reserve_transaction ex_env ?n (products (ex_shop 10 5)) = None"
    by code_simp
  have d: "snd (snd (reserve_fallback ex_env ?n (products (ex_shop 10 5)) []))
             = [\<lparr>productId = ''ab'', qty = 2\<rparr>]"
    by code_simp
  have s: "map_option countInStock (fst (snd (reserve_fallback ex_env ?n (products (ex_shop 10 5)) []))
             ''ab'') = Some 3"
    by code_simp
  note T = fallback_compensates_every_decrement[where env = ex_env and normalized = ?n
         and ps = "products (ex_shop 10 5)" and req = ?r and d = "ex_shop 10 5", THEN conjunct2]
  obtain r d' where rd: "addOrderItems_fallback ex_env ?r ?n (ex_shop 10 5) = (r, d')"
    by (cases "addOrderItems_fallback ex_env ?r ?n (ex_shop 10 5)")
  from T n have "r = Inl (409, Insufficient_stock) \<and> d' = ex_shop 10 5"
    unfolding rd by (auto split: sum.splits prod.splits)
  with n d s rd show ?thesis by simp
qed

text \<open>
  C6. The two paths give the same reply or error, the same status code and the same
  store, for every environment, request and store: as called by \<^verbatim>\<open>addOrderItems\<close> with
  either answer of \<^verbatim>\<open>canUseTransactions()\<close>, and on any item list. The client sees 409
  for insufficient stock, 400 for an unavailable product or an empty item list, 500
  for a rejection by the store or the validator, and 201 otherwise.
\<close>

theorem transaction_and_fallback_agree:
  "addOrderItems True env req d = addOrderItems False env req d
   \<and> addOrderItems_transaction env req normalized d = addOrderItems_fallback env req normalized d
   \<and> http_status (fst (addOrderItems useTransaction env req d))
       = (case fst (addOrderItems useTransaction env req d) of
            Inl (sc, err) \<Rightarrow>
              (case err of Insufficient_stock \<Rightarrow> 409 | Products_unavailable \<Rightarrow> 400
               | No_order_items \<Rightarrow> 400 | Rejected m \<Rightarrow> 500)
          | Inr rsp \<Rightarrow> 201)"
proof -
  have e: "\<And>n. addOrderItems_transaction env req n d = addOrderItems_fallback env req n d"
    by (rule transaction_fallback_equal)
  have c: "\<And>n. http_status (fst (addOrderItems_transaction env req n d))
       = (case fst (addOrderItems_transaction env req n d) of
            Inl (sc, err) \<Rightarrow>
              (case err of Insufficient_stock \<Rightarrow> 409 | Products_unavailable \<Rightarrow> 400
               | No_order_items \<Rightarrow> 400 | Rejected m \<Rightarrow> 500)
          | Inr rsp \<Rightarrow> 201)"
    by (auto simp: addOrderItems_transaction_def transaction_body_def http_status_def Let_def
          dest: saveNewOrder_Inl split: sum.splits prod.splits option.splits thrown.splits)
  show ?thesis using c
    by (simp add: addOrderItems_def e[symmetric] Let_def http_status_def)
qed

theorem transaction_and_fallback_agree_witness:
  "addOrderItems True ex_env (ex_order_request [ex_item ''ab'' 2] ''UG'' None None) (ex_shop 10 1)
     = addOrderItems False ex_env (ex_order_request [ex_item ''ab'' 2] ''UG'' None None) (ex_shop 10 1)
   \<and> fst (addOrderItems False ex_env (ex_order_request [ex_item ''ab'' 2] ''UG'' None None)
       (ex_shop 10 1)) = Inl (409, Insufficient_stock)"
proof -
  have "fst (addOrderItems False ex_env (ex_order_request [ex_item ''ab'' 2] ''UG'' None None)
       (ex_shop 10 1)) = Inl (409, Insufficient_stock)"
    by code_simp
  with transaction_and_fallback_agree[where env = ex_env
         and req = "ex_order_request [ex_item ''ab'' 2] ''UG'' None None" and d = "ex_shop 10 1"]
  show ?thesis by simp
qed

section \<open>Pricing of a created order\<close>

subsection \<open>Rounding to a double\<close>

text \<open>
  The doubles of 0.1, 0.18 and 5.145; 0.1 + 0.2 is not the double of 0.3; \<open>2^53 + 1\<close>
  is a tie and goes to the even significand; \<^verbatim>\<open>(1.005).toFixed(2)\<close> is 1.00 and
  \<^verbatim>\<open>(0.125).toFixed(2)\<close> is 0.13.
\<close>

lemma Number_value_examples:
  "Number_value (1 / 10) = Finite (3602879701896397 / 36028797018963968)
   \<and> Number_value (18 / 100) = Finite (3242591731706757 / 18014398509481984)
   \<and> Number_value (5145 / 1000) = Finite (1448188755176325 / 281474976710656)
   \<and> js_add (Number_value (1 / 10)) (Number_value (2 / 10))
       = Finite (1351079888211149 / 4503599627370496)
   \<and> Number_value (3 / 10) = Finite (5404319552844595 / 18014398509481984)
   \<and> Number_value (2 ^ 53 + 1) = Finite (2 ^ 53)
   \<and> Number_value (2 ^ 53 + 3) = Finite (2 ^ 53 + 4)
   \<and> toFixed2 (Number_value (1005 / 1000)) = Finite 1
   \<and> toFixed2 (Finite (1 / 8)) = Number_value (13 / 100)"
  by code_simp

lemma pow2_of_int: "0 \<le> k \<Longrightarrow> (of_int (2 ^ nat k) :: rat) = 2 powi k"
  by (simp add: power_int_def)

lemma exponent_bounds:
  assumes "0 < a"
  shows "2 powi exponent a \<le> a \<and> a < 2 powi (exponent a + 1)"
proof -
  obtain p q where pq: "quotient_of a = (p, q)" by (cases "quotient_of a")
  have q: "0 < q" using quotient_of_denom_pos[OF pq] .
  have a: "a = of_int p / of_int q" using quotient_of_div[OF pq] .
  have p: "0 < p" using assms q a by (simp add: zero_less_divide_iff)
  let ?bp = "bitlen p" and ?bq = "bitlen q"
  have bp: "1 \<le> ?bp" using p bitlen_eq_zero_iff[of p] bitlen_nonneg[of p] by linarith
  have bq: "1 \<le> ?bq" using q bitlen_eq_zero_iff[of q] bitlen_nonneg[of q] by linarith
  from bitlen_bounds[OF p] have "(of_int (2 ^ nat (?bp - 1)) :: rat) \<le> of_int p"
    and "(of_int p :: rat) < of_int (2 ^ nat ?bp)"
    by (simp_all only: of_int_le_iff of_int_less_iff)
  then have p1: "2 powi (?bp - 1) \<le> (of_int p :: rat)" and p2: "(of_int p :: rat) < 2 powi ?bp"
    using bp by (simp_all add: pow2_of_int[symmetric])
  from bitlen_bounds[OF q] have "(of_int (2 ^ nat (?bq - 1)) :: rat) \<le> of_int q"
    and "(of_int q :: rat) < of_int (2 ^ nat ?bq)"
    by (simp_all only: of_int_le_iff of_int_less_iff)
  then have q1: "2 powi (?bq - 1) \<le> (of_int q :: rat)" and q2: "(of_int q :: rat) < 2 powi ?bq"
    using bq by (simp_all add: pow2_of_int[symmetric])
  have qq: "(0::rat) < of_int q" using q by simp
  have pos: "\<And>k. (0::rat) < 2 powi k" by simp
  have up: "a < 2 powi (?bp - ?bq + 1)"
  proof -
    have "a * 2 powi (?bq - 1) \<le> a * of_int q" using q1 assms by simp
    also have "\<dots> = of_int p" using qq by (simp add: a)
    also have "\<dots> < 2 powi ?bp" by (rule p2)
    also have "\<dots> = 2 powi (?bp - ?bq + 1) * 2 powi (?bq - 1)"
      by (simp add: power_int_add[symmetric])
    finally show ?thesis using pos[of "?bq - 1"] by simp
  qed
  have lo: "2 powi (?bp - ?bq - 1) < a"
  proof -
    have "2 powi (?bp - ?bq - 1) * (of_int q :: rat) < 2 powi (?bp - ?bq - 1) * 2 powi ?bq"
      using q2 pos[of "?bp - ?bq - 1"] by simp
    also have "\<dots> = 2 powi (?bp - 1)" by (simp add: power_int_add[symmetric])
    also have "\<dots> \<le> of_int p" by (rule p1)
    also have "\<dots> = a * of_int q" using qq by (simp add: a)
    finally show ?thesis using qq by simp
  qed
  show ?thesis
  proof (cases "2 powi (?bp - ?bq) \<le> a")
    case True
    then have "exponent a = ?bp - ?bq" by (simp add: exponent_def pq Let_def)
    with True up show ?thesis by simp
  next
    case False
    then have "exponent a = ?bp - ?bq - 1" by (simp add: exponent_def pq Let_def)
    with False lo show ?thesis by simp
  qed
qed

lemma round_even_close: "\<bar>of_int (round_even z) - z\<bar> \<le> 1 / 2"
proof -
  have "of_int \<lfloor>z\<rfloor> \<le> z" "z < of_int \<lfloor>z\<rfloor> + 1" by linarith+
  then show ?thesis unfolding round_even_def Let_def by (simp split: if_splits)
qed

lemma round_even_nonneg: "0 \<le> z \<Longrightarrow> 0 \<le> round_even z"
proof -
  assume "0 \<le> z"
  then have "0 \<le> \<lfloor>z\<rfloor>" by simp
  then show ?thesis unfolding round_even_def Let_def by simp
qed

text \<open>
  Up to \<open>2^32\<close> in magnitude a rational rounds to a finite double no further than
  \<open>2^-21\<close> away.
\<close>

lemma Number_value_error:
  assumes "\<bar>x\<bar> \<le> 2 ^ 32"
  shows "\<exists>y. Number_value x = Finite y \<and> \<bar>y - x\<bar> \<le> 1 / 2 ^ 21"
proof (cases "x = 0")
  case True
  then show ?thesis by (simp add: Number_value_def)
next
  case False
  define a where "a = \<bar>x\<bar>"
  define e where "e = max (exponent a) (- 1022)"
  define q where "q = (2::rat) powi (e - 52)"
  define m where "m = of_int (round_even (a / q)) * q"
  have a: "0 < a" using False by (simp add: a_def)
  have q: "0 < q" by (simp add: q_def)
  from exponent_bounds[OF a] assms have "(2::rat) powi exponent a \<le> 2 powi 32"
    by (simp add: a_def)
  then have "exponent a \<le> 32" by (rule power_int_le_imp_le_exp[rotated]) simp_all
  then have e: "e \<le> 32" by (simp add: e_def)
  have "q \<le> 2 powi (- 20)" unfolding q_def using e by (intro power_int_increasing) simp_all
  then have q20: "q \<le> 1 / 2 ^ 20" by (simp add: power_int_def field_simps)
  have "\<bar>of_int (round_even (a / q)) - a / q\<bar> * q \<le> 1 / 2 * q"
    using round_even_close[of "a / q"] q by (intro mult_right_mono) simp_all
  also have "\<bar>of_int (round_even (a / q)) - a / q\<bar> * q = \<bar>m - a\<bar>"
  proof -
    have "(of_int (round_even (a / q)) - a / q) * q = m - a"
      using q by (simp add: m_def left_diff_distrib)
    then have "\<bar>m - a\<bar> = \<bar>of_int (round_even (a / q)) - a / q\<bar> * \<bar>q\<bar>"
      by (simp only: abs_mult[symmetric])
    then show ?thesis using q by simp
  qed
  finally have ma: "\<bar>m - a\<bar> \<le> 1 / 2 ^ 21" using q20 by simp
  have "(1::rat) / 2 ^ 21 \<le> 1" by simp
  with ma have "\<bar>m - a\<bar> \<le> 1" by (rule order_trans)
  then have "m \<le> a + 1" by linarith
  also have "a + 1 \<le> 2 ^ 32 + 1" using assms by (simp add: a_def)
  finally have m32: "m \<le> 2 ^ 32 + 1" .
  have fin: "\<not> 1024 \<le> exponent m"
  proof (cases "0 < m")
    case True
    from exponent_bounds[OF True] m32 have "(2::rat) powi exponent m \<le> 2 ^ 32 + 1" by simp
    also have "\<dots> < 2 powi 33" by simp
    finally have "exponent m < 33" by (rule power_int_le_imp_less_exp[rotated]) simp_all
    then show ?thesis by simp
  next
    case False
    have "0 \<le> m" unfolding m_def using a q
      by (intro mult_nonneg_nonneg) (simp_all add: round_even_nonneg)
    with False have "m = 0" by simp
    then show ?thesis using bitlen_nonneg[of 1] by (simp add: exponent_def Let_def)
  qed
  have nv: "Number_value x = Finite (sgn x * m)"
    using False fin by (simp add: Number_value_def Let_def a_def[symmetric] e_def[symmetric]
        q_def[symmetric] m_def[symmetric])
  have "\<bar>sgn x * m - x\<bar> = \<bar>m - a\<bar>"
    using False by (cases "0 < x") (simp_all add: a_def sgn_if abs_if)
  with ma nv show ?thesis by simp
qed

lemma Number_value_nonneg:
  assumes "0 \<le> x"
  shows "Number_value x = PosInfinity \<or> (\<exists>y. Number_value x = Finite y \<and> 0 \<le> y)"
proof (cases "x = 0")
  case True
  then show ?thesis by (simp add: Number_value_def)
next
  case False
  with assms have "0 < x" by simp
  then show ?thesis
    by (auto simp: Number_value_def Let_def sgn_if intro!: mult_nonneg_nonneg round_even_nonneg
        divide_nonneg_nonneg)
qed

lemma toFixed2_error:
  assumes "\<bar>v\<bar> \<le> 4 * 10 ^ 9"
  shows "\<exists>t. toFixed2 (Finite v) = Finite t \<and> \<bar>t - v\<bar> \<le> 1 / 200 + 1 / 2 ^ 21"
proof -
  define n where "n = \<lfloor>\<bar>v\<bar> * 100 + 1 / 2\<rfloor>"
  define r :: rat where "r = of_int n / 100"
  have "of_int n \<le> \<bar>v\<bar> * 100 + 1 / 2" "\<bar>v\<bar> * 100 + 1 / 2 < of_int n + 1"
    unfolding n_def by linarith+
  then have "\<bar>of_int n - \<bar>v\<bar> * 100\<bar> \<le> 1 / 2" by linarith
  then have rv: "\<bar>r - \<bar>v\<bar>\<bar> \<le> 1 / 200" unfolding r_def by (simp add: abs_le_iff field_simps)
  have n0: "0 \<le> n" unfolding n_def by simp
  then have r0: "0 \<le> r" unfolding r_def by simp
  have "r \<le> \<bar>v\<bar> + 1 / 200" using rv by linarith
  also have "\<dots> \<le> 2 ^ 32" using assms by simp
  finally have "\<bar>r\<bar> \<le> 2 ^ 32" using r0 by simp
  from Number_value_error[OF this] obtain y where y: "Number_value r = Finite y"
    "\<bar>y - r\<bar> \<le> 1 / 2 ^ 21" by blast
  have t: "toFixed2 (Finite v) = Finite (if v < 0 then - y else y)"
    using y by (simp add: Let_def n_def[symmetric] r_def[symmetric])
  have "\<bar>(if v < 0 then - y else y) - v\<bar> = \<bar>y - \<bar>v\<bar>\<bar>" by (simp add: abs_if)
  also have "\<dots> \<le> \<bar>y - r\<bar> + \<bar>r - \<bar>v\<bar>\<bar>" by linarith
  also have "\<dots> \<le> 1 / 2 ^ 21 + 1 / 200" using y rv by linarith
  finally show ?thesis using t by (simp add: add.commute)
qed

text \<open>
  The controller's sum of four amounts of at most \<open>10^9\<close>, rounded to two decimals, is
  finite and less than a cent away from the exact sum.
\<close>

lemma total_error:
  assumes "0 \<le> i" "i \<le> 10 ^ 9" "0 \<le> s" "s \<le> 10 ^ 9" "0 \<le> x" "x \<le> 10 ^ 9"
    "0 \<le> c" "c \<le> 10 ^ 9"
  shows "\<exists>t. toFixed2 (js_sub (js_add (js_add (Finite i) (Finite s)) (Finite x)) (Finite c))
               = Finite t \<and> \<bar>t - (i + s + x - c)\<bar> < 1 / 100"
proof -
  have "\<bar>i + s\<bar> \<le> 2 ^ 32" using assms by simp
  from Number_value_error[OF this] obtain y1 where y1: "Number_value (i + s) = Finite y1"
    "\<bar>y1 - (i + s)\<bar> \<le> 1 / 2 ^ 21" by blast
  have "(1::rat) / 2 ^ 21 \<le> 1" by simp
  with y1 have b1: "\<bar>y1 - (i + s)\<bar> \<le> 1" by linarith
  have "\<bar>y1 + x\<bar> \<le> 2 ^ 32" using assms b1 by (simp; linarith)
  from Number_value_error[OF this] obtain y2 where y2: "Number_value (y1 + x) = Finite y2"
    "\<bar>y2 - (y1 + x)\<bar> \<le> 1 / 2 ^ 21" by blast
  from y2 \<open>(1::rat) / 2 ^ 21 \<le> 1\<close> have b2: "\<bar>y2 - (y1 + x)\<bar> \<le> 1" by linarith
  have "\<bar>y2 - c\<bar> \<le> 2 ^ 32" using assms b1 b2 by (simp; linarith)
  from Number_value_error[OF this] obtain y3 where y3: "Number_value (y2 - c) = Finite y3"
    "\<bar>y3 - (y2 - c)\<bar> \<le> 1 / 2 ^ 21" by blast
  from y3 \<open>(1::rat) / 2 ^ 21 \<le> 1\<close> have b3: "\<bar>y3 - (y2 - c)\<bar> \<le> 1" by linarith
  have "\<bar>y3\<bar> \<le> 4 * 10 ^ 9" using assms b1 b2 b3 by (simp; linarith)
  from toFixed2_error[OF this] obtain t where t: "toFixed2 (Finite y3) = Finite t"
    "\<bar>t - y3\<bar> \<le> 1 / 200 + 1 / 2 ^ 21" by blast
  have e: "toFixed2 (js_sub (js_add (js_add (Finite i) (Finite s)) (Finite x)) (Finite c)) = Finite t"
    by (simp add: js_sub_def y1 y2 y3 t del: toFixed2.simps)
  have "\<bar>t - (i + s + x - c)\<bar>
          \<le> \<bar>t - y3\<bar> + \<bar>y3 - (y2 - c)\<bar> + \<bar>y2 - (y1 + x)\<bar> + \<bar>y1 - (i + s)\<bar>"
    by linarith
  also have "\<dots> \<le> 1 / 200 + 4 * (1 / 2 ^ 21)" using t y1 y2 y3 by linarith
  also have "\<dots> < 1 / 100" by simp
  finally show ?thesis using e by blast
qed

text \<open>
  A sum whose rounding passes \<^verbatim>\<open>min: 0\<close> rounds as the sum clamped at zero does: a
  negative sum passes only when it rounds to zero.
\<close>

lemma toFixed2_clamp:
  assumes "js_le (Finite 0) (toFixed2 a)"
  shows "toFixed2 (Math_max (Finite 0) a) = toFixed2 a"
proof (cases a)
  case (Finite v)
  show ?thesis
  proof (cases "v < 0")
    case True
    define r :: rat where "r = of_int \<lfloor>\<bar>v\<bar> * 100 + 1 / 2\<rfloor> / 100"
    have r0: "0 \<le> r" unfolding r_def by simp
    have t: "toFixed2 a = js_neg (Number_value r)" using True by (simp add: Finite Let_def r_def)
    from Number_value_nonneg[OF r0] assms t have "Number_value r = Finite 0" by auto
    then have "toFixed2 a = Finite 0" using t by simp
    moreover have "\<lfloor>(1::rat) / 2\<rfloor> = 0" by (simp add: floor_eq_iff)
    then have "toFixed2 (Finite 0) = Finite 0" by (simp add: Number_value_def)
    ultimately show ?thesis using True by (simp add: Finite max_def)
  next
    case False
    then show ?thesis by (simp add: Finite max_def)
  qed
next
  case PosInfinity
  then show ?thesis by simp
next
  case NegInfinity
  with assms show ?thesis by simp
next
  case NaN
  then show ?thesis by simp
qed

subsection \<open>The persisted total\<close>

lemma buildOrder_total:
  "buildOrder env req cs d = (ord, d')
     \<Longrightarrow> totalPrice ord
           = toFixed2 (js_sub (js_add (js_add (itemsPrice ord) (shippingPrice ord)) (taxPrice ord))
                         (discountAmount ord))"
  by (auto simp: buildOrder_def Let_def simp del: toFixed2.simps split: if_splits prod.splits)

lemma saveNewOrder_Inr:
  "saveNewOrder env ord os = Inr os' \<Longrightarrow> order_valid ord \<and> os' = os @ [(newOrderId env, ord)]"
  by (auto simp: saveNewOrder_def split: if_splits option.splits)

lemma transaction_created:
  assumes "created_order (addOrderItems_transaction env req normalized d) = Some ord"
  shows "order_valid ord
         \<and> totalPrice ord
             = toFixed2 (js_sub (js_add (js_add (itemsPrice ord) (shippingPrice ord)) (taxPrice ord))
                           (discountAmount ord))
         \<and> orders (snd (addOrderItems_transaction env req normalized d))
             = orders d @ [(newOrderId env, ord)]"
proof -
  from assms obtain ps cs d2 os where
    b: "buildOrder env req cs (d\<lparr>products := ps\<rparr>) = (ord, d2)"
    and s: "saveNewOrder env ord (orders d2) = Inr os"
    and r: "addOrderItems_transaction env req normalized d
              = (Inr \<lparr>code = 201, body = Created ord\<rparr>, d2\<lparr>orders := os\<rparr>)"
    by (auto simp: created_order_def addOrderItems_transaction_def transaction_body_def Let_def
          split: sum.splits option.splits prod.splits)
  from buildOrder_products[OF b] have o: "orders d2 = orders d" by simp
  from saveNewOrder_Inr[OF s] buildOrder_total[OF b] o show ?thesis by (simp add: r)
qed

lemma amount_bounds:
  assumes "js_le (Finite 0) a" and "amount_within b a"
  shows "a = Finite (amount_of a) \<and> 0 \<le> amount_of a \<and> amount_of a \<le> b"
  using assms by (cases a) (simp_all add: amount_within_def amount_of_def)

text \<open>
  \<^verbatim>\<open>calculateOrderTotals\<close> caps the coupon discount at the items subtotal; the
  controller does not call it, and caps nothing: with the coupon \<^verbatim>\<open>TWICE\<close> on one \<open>ab\<close>
  at 10 the sum is negative, \<^verbatim>\<open>order.save()\<close> is rejected by the validator, and the
  request fails with no order.
\<close>

lemma calculateOrderTotals_caps_discount:
  "ot_discount (calculateOrderTotals [(Finite 8, Finite 1)] ''US'' Standard (Finite 80)) = Finite 8
   \<and> ot_totalPrice (calculateOrderTotals [(Finite 8, Finite 1)] ''US'' Standard (Finite 80))
       = Finite 40"
  by code_simp

lemma excess_discount_rejected:
  "(let r = addOrderItems False ex_env
       (ex_order_request [ex_item ''ab'' 1] ''UG'' None (Some ''twice'')) (ex_shop 10 1)
    in fst r = Inl (200, Rejected ''Order validation failed'') \<and> orders (snd r) = [])"
  by code_simp

text \<open>
  C7, as stated, fails: one item at 0.125 shipped within Uganda with no coupon gives an
  order with items price 0.125, shipping 5, tax 0.02 and no discount whose persisted
  total is 5.14, while the stated sum, clamped at zero, is the double next below 5.145,
  and in exact arithmetic on the persisted fields more than 5.145.
\<close>

theorem total_rounding_counterexample:
  "created_order (addOrderItems False ex_env
       (ex_order_request [ex_item ''ab'' 1] ''UG'' None None) (ex_shop (1 / 8) 10))
     = Some ex_rounded_order
   \<and> itemsPrice ex_rounded_order = Finite (1 / 8)
   \<and> shippingPrice ex_rounded_order = Finite 5
   \<and> taxPrice ex_rounded_order = Number_value (2 / 100)
   \<and> discountAmount ex_rounded_order = Finite 0
   \<and> totalPrice ex_rounded_order = Number_value (514 / 100)
   \<and> stated_total ex_rounded_order = Finite (1448188755176325 / 281474976710656)
   \<and> totalPrice ex_rounded_order \<noteq> stated_total ex_rounded_order
   \<and> amount_of (totalPrice ex_rounded_order) < 5141 / 1000
   \<and> 5145 / 1000 < exact_total ex_rounded_order"
proof (intro conjI)
  show "created_order (addOrderItems False ex_env
       (ex_order_request [ex_item ''ab'' 1] ''UG'' None None) (ex_shop (1 / 8) 10))
     = Some ex_rounded_order"
    by code_simp
  show "stated_total ex_rounded_order = Finite (1448188755176325 / 281474976710656)"
    by code_simp
  show "totalPrice ex_rounded_order \<noteq> stated_total ex_rounded_order"
    by code_simp
  show "amount_of (totalPrice ex_rounded_order) < 5141 / 1000"
    by code_simp
  show "5145 / 1000 < exact_total ex_rounded_order"
    by code_simp
qed (simp_all add: ex_rounded_order_def)

text \<open>
  C7, amended. For every order that \<^verbatim>\<open>addOrderItems\<close> creates, on either path: the
  persisted pricing fields are all non-negative; the total is the items price plus
  shipping plus tax less the discount, added as doubles and rounded to two decimals
  (\<^verbatim>\<open>Number(x.toFixed(2))\<close>); it is also the rounding of that sum clamped at zero;
  when the four amounts are at most \<open>10^9\<close>, the total is finite and less than a cent
  away from the exact sum of the persisted fields, clamped at zero; and the order is the
  one appended to the Order collection.
\<close>

theorem created_order_pricing:
  assumes "created_order (addOrderItems useTransaction env req d) = Some ord"
  shows "js_le (Finite 0) (itemsPrice ord) \<and> js_le (Finite 0) (shippingPrice ord)
         \<and> js_le (Finite 0) (taxPrice ord) \<and> js_le (Finite 0) (discountAmount ord)
         \<and> js_le (Finite 0) (totalPrice ord)
         \<and> totalPrice ord
             = toFixed2 (js_sub (js_add (js_add (itemsPrice ord) (shippingPrice ord)) (taxPrice ord))
                           (discountAmount ord))
         \<and> totalPrice ord = toFixed2 (stated_total ord)
         \<and> (amount_within (10 ^ 9) (itemsPrice ord) \<and> amount_within (10 ^ 9) (shippingPrice ord)
              \<and> amount_within (10 ^ 9) (taxPrice ord)
              \<and> amount_within (10 ^ 9) (discountAmount ord) \<longrightarrow>
              amount_within (4 * 10 ^ 9) (totalPrice ord)
              \<and> \<bar>amount_of (totalPrice ord) - exact_total ord\<bar> < 1 / 100)
         \<and> orders (snd (addOrderItems useTransaction env req d))
             = orders d @ [(newOrderId env, ord)]"
proof -
  let ?n = "normalizeOrderItems (req_orderItems req)"
  let ?sum = "js_sub (js_add (js_add (itemsPrice ord) (shippingPrice ord)) (taxPrice ord))
                (discountAmount ord)"
  have e: "addOrderItems useTransaction env req d
             = (if ?n = [] then (Inl (400, No_order_items), d)
                else addOrderItems_transaction env req ?n d)"
    by (simp add: addOrderItems_def Let_def transaction_fallback_equal)
  from assms have ne: "?n \<noteq> []" by (auto simp: e created_order_def)
  with assms e have "created_order (addOrderItems_transaction env req ?n d) = Some ord" by simp
  from transaction_created[OF this]
  have v: "order_valid ord" and t: "totalPrice ord = toFixed2 ?sum"
    and o: "orders (snd (addOrderItems_transaction env req ?n d)) = orders d @ [(newOrderId env, ord)]"
    by simp_all
  from v have nn: "js_le (Finite 0) (itemsPrice ord)" "js_le (Finite 0) (shippingPrice ord)"
    "js_le (Finite 0) (taxPrice ord)" "js_le (Finite 0) (discountAmount ord)"
    "js_le (Finite 0) (totalPrice ord)"
    by (simp_all add: order_valid_def)
  from nn(5) have c: "toFixed2 (stated_total ord) = toFixed2 ?sum"
    unfolding stated_total_def t by (rule toFixed2_clamp)
  have b: "amount_within (4 * 10 ^ 9) (totalPrice ord)
           \<and> \<bar>amount_of (totalPrice ord) - exact_total ord\<bar> < 1 / 100"
    if w: "amount_within (10 ^ 9) (itemsPrice ord)" "amount_within (10 ^ 9) (shippingPrice ord)"
      "amount_within (10 ^ 9) (taxPrice ord)" "amount_within (10 ^ 9) (discountAmount ord)"
  proof -
    let ?i = "amount_of (itemsPrice ord)" and ?s = "amount_of (shippingPrice ord)"
    let ?x = "amount_of (taxPrice ord)" and ?c = "amount_of (discountAmount ord)"
    note i = amount_bounds[OF nn(1) w(1)] and s = amount_bounds[OF nn(2) w(2)]
      and x = amount_bounds[OF nn(3) w(3)] and c = amount_bounds[OF nn(4) w(4)]
    from total_error[of ?i ?s ?x ?c] i s x c
    obtain tt where tt: "toFixed2 (js_sub (js_add (js_add (Finite ?i) (Finite ?s)) (Finite ?x))
                            (Finite ?c)) = Finite tt"
      "\<bar>tt - (?i + ?s + ?x - ?c)\<bar> < 1 / 100" by blast
    have "?sum = js_sub (js_add (js_add (Finite ?i) (Finite ?s)) (Finite ?x)) (Finite ?c)"
      using i s x c by simp
    with tt(1) t have tp: "totalPrice ord = Finite tt" by simp
    with nn(5) have t0: "0 \<le> tt" by simp
    have "\<bar>tt - max 0 (?i + ?s + ?x - ?c)\<bar> \<le> \<bar>tt - (?i + ?s + ?x - ?c)\<bar>"
      using t0 by (simp add: max_def abs_if)
    with tt(2) have d: "\<bar>tt - exact_total ord\<bar> < 1 / 100" by (simp add: exact_total_def)
    have "\<bar>tt\<bar> \<le> \<bar>tt - (?i + ?s + ?x - ?c)\<bar> + \<bar>?i + ?s + ?x - ?c\<bar>" by linarith
    also have "\<dots> \<le> 1 + 3 * 10 ^ 9" using tt(2) i s x c by (simp; linarith)
    also have "\<dots> \<le> 4 * 10 ^ 9" by simp
    finally have "\<bar>tt\<bar> \<le> 4 * 10 ^ 9" .
    with d show ?thesis by (simp add: tp amount_within_def amount_of_def)
  qed
  have o': "orders (snd (addOrderItems useTransaction env req d))
              = orders d @ [(newOrderId env, ord)]"
    using o ne by (simp add: e)
  from c t have c': "totalPrice ord = toFixed2 (stated_total ord)" by simp
  from nn t c' b o' show ?thesis by blast
qed

theorem created_order_pricing_witness:
  "created_order (addOrderItems False ex_env
       (ex_order_request [ex_item ''ab'' 1] ''UG'' None (Some ''twice'')) (ex_shop (61055 / 10000) 1))
     = Some ex_placed_order
   \<and> discountAmount ex_placed_order = Number_value (1221 / 100)
   \<and> js_lt (js_sub (js_add (js_add (itemsPrice ex_placed_order) (shippingPrice ex_placed_order))
               (taxPrice ex_placed_order)) (discountAmount ex_placed_order)) (Finite 0)
   \<and> stated_total ex_placed_order = Finite 0
   \<and> totalPrice ex_placed_order = Finite 0
   \<and> totalPrice ex_placed_order = toFixed2 (stated_total ex_placed_order)
   \<and> js_le (Finite 0) (totalPrice ex_placed_order)
   \<and> \<bar>amount_of (totalPrice ex_placed_order) - exact_total ex_placed_order\<bar> < 1 / 100"
proof -
  have c: "created_order (addOrderItems False ex_env
       (ex_order_request [ex_item ''ab'' 1] ''UG'' None (Some ''twice'')) (ex_shop (61055 / 10000) 1))
     = Some ex_placed_order"
    by code_simp
  have d: "discountAmount ex_placed_order = Number_value (1221 / 100)"
    by (simp add: ex_placed_order_def)
  have n: "js_lt (js_sub (js_add (js_add (itemsPrice ex_placed_order) (shippingPrice ex_placed_order))
               (taxPrice ex_placed_order)) (discountAmount ex_placed_order)) (Finite 0)"
    by code_simp
  have s: "stated_total ex_placed_order = Finite 0" by code_simp
  have t: "totalPrice ex_placed_order = Finite 0" by (simp add: ex_placed_order_def)
  have w: "amount_within (10 ^ 9) (itemsPrice ex_placed_order)
           \<and> amount_within (10 ^ 9) (shippingPrice ex_placed_order)
           \<and> amount_within (10 ^ 9) (taxPrice ex_placed_order)
           \<and> amount_within (10 ^ 9) (discountAmount ex_placed_order)"
    by code_simp
  note T = created_order_pricing[OF c]
  from T have p: "totalPrice ex_placed_order = toFixed2 (stated_total ex_placed_order)"
    by blast
  from T have nn: "js_le (Finite 0) (totalPrice ex_placed_order)" by blast
  from T w have b: "\<bar>amount_of (totalPrice ex_placed_order) - exact_total ex_placed_order\<bar> < 1 / 100"
    by blast
  from c d n s t p nn b show ?thesis by blast
qed

section \<open>Coupon redemption and order persistence\<close>

lemma addOrderItems_paths: "addOrderItems True env req d = addOrderItems False env req d"
  by (simp add: addOrderItems_def Let_def transaction_fallback_equal)

lemma coupon_run:
  "(let r = addOrderItems False ex_env
       (ex_order_request [ex_item ''ab'' 1] ''UG'' (Some Unlisted) (Some ''save10'')) (ex_shop 10 1)
    in fst r = Inl (200, Rejected ''Order validation failed'')
       \<and> orders (snd r) = []
       \<and> map_option countInStock (products (snd r) ''ab'') = Some 1
       \<and> map_option usedCount (coupons (snd r) ''SAVE10'') = Some 1
       \<and> map_option usedBy (coupons (snd r) ''SAVE10'')
           = Some [\<lparr>cu_user = ''u1'', cu_order = None, cu_discountApplied = Finite 1\<rparr>])"
  by code_simp

text \<open>
  C8 fails on the code. User \<open>u1\<close> orders one \<open>ab\<close> with the coupon \<^verbatim>\<open>save10\<close> and a
  shipping method outside the schema's \<^verbatim>\<open>enum\<close>. On either path the stock is reserved,
  \<^verbatim>\<open>applyCouponToOrder\<close> records the usage (\<^verbatim>\<open>usedCount\<close> from 0 to 1, a \<^verbatim>\<open>usedBy\<close> entry
  with no order), then \<^verbatim>\<open>order.save()\<close> is rejected by the validator: the request fails,
  the stock is given back, no order exists, and the coupon usage stays recorded.
\<close>

theorem coupon_redeemed_without_order:
  "fst (addOrderItems False ex_env
       (ex_order_request [ex_item ''ab'' 1] ''UG'' (Some Unlisted) (Some ''save10'')) (ex_shop 10 1))
     = Inl (200, Rejected ''Order validation failed'')
   \<and> orders (snd (addOrderItems False ex_env
       (ex_order_request [ex_item ''ab'' 1] ''UG'' (Some Unlisted) (Some ''save10'')) (ex_shop 10 1)))
       = []
   \<and> map_option countInStock (products (snd (addOrderItems False ex_env
       (ex_order_request [ex_item ''ab'' 1] ''UG'' (Some Unlisted) (Some ''save10'')) (ex_shop 10 1)))
         ''ab'') = Some 1
   \<and> map_option usedCount (coupons (ex_shop 10 1) ''SAVE10'') = Some 0
   \<and> map_option usedCount (coupons (snd (addOrderItems False ex_env
       (ex_order_request [ex_item ''ab'' 1] ''UG'' (Some Unlisted) (Some ''save10'')) (ex_shop 10 1)))
         ''SAVE10'') = Some 1
   \<and> map_option usedBy (coupons (snd (addOrderItems False ex_env
       (ex_order_request [ex_item ''ab'' 1] ''UG'' (Some Unlisted) (Some ''save10'')) (ex_shop 10 1)))
         ''SAVE10'')
       = Some [\<lparr>cu_user = ''u1'', cu_order = None, cu_discountApplied = Finite 1\<rparr>]
   \<and> fst (addOrderItems True ex_env
       (ex_order_request [ex_item ''ab'' 1] ''UG'' (Some Unlisted) (Some ''save10'')) (ex_shop 10 1))
     = Inl (200, Rejected ''Order validation failed'')
   \<and> map_option usedCount (coupons (snd (addOrderItems True ex_env
       (ex_order_request [ex_item ''ab'' 1] ''UG'' (Some Unlisted) (Some ''save10'')) (ex_shop 10 1)))
         ''SAVE10'') = Some 1"
proof -
  have u: "map_option usedCount (coupons (ex_shop 10 1) ''SAVE10'') = Some 0"
    by code_simp
  from coupon_run u show ?thesis
    unfolding addOrderItems_paths Let_def by blast
qed

section \<open>No oversell under interleaving\<close>

text \<open>An attempt that runs alone replays the two loops of the fallback path.\<close>

lemma decrement_not_reserving:
  "ph \<noteq> Reserving \<Longrightarrow>
   run env (replicate n (Decrement 0)) (ps, [\<lparr>at_todo = its, at_held = held, at_phase = ph\<rparr>])
     = (ps, [\<lparr>at_todo = its, at_held = held, at_phase = ph\<rparr>])"
  by (induction n) (simp_all add: run_def)

lemma run_alone_decrements:
  "run env (replicate (length its) (Decrement 0))
       (ps, [\<lparr>at_todo = its, at_held = held, at_phase = Reserving\<rparr>])
     = (case reserve_fallback env its ps held of
          (ok, ps', held') \<Rightarrow>
            (ps', [\<lparr>at_todo = drop (length held' - length held) its, at_held = held',
                    at_phase = (if ok then Reserving else Compensating)\<rparr>]))"
proof (induction its arbitrary: ps held)
  case Nil
  then show ?case by (simp add: run_def)
next
  case (Cons it its)
  show ?case
  proof (cases "decrementStock env it ps")
    case None
    then show ?thesis
      using decrement_not_reserving[of Compensating env "length its" ps "it # its" held]
      by (simp add: run_def)
  next
    case (Some ps1)
    obtain ok ps' held' where r: "reserve_fallback env its ps1 (held @ [it]) = (ok, ps', held')"
      by (cases "reserve_fallback env its ps1 (held @ [it])") auto
    from reserve_fallback_decremented[OF r] obtain n where "held' = (held @ [it]) @ take n its"
      by blast
    then have l: "length held' - length held = Suc (length held' - length (held @ [it]))"
      by simp
    have "run env (replicate (length (it # its)) (Decrement 0))
            (ps, [\<lparr>at_todo = it # its, at_held = held, at_phase = Reserving\<rparr>])
          = run env (replicate (length its) (Decrement 0))
              (ps1, [\<lparr>at_todo = its, at_held = held @ [it], at_phase = Reserving\<rparr>])"
      by (simp add: run_def Some)
    also have "\<dots> = (ps', [\<lparr>at_todo = drop (length held' - length (held @ [it])) its,
                              at_held = held',
                              at_phase = (if ok then Reserving else Compensating)\<rparr>])"
      by (simp add: Cons.IH r)
    finally show ?thesis by (simp add: Some r l)
  qed
qed

lemma run_alone_compensates:
  "run env (replicate (length held) (Compensate 0 0))
       (ps, [\<lparr>at_todo = its, at_held = held, at_phase = Compensating\<rparr>])
     = (compensate env held ps, [\<lparr>at_todo = its, at_held = [], at_phase = Compensating\<rparr>])"
proof (induction held arbitrary: ps)
  case Nil
  then show ?case by (simp add: run_def compensate_def)
next
  case (Cons h held)
  have "run env (replicate (length (h # held)) (Compensate 0 0))
          (ps, [\<lparr>at_todo = its, at_held = h # held, at_phase = Compensating\<rparr>])
        = run env (replicate (length held) (Compensate 0 0))
            (incrementStock env h ps, [\<lparr>at_todo = its, at_held = held, at_phase = Compensating\<rparr>])"
    by (simp add: run_def)
  then show ?case by (simp add: Cons.IH compensate_def)
qed

lemma sum_list_map_update:
  fixes f :: "'a \<Rightarrow> int"
  shows "i < length xs \<Longrightarrow> sum_list (map f (xs[i := x])) = sum_list (map f xs) - f (xs ! i) + f x"
  by (induction xs arbitrary: i) (auto split: nat.splits)

lemma normalize_positive: "it \<in> set (normalizeOrderItems xs) \<Longrightarrow> 0 < qty it"
  by (auto simp: normalizeOrderItems_def List.map_filter_def normalize_item_def Let_def
        split: option.splits if_splits)

lemma held_qty_nonneg: "\<forall>it \<in> set its. 0 < qty it \<Longrightarrow> 0 \<le> held_qty env k its"
  by (force simp: held_qty_def intro!: sum_list_nonneg intro: less_imp_le)

lemma held_qty_append: "held_qty env k (xs @ ys) = held_qty env k xs + held_qty env k ys"
  by (simp add: held_qty_def)

lemma held_qty_remove:
  "j < length xs \<Longrightarrow> held_qty env k (take j xs @ drop (Suc j) xs)
     = held_qty env k xs - held_qty env k [xs ! j]"
proof -
  assume "j < length xs"
  then have "xs = take j xs @ (xs ! j) # drop (Suc j) xs" by (simp add: id_take_nth_drop)
  then have "held_qty env k xs = held_qty env k (take j xs) + held_qty env k [xs ! j]
               + held_qty env k (drop (Suc j) xs)"
    by (metis append_Cons append_Nil held_qty_append add.assoc)
  then show ?thesis by (simp add: held_qty_append)
qed

lemma decrementStock_stock:
  assumes "decrementStock env it ps = Some ps'"
  shows "stock ps' k = map_option (\<lambda>c. c - held_qty env k [it]) (stock ps k)"
    and "objectIdString env (productId it) = k \<Longrightarrow> \<exists>c. stock ps k = Some c \<and> qty it \<le> c"
  using assms
  by (auto simp: decrementStock_def stock_def held_qty_def Let_def option.map_ident
        split: option.splits if_splits)

lemma incrementStock_stock:
  "stock (incrementStock env it ps) k = map_option (\<lambda>c. c + held_qty env k [it]) (stock ps k)"
  by (auto simp: incrementStock_def stock_def held_qty_def Let_def option.map_ident
        split: option.splits)

lemma reserve_transaction_stock:
  assumes "reserve_transaction env its ps = Some ps'" and "stock ps k = Some c"
    and "\<forall>it \<in> set its. 0 < qty it" and "0 \<le> c"
  shows "stock ps' k = Some (c - held_qty env k its) \<and> 0 \<le> c - held_qty env k its"
  using assms
proof (induction its arbitrary: ps c)
  case Nil
  then show ?case by (simp add: held_qty_def)
next
  case (Cons it its)
  from Cons.prems(1) obtain ps1 where d: "decrementStock env it ps = Some ps1"
    and r: "reserve_transaction env its ps1 = Some ps'"
    by (auto split: option.splits)
  have s1: "stock ps1 k = Some (c - held_qty env k [it])"
    using decrementStock_stock(1)[OF d, of k] Cons.prems(2) by simp
  have nn: "0 \<le> c - held_qty env k [it]"
  proof (cases "objectIdString env (productId it) = k")
    case True
    with decrementStock_stock(2)[OF d] Cons.prems(2) show ?thesis by (auto simp: held_qty_def)
  next
    case False
    with Cons.prems(4) show ?thesis by (simp add: held_qty_def)
  qed
  from Cons.IH[OF r s1 _ nn] Cons.prems(3)
  have "stock ps' k = Some (c - held_qty env k [it] - held_qty env k its)
        \<and> 0 \<le> c - held_qty env k [it] - held_qty env k its" by simp
  moreover have "held_qty env k (it # its) = held_qty env k [it] + held_qty env k its"
    using held_qty_append[of env k "[it]" its] by simp
  ultimately show ?case by simp
qed

lemma positive_update:
  assumes "positive ats" and "i < length ats"
    and "set (at_todo a) \<union> set (at_held a) \<subseteq> set (at_todo (ats ! i)) \<union> set (at_held (ats ! i))"
  shows "positive (ats[i := a])"
  unfolding positive_def
proof (intro ballI)
  fix a' it
  assume a': "a' \<in> set (ats[i := a])" and it: "it \<in> set (at_todo a') \<union> set (at_held a')"
  from a' set_update_subset_insert[of ats i a] have "a' = a \<or> a' \<in> set ats" by auto
  then show "0 < qty it"
  proof
    assume "a' = a"
    with it assms(3) have "it \<in> set (at_todo (ats ! i)) \<union> set (at_held (ats ! i))" by auto
    moreover have "ats ! i \<in> set ats" using assms(2) by simp
    ultimately show ?thesis using assms(1) unfolding positive_def by blast
  next
    assume "a' \<in> set ats"
    with it assms(1) show ?thesis unfolding positive_def by blast
  qed
qed

lemma positive_nth:
  assumes "positive ats" and "i < length ats"
  shows "\<forall>it \<in> set (at_todo (ats ! i)) \<union> set (at_held (ats ! i)). 0 < qty it"
proof -
  have "ats ! i \<in> set ats" using assms(2) by simp
  with assms(1) show ?thesis unfolding positive_def by blast
qed

lemma reserved_update:
  "i < length ats \<Longrightarrow> reserved env k (ats[i := a])
     = reserved env k ats - held_qty env k (at_held (ats ! i)) + held_qty env k (at_held a)"
  by (simp add: reserved_def sum_list_map_update)

lemma step_invariant: "stock_invariant env k n s \<Longrightarrow> stock_invariant env k n (step env ev s)"
proof -
  assume I: "stock_invariant env k n s"
  obtain ps ats where s: "s = (ps, ats)" by (cases s)
  from I s obtain c where pos: "positive ats" and c: "stock ps k = Some c" "0 \<le> c"
    "c + reserved env k ats = n" by (auto simp: stock_invariant_def)
  show ?thesis
  proof (cases ev)
    case (Decrement i)
    show ?thesis
    proof (cases "i < length ats \<and> at_phase (ats ! i) = Reserving")
      case False
      then show ?thesis using I s Decrement by auto
    next
      case True
      then have il: "i < length ats" by simp
      show ?thesis
      proof (cases "at_todo (ats ! i)")
        case Nil
        then show ?thesis using I s Decrement True by simp
      next
        case (Cons it its)
        show ?thesis
        proof (cases "decrementStock env it ps")
          case None
          have "positive (ats[i := (ats ! i)\<lparr>at_phase := Compensating\<rparr>])"
            by (rule positive_update[OF pos il]) simp
          then show ?thesis using Decrement True Cons None s c
            by (simp add: stock_invariant_def reserved_update)
        next
          case (Some ps')
          have p: "positive (ats[i := (ats ! i)\<lparr>at_todo := its, at_held := at_held (ats ! i) @ [it]\<rparr>])"
            by (rule positive_update[OF pos il]) (auto simp: Cons)
          have st: "stock ps' k = Some (c - held_qty env k [it])"
            using decrementStock_stock(1)[OF Some, of k] c by simp
          have nn: "0 \<le> c - held_qty env k [it]"
          proof (cases "objectIdString env (productId it) = k")
            case True
            with decrementStock_stock(2)[OF Some] c show ?thesis by (auto simp: held_qty_def)
          next
            case False
            with c show ?thesis by (simp add: held_qty_def)
          qed
          show ?thesis using Decrement True Cons Some s c p st nn
            by (simp add: stock_invariant_def reserved_update held_qty_append)
        qed
      qed
    qed
  next
    case (Place i ok)
    show ?thesis
    proof (cases "i < length ats \<and> at_phase (ats ! i) = Reserving
                    \<and> (if ok then at_todo (ats ! i) = [] else True)")
      case False
      then show ?thesis using I s Place by auto
    next
      case True
      then have il: "i < length ats" by simp
      have "positive (ats[i := (ats ! i)\<lparr>at_phase := (if ok then Placed else Compensating)\<rparr>])"
        by (rule positive_update[OF pos il]) simp
      then show ?thesis using Place True s c by (simp add: stock_invariant_def reserved_update)
    qed
  next
    case (Compensate i j)
    show ?thesis
    proof (cases "i < length ats \<and> at_phase (ats ! i) = Compensating \<and> j < length (at_held (ats ! i))")
      case False
      then show ?thesis using I s Compensate by auto
    next
      case True
      then have il: "i < length ats" and jl: "j < length (at_held (ats ! i))" by simp_all
      let ?d = "at_held (ats ! i) ! j"
      have p: "positive (ats[i := (ats ! i)\<lparr>at_held := take j (at_held (ats ! i))
                                             @ drop (Suc j) (at_held (ats ! i))\<rparr>])"
        by (rule positive_update[OF pos il]) (auto dest: in_set_takeD in_set_dropD)
      have dq: "0 < qty ?d" using positive_nth[OF pos il] jl by simp
      then have hq: "0 \<le> held_qty env k [?d]" by (simp add: held_qty_def)
      have st: "stock (incrementStock env ?d ps) k = Some (c + held_qty env k [?d])"
        using c by (simp add: incrementStock_stock)
      show ?thesis using Compensate True s c p st hq
        by (simp add: stock_invariant_def reserved_update held_qty_remove)
    qed
  next
    case (Finish i)
    show ?thesis
    proof (cases "i < length ats \<and> at_phase (ats ! i) = Compensating \<and> at_held (ats ! i) = []")
      case False
      then show ?thesis using I s Finish by auto
    next
      case True
      then have il: "i < length ats" by simp
      have "positive (ats[i := (ats ! i)\<lparr>at_phase := Failed\<rparr>])"
        by (rule positive_update[OF pos il]) simp
      then show ?thesis using Finish True s c by (simp add: stock_invariant_def reserved_update)
    qed
  next
    case (Transaction i ok)
    show ?thesis
    proof (cases "i < length ats \<and> at_phase (ats ! i) = Reserving \<and> at_held (ats ! i) = []")
      case False
      then show ?thesis using I s Transaction by auto
    next
      case True
      then have il: "i < length ats" and h: "at_held (ats ! i) = []" by simp_all
      have pf: "positive (ats[i := (ats ! i)\<lparr>at_phase := Failed\<rparr>])"
        by (rule positive_update[OF pos il]) simp
      show ?thesis
      proof (cases "reserve_transaction env (at_todo (ats ! i)) ps")
        case None
        then show ?thesis using Transaction True s c pf by (simp add: stock_invariant_def reserved_update)
      next
        case (Some ps')
        show ?thesis
        proof (cases ok)
          case False
          then show ?thesis using Transaction True Some s c pf by (simp add: stock_invariant_def reserved_update)
        next
          case ok: True
          have pp: "positive (ats[i := \<lparr>at_todo = [], at_held = at_todo (ats ! i), at_phase = Placed\<rparr>])"
            by (rule positive_update[OF pos il]) simp
          have q: "\<forall>it \<in> set (at_todo (ats ! i)). 0 < qty it"
            using positive_nth[OF pos il] by simp
          from reserve_transaction_stock[OF Some c(1) q c(2)]
          have st: "stock ps' k = Some (c - held_qty env k (at_todo (ats ! i)))"
            "0 \<le> c - held_qty env k (at_todo (ats ! i))" by simp_all
          have h0: "held_qty env k (at_held (ats ! i)) = 0" by (simp add: h held_qty_def)
          show ?thesis using Transaction True Some ok s c pp st h0
            by (simp add: stock_invariant_def reserved_update)
        qed
      qed
    qed
  qed
qed

lemma run_invariant: "stock_invariant env k n s \<Longrightarrow> stock_invariant env k n (run env schedule s)"
  unfolding run_def by (induction schedule arbitrary: s) (simp_all add: step_invariant)

lemma placed_le_reserved: "positive ats \<Longrightarrow> placed env k ats \<le> reserved env k ats"
  unfolding placed_def reserved_def positive_def
  by (rule sum_list_mono) (auto intro!: held_qty_nonneg)

lemma reserved_new: "reserved env k (map new_attempt reqs) = 0"
  by (induction reqs) (simp_all add: reserved_def new_attempt_def held_qty_def)

lemma init_invariant:
  "stock ps0 k = Some n \<Longrightarrow> 0 \<le> n \<Longrightarrow> stock_invariant env k n (ps0, map new_attempt reqs)"
  by (auto simp: stock_invariant_def positive_def reserved_new new_attempt_def dest: normalize_positive)

text \<open>
  C4. Take any store, any requests, and any schedule of their steps, on either path.
  For a product whose stock counter starts at \<open>n \<ge> 0\<close>: after the schedule the counter
  is not negative, the counter and the quantities held by all attempts add up to \<open>n\<close>,
  and the quantities of the attempts whose order was placed sum to at most \<open>n\<close>.
\<close>

theorem no_oversell_under_interleaving:
  assumes "stock ps0 k = Some n" and "0 \<le> n"
  shows "case run env schedule (ps0, map new_attempt reqs) of
           (ps, ats) \<Rightarrow>
             (case stock ps k of
                None \<Rightarrow> False
              | Some c \<Rightarrow> 0 \<le> c \<and> c + reserved env k ats = n)
             \<and> placed env k ats \<le> n"
proof -
  have "stock_invariant env k n (run env schedule (ps0, map new_attempt reqs))"
    by (rule run_invariant[OF init_invariant[OF assms]])
  then obtain ps ats c where r: "run env schedule (ps0, map new_attempt reqs) = (ps, ats)"
    and p: "positive ats" and c: "stock ps k = Some c" "0 \<le> c" "c + reserved env k ats = n"
    by (auto simp: stock_invariant_def split: prod.splits)
  from placed_le_reserved[OF p, of env k] c have "placed env k ats \<le> n" by simp
  with c show ?thesis by (simp add: r)
qed

theorem no_oversell_under_interleaving_witness:
  "stock (products (ex_shop 10 1)) ''ab'' = Some 1
   \<and> stock (fst (run ex_env ex_schedule
        (products (ex_shop 10 1), map new_attempt [ex_last_item, ex_last_item]))) ''ab'' = Some 0
   \<and> map at_phase (snd (run ex_env ex_schedule
        (products (ex_shop 10 1), map new_attempt [ex_last_item, ex_last_item]))) = [Placed, Failed]
   \<and> placed ex_env ''ab'' (snd (run ex_env ex_schedule
        (products (ex_shop 10 1), map new_attempt [ex_last_item, ex_last_item]))) = 1
   \<and> placed ex_env ''ab'' (snd (run ex_env ex_schedule
        (products (ex_shop 10 1), map new_attempt [ex_last_item, ex_last_item]))) \<le> 1
   \<and> stock (fst (run ex_env ex_schedule_mixed
        (products (ex_shop 10 1), map new_attempt [ex_last_item, ex_last_item]))) ''ab'' = Some 1
   \<and> placed ex_env ''ab'' (snd (run ex_env ex_schedule_mixed
        (products (ex_shop 10 1), map new_attempt [ex_last_item, ex_last_item]))) \<le> 1"
proof -
  have s: "stock (products (ex_shop 10 1)) ''ab'' = Some 1" by code_simp
  have a: "stock (fst (run ex_env ex_schedule
        (products (ex_shop 10 1), map new_attempt [ex_last_item, ex_last_item]))) ''ab'' = Some 0"
    by code_simp
  have b: "map at_phase (snd (run ex_env ex_schedule
        (products (ex_shop 10 1), map new_attempt [ex_last_item, ex_last_item]))) = [Placed, Failed]"
    by code_simp
  have c: "placed ex_env ''ab'' (snd (run ex_env ex_schedule
        (products (ex_shop 10 1), map new_attempt [ex_last_item, ex_last_item]))) = 1"
    by code_simp
  have d: "stock (fst (run ex_env ex_schedule_mixed
        (products (ex_shop 10 1), map new_attempt [ex_last_item, ex_last_item]))) ''ab'' = Some 1"
    by code_simp
  have n: "(0::int) \<le> 1" by simp
  from no_oversell_under_interleaving[OF s n, where env = ex_env and schedule = ex_schedule
         and reqs = "[ex_last_item, ex_last_item]"]
  have e: "placed ex_env ''ab'' (snd (run ex_env ex_schedule
        (products (ex_shop 10 1), map new_attempt [ex_last_item, ex_last_item]))) \<le> 1"
    by (simp add: split_beta)
  from no_oversell_under_interleaving[OF s n, where env = ex_env and schedule = ex_schedule_mixed
         and reqs = "[ex_last_item, ex_last_item]"]
  have f: "placed ex_env ''ab'' (snd (run ex_env ex_schedule_mixed
        (products (ex_shop 10 1), map new_attempt [ex_last_item, ex_last_item]))) \<le> 1"
    by (simp add: split_beta)
  from s a b c d e f show ?thesis by simp
qed

end
